theory Spec2Isabelle
  imports Complex_Main "HOL-Library.Log_Nat"
begin

section \<open>JavaScript numbers\<close>

text \<open>
  The engine is TypeScript; every quantity is a JavaScript \<^verbatim>\<open>number\<close>. A number is
  modelled as a real or one of the three non-finite values, because the source creates
  and tests them (\<^verbatim>\<open>Infinity\<close> for a zero-height eye, \<^verbatim>\<open>Number.isFinite\<close> guards,
  \<^verbatim>\<open>-Infinity\<close> as the initial key-frame score, \<^verbatim>\<open>NaN\<close> from reading past the end of a
  typed array). The operations of this section are exact on finite values, and the sign of
  zero is not modelled. Where a result of the code depends on rounding (the aggregate
  quality score, the typed arrays of the detector and its rescaling) the exact result is
  rounded explicitly, with the functions of the subsection on rounding below.
\<close>

datatype jsnum = Fin real | Infinity | NegInfinity | NaN

fun isFinite :: "jsnum \<Rightarrow> bool" where
  "isFinite (Fin _) = True"
| "isFinite _ = False"

fun js_neg :: "jsnum \<Rightarrow> jsnum" where
  "js_neg (Fin a) = Fin (- a)"
| "js_neg Infinity = NegInfinity"
| "js_neg NegInfinity = Infinity"
| "js_neg NaN = NaN"

fun js_add :: "jsnum \<Rightarrow> jsnum \<Rightarrow> jsnum" where
  "js_add NaN _ = NaN"
| "js_add _ NaN = NaN"
| "js_add (Fin a) (Fin b) = Fin (a + b)"
| "js_add (Fin _) b = b"
| "js_add a (Fin _) = a"
| "js_add Infinity Infinity = Infinity"
| "js_add NegInfinity NegInfinity = NegInfinity"
| "js_add _ _ = NaN"

definition js_sub :: "jsnum \<Rightarrow> jsnum \<Rightarrow> jsnum" where
  "js_sub a b = js_add a (js_neg b)"

definition signed_inf :: "bool \<Rightarrow> jsnum" where
  "signed_inf positive = (if positive then Infinity else NegInfinity)"

fun js_mul :: "jsnum \<Rightarrow> jsnum \<Rightarrow> jsnum" where
  "js_mul NaN _ = NaN"
| "js_mul _ NaN = NaN"
| "js_mul (Fin a) (Fin b) = Fin (a * b)"
| "js_mul (Fin a) Infinity = (if a = 0 then NaN else signed_inf (0 < a))"
| "js_mul (Fin a) NegInfinity = (if a = 0 then NaN else signed_inf (a < 0))"
| "js_mul Infinity (Fin b) = (if b = 0 then NaN else signed_inf (0 < b))"
| "js_mul NegInfinity (Fin b) = (if b = 0 then NaN else signed_inf (b < 0))"
| "js_mul Infinity Infinity = Infinity"
| "js_mul NegInfinity NegInfinity = Infinity"
| "js_mul _ _ = NegInfinity"

text \<open>Division: a zero divisor is taken as \<^verbatim>\<open>+0\<close>.\<close>

fun js_div :: "jsnum \<Rightarrow> jsnum \<Rightarrow> jsnum" where
  "js_div NaN _ = NaN"
| "js_div _ NaN = NaN"
| "js_div (Fin a) (Fin b) =
     (if b = 0 then (if a = 0 then NaN else signed_inf (0 < a)) else Fin (a / b))"
| "js_div (Fin _) _ = Fin 0"
| "js_div Infinity (Fin b) = signed_inf (0 \<le> b)"
| "js_div NegInfinity (Fin b) = signed_inf (b < 0)"
| "js_div _ _ = NaN"

fun js_lt :: "jsnum \<Rightarrow> jsnum \<Rightarrow> bool" where
  "js_lt NaN _ = False"
| "js_lt _ NaN = False"
| "js_lt (Fin a) (Fin b) = (a < b)"
| "js_lt _ NegInfinity = False"
| "js_lt Infinity _ = False"
| "js_lt _ _ = True"

fun js_eq :: "jsnum \<Rightarrow> jsnum \<Rightarrow> bool" where
  "js_eq NaN _ = False"
| "js_eq _ NaN = False"
| "js_eq a b = (a = b)"

definition js_gt :: "jsnum \<Rightarrow> jsnum \<Rightarrow> bool" where
  "js_gt a b = js_lt b a"

definition js_le :: "jsnum \<Rightarrow> jsnum \<Rightarrow> bool" where
  "js_le a b = (js_lt a b \<or> js_eq a b)"

definition js_ge :: "jsnum \<Rightarrow> jsnum \<Rightarrow> bool" where
  "js_ge a b = js_le b a"

fun js_abs :: "jsnum \<Rightarrow> jsnum" where
  "js_abs (Fin a) = Fin \<bar>a\<bar>"
| "js_abs NaN = NaN"
| "js_abs _ = Infinity"

text \<open>\<^verbatim>\<open>Math.min\<close> and \<^verbatim>\<open>Math.max\<close> of two arguments: \<^verbatim>\<open>NaN\<close> if either is.\<close>

fun js_min :: "jsnum \<Rightarrow> jsnum \<Rightarrow> jsnum" where
  "js_min NaN _ = NaN"
| "js_min _ NaN = NaN"
| "js_min a b = (if js_lt b a then b else a)"

fun js_max :: "jsnum \<Rightarrow> jsnum \<Rightarrow> jsnum" where
  "js_max NaN _ = NaN"
| "js_max _ NaN = NaN"
| "js_max a b = (if js_lt a b then b else a)"

fun js_sqrt :: "jsnum \<Rightarrow> jsnum" where
  "js_sqrt (Fin a) = (if a < 0 then NaN else Fin (sqrt a))"
| "js_sqrt Infinity = Infinity"
| "js_sqrt _ = NaN"

fun js_exp :: "jsnum \<Rightarrow> jsnum" where
  "js_exp (Fin a) = Fin (exp a)"
| "js_exp NegInfinity = Fin 0"
| "js_exp a = a"

text \<open>\<^verbatim>\<open>Math.round\<close>: the nearest integer, a half rounded up.\<close>

fun js_round :: "jsnum \<Rightarrow> jsnum" where
  "js_round (Fin a) = Fin (of_int \<lfloor>a + 1 / 2\<rfloor>)"
| "js_round a = a"

text \<open>\<^verbatim>\<open>v ?? NaN\<close> for a \<^verbatim>\<open>number | null\<close>.\<close>

fun orNaN :: "jsnum option \<Rightarrow> jsnum" where
  "orNaN None = NaN"
| "orNaN (Some v) = v"


subsection \<open>Rounding to a floating-point format\<close>

text \<open>
  A finite value is brought into an IEEE 754 binary format of precision \<open>p\<close> and least
  normal exponent \<open>emin\<close> by rounding to the nearest representable value, a tie going to
  the even significand; a result of magnitude \<open>2 ^ (2 - emin)\<close> or more becomes an infinity.
  The result of an arithmetic operation on numbers is the exact result rounded to binary64
  (\<open>toDouble\<close>); a store into a \<^verbatim>\<open>Float32Array\<close> rounds to binary32 (\<open>fround\<close>).
\<close>

definition roundHalfEven :: "real \<Rightarrow> int" where
  "roundHalfEven y =
     (let f = \<lfloor>y\<rfloor>; d = y - of_int f
      in if d < 1 / 2 then f else if 1 / 2 < d then f + 1 else if even f then f else f + 1)"

text \<open>The exponent \<open>e\<close> of a positive real: \<open>2 ^ e \<le> x < 2 ^ (e + 1)\<close>.\<close>

definition exponentOf :: "real \<Rightarrow> int" where
  "exponentOf x = (if 1 \<le> x then bitlen \<lfloor>x\<rfloor> - 1 else - bitlen (\<lceil>1 / x\<rceil> - 1))"

definition ieeeRound :: "nat \<Rightarrow> int \<Rightarrow> real \<Rightarrow> jsnum" where
  "ieeeRound p emin x =
     (if x = 0 then Fin 0
      else let e = max (exponentOf \<bar>x\<bar>) emin;
               u = 2 powi (e - int p + 1);
               r = of_int (roundHalfEven (x / u)) * u
           in if 2 powi (2 - emin) \<le> \<bar>r\<bar> then signed_inf (0 < x) else Fin r)"

definition binary64 :: "real \<Rightarrow> jsnum" where
  "binary64 = ieeeRound 53 (- 1022)"

definition binary32 :: "real \<Rightarrow> jsnum" where
  "binary32 = ieeeRound 24 (- 126)"

fun toDouble :: "jsnum \<Rightarrow> jsnum" where
  "toDouble (Fin x) = binary64 x"
| "toDouble v = v"

fun fround :: "jsnum \<Rightarrow> jsnum" where
  "fround (Fin x) = binary32 x"
| "fround v = v"

section \<open>The liveness state machine (\<^verbatim>\<open>src/services/livenessEngine.ts\<close>)\<close>

subsection \<open>Data\<close>

datatype error = ModelNotLoaded | InferenceFailure | InvalidInput

datatype LivenessStageKey = Nod | Shake | Blink | Mouth

type_synonym point = "jsnum \<times> jsnum"

record Pose =
  yaw :: jsnum
  pitch :: jsnum
  roll :: jsnum

text \<open>
  A detection: the box \<^verbatim>\<open>[x1, y1, x2, y2]\<close> and the score. The optional detector keypoints
  \<^verbatim>\<open>kps\<close> are left out: they are copied through and read only by the pixel-resolution
  scorer.
\<close>

record Detection =
  bbox :: "jsnum \<times> jsnum \<times> jsnum \<times> jsnum"
  score :: real

record DetectionWithLandmarks = Detection +
  landmarks :: "point list"
  pose :: "Pose option"

record BlinkMetrics =
  leftHeight :: jsnum
  rightHeight :: jsnum
  leftRatio :: jsnum
  rightRatio :: jsnum
  ratio :: jsnum

record LivenessMetrics =
  nodRatio :: "jsnum option"
  nodSpread :: "jsnum option"
  shakeRatio :: "jsnum option"
  shakeSpread :: "jsnum option"
  m_blink :: "BlinkMetrics option"
  mouthRatio :: "jsnum option"
  m_pose :: "Pose option"
  poseDegrees :: "Pose option"
  frontalScore :: "jsnum option"

record BlinkState =
  closedDetected :: bool
  openDetected :: bool
  eyeAvg :: "jsnum option"

record MouthState =
  mouthOpenDetected :: bool
  mouthClosedDetected :: bool

record RangeState =
  range_min :: "jsnum option"
  range_max :: "jsnum option"

record LivenessComputationState =
  active :: bool
  stageIndex :: nat
  progress :: real
  completed :: bool
  lastMetrics :: "LivenessMetrics option"
  nodRange :: RangeState
  shakeRange :: RangeState
  blink :: BlinkState
  mouth :: MouthState

definition nodPitch :: real where "nodPitch = 0.05"
definition shakeYaw :: real where "shakeYaw = 0.06"
definition mouthThreshold :: real where "mouthThreshold = 0.5"
definition INITIAL_BLINK_AVG :: real where "INITIAL_BLINK_AVG = 10"
definition BLINK_THRESHOLD_low :: real where "BLINK_THRESHOLD_low = 5"
definition BLINK_THRESHOLD_high :: real where "BLINK_THRESHOLD_high = 20"
definition BLINK_AVG_current :: real where "BLINK_AVG_current = 0.1"
definition BLINK_AVG_previous :: real where "BLINK_AVG_previous = 0.9"
definition POSE_SCORE_SIGMA :: real where "POSE_SCORE_SIGMA = 20"

definition emptyRange :: RangeState where
  "emptyRange = \<lparr>range_min = None, range_max = None\<rparr>"

definition createLivenessComputationState :: LivenessComputationState where
  "createLivenessComputationState =
     \<lparr>active = False, stageIndex = 0, progress = 0, completed = False, lastMetrics = None,
      nodRange = emptyRange, shakeRange = emptyRange,
      blink = \<lparr>closedDetected = False, openDetected = False,
               eyeAvg = Some (Fin INITIAL_BLINK_AVG)\<rparr>,
      mouth = \<lparr>mouthOpenDetected = False, mouthClosedDetected = False\<rparr>\<rparr>"

subsection \<open>The ordered stage list and its predicates\<close>

definition LIVENESS_STAGES :: "LivenessStageKey list" where
  "LIVENESS_STAGES = [Nod, Shake, Blink, Mouth]"

fun check :: "LivenessStageKey \<Rightarrow> LivenessMetrics \<Rightarrow> LivenessComputationState \<Rightarrow> bool" where
  "check Nod metrics st =
     (case nodSpread metrics of None \<Rightarrow> False | Some s \<Rightarrow> js_ge s (Fin nodPitch))"
| "check Shake metrics st =
     (case shakeSpread metrics of None \<Rightarrow> False | Some s \<Rightarrow> js_ge s (Fin shakeYaw))"
| "check Blink metrics st = (closedDetected (blink st) \<and> openDetected (blink st))"
| "check Mouth metrics st = (mouthClosedDetected (mouth st) \<and> mouthOpenDetected (mouth st))"

subsection \<open>Geometry of one detection\<close>

text \<open>Reading \<^verbatim>\<open>det.landmarks[i]\<close>: \<^verbatim>\<open>undefined\<close> past the end of the array.\<close>

definition landmark :: "point list \<Rightarrow> nat \<Rightarrow> point option" where
  "landmark ps i = (if i < length ps then Some (ps ! i) else None)"

text \<open>\<^verbatim>\<open>toCanvasPoint\<close>: both coordinates of a landmark are numbers, so only a missing point is
  rejected.\<close>

definition toCanvasPoint :: "point option \<Rightarrow> point option" where
  "toCanvasPoint p = (case p of None \<Rightarrow> None | Some (x, y) \<Rightarrow> Some (x, y))"

record FaceInfo =
  centerX :: jsnum
  centerY :: jsnum
  noseX :: jsnum
  noseY :: jsnum
  width :: jsnum
  height :: jsnum

definition getFaceCenterAndNose :: "DetectionWithLandmarks \<Rightarrow> FaceInfo option" where
  "getFaceCenterAndNose det =
     (if length (landmarks det) < 98 then None
      else case (toCanvasPoint (landmark (landmarks det) 96),
                 toCanvasPoint (landmark (landmarks det) 97),
                 toCanvasPoint (landmark (landmarks det) 76),
                 toCanvasPoint (landmark (landmarks det) 82),
                 toCanvasPoint (landmark (landmarks det) 54)) of
        (Some topLeft, Some topRight, Some bottomLeft, Some bottomRight, Some nose) \<Rightarrow>
          (case bbox det of (x1, y1, x2, y2) \<Rightarrow>
            Some \<lparr>centerX = js_div (js_add (js_add (js_add (fst topLeft) (fst topRight)) (fst bottomLeft))
                                             (fst bottomRight)) (Fin 4),
                  centerY = js_div (js_add (js_add (js_add (snd topLeft) (snd topRight)) (snd bottomLeft))
                                             (snd bottomRight)) (Fin 4),
                  noseX = fst nose, noseY = snd nose,
                  width = js_max (Fin 1) (js_sub x2 x1),
                  height = js_max (Fin 1) (js_sub y2 y1)\<rparr>)
      | _ \<Rightarrow> None)"

definition toPoseDegrees :: "Pose option \<Rightarrow> Pose option" where
  "toPoseDegrees p =
     (case p of None \<Rightarrow> None
      | Some q \<Rightarrow> Some \<lparr>yaw = js_mul (yaw q) (Fin (180 / pi)),
                        pitch = js_mul (pitch q) (Fin (180 / pi)),
                        roll = js_mul (roll q) (Fin (180 / pi))\<rparr>)"

definition js_sq :: "jsnum \<Rightarrow> jsnum" where
  "js_sq a = js_mul a a"

definition computePoseScore :: "Pose option \<Rightarrow> jsnum option" where
  "computePoseScore p =
     (case p of None \<Rightarrow> None
      | Some q \<Rightarrow>
         (let dist = js_sqrt (js_add (js_add (js_sq (js_mul (yaw q) (Fin 1)))
                                             (js_sq (js_mul (pitch q) (Fin 1))))
                                     (js_sq (js_mul (roll q) (Fin 0.8))));
              sc = js_mul (Fin 100)
                     (js_exp (js_div (js_neg (js_sq dist)) (js_mul (Fin 2) (js_sq (Fin POSE_SCORE_SIGMA)))));
              rounded = js_div (js_round (js_mul sc (Fin 100))) (Fin 100)
          in Some (js_max (Fin 0) (js_min (Fin 100) rounded))))"

definition computeNodRatio :: "DetectionWithLandmarks \<Rightarrow> jsnum option" where
  "computeNodRatio det =
     (case getFaceCenterAndNose det of None \<Rightarrow> None
      | Some info \<Rightarrow> Some (js_div (js_sub (centerY info) (noseY info)) (height info)))"

definition computeShakeRatio :: "DetectionWithLandmarks \<Rightarrow> jsnum option" where
  "computeShakeRatio det =
     (case getFaceCenterAndNose det of None \<Rightarrow> None
      | Some info \<Rightarrow> Some (js_div (js_sub (centerX info) (noseX info)) (width info)))"

definition computeBlinkRatios :: "DetectionWithLandmarks \<Rightarrow> BlinkMetrics option" where
  "computeBlinkRatios det =
     (case (toCanvasPoint (landmark (landmarks det) 66),
            toCanvasPoint (landmark (landmarks det) 62),
            toCanvasPoint (landmark (landmarks det) 64),
            toCanvasPoint (landmark (landmarks det) 60),
            toCanvasPoint (landmark (landmarks det) 74),
            toCanvasPoint (landmark (landmarks det) 70),
            toCanvasPoint (landmark (landmarks det) 72),
            toCanvasPoint (landmark (landmarks det) 68)) of
        (Some upperLeft, Some lowerLeft, Some outerLeft, Some innerLeft,
         Some upperRight, Some lowerRight, Some outerRight, Some innerRight) \<Rightarrow>
          (let lh = js_abs (js_sub (snd upperLeft) (snd lowerLeft));
               rh = js_abs (js_sub (snd upperRight) (snd lowerRight));
               lw = js_abs (js_sub (fst outerLeft) (fst innerLeft));
               rw = js_abs (js_sub (fst outerRight) (fst innerRight));
               lr = (if js_eq lh (Fin 0) then Infinity else js_div lw lh);
               rr = (if js_eq rh (Fin 0) then Infinity else js_div rw rh)
           in Some \<lparr>leftHeight = lh, rightHeight = rh, leftRatio = lr, rightRatio = rr,
                     ratio = js_min lr rr\<rparr>)
      | _ \<Rightarrow> None)"

definition computeMouthRatio :: "DetectionWithLandmarks \<Rightarrow> jsnum option" where
  "computeMouthRatio det =
     (case (toCanvasPoint (landmark (landmarks det) 90),
            toCanvasPoint (landmark (landmarks det) 94),
            toCanvasPoint (landmark (landmarks det) 88),
            toCanvasPoint (landmark (landmarks det) 92)) of
        (Some upper, Some lower, Some left, Some right) \<Rightarrow>
          (let w = js_abs (js_sub (fst right) (fst left))
           in if js_eq w (Fin 0) then None
              else Some (js_div (js_abs (js_sub (snd lower) (snd upper))) w))
      | _ \<Rightarrow> None)"

subsection \<open>Running state of the four stages\<close>

definition updateRangeState :: "RangeState \<Rightarrow> jsnum option \<Rightarrow> RangeState" where
  "updateRangeState rng r =
     (case r of None \<Rightarrow> rng
      | Some v \<Rightarrow>
         if \<not> isFinite v then rng
         else (case (range_min rng, range_max rng) of
                 (Some mn, Some mx) \<Rightarrow> \<lparr>range_min = Some (js_min mn v), range_max = Some (js_max mx v)\<rparr>
               | _ \<Rightarrow> \<lparr>range_min = Some v, range_max = Some v\<rparr>))"

definition getSpread :: "RangeState \<Rightarrow> jsnum option" where
  "getSpread rng =
     (case (range_min rng, range_max rng) of
        (Some mn, Some mx) \<Rightarrow> Some (js_sub mx mn)
      | _ \<Rightarrow> None)"

definition resetRange :: "RangeState \<Rightarrow> RangeState" where
  "resetRange rng = rng\<lparr>range_min := None, range_max := None\<rparr>"

definition updateBlinkAverage :: "jsnum option \<Rightarrow> LivenessComputationState \<Rightarrow> LivenessComputationState" where
  "updateBlinkAverage r st =
     (case r of None \<Rightarrow> st
      | Some v \<Rightarrow>
         if \<not> isFinite v then st
         else if \<not> isFinite (orNaN (eyeAvg (blink st)))
           then st\<lparr>blink := (blink st)\<lparr>eyeAvg := Some v\<rparr>\<rparr>
         else if js_lt v (Fin BLINK_THRESHOLD_low) \<or> js_gt v (Fin BLINK_THRESHOLD_high) then st
         else st\<lparr>blink := (blink st)\<lparr>eyeAvg :=
                Some (js_add (js_mul v (Fin BLINK_AVG_current))
                             (js_mul (orNaN (eyeAvg (blink st))) (Fin BLINK_AVG_previous)))\<rparr>\<rparr>)"

definition updateBlinkState :: "BlinkMetrics option \<Rightarrow> LivenessComputationState \<Rightarrow> LivenessComputationState" where
  "updateBlinkState bm st =
     (case bm of None \<Rightarrow> st
      | Some metrics \<Rightarrow>
         (let st1 = (if \<not> isFinite (orNaN (eyeAvg (blink st)))
                     then st\<lparr>blink := (blink st)\<lparr>eyeAvg := Some (Fin INITIAL_BLINK_AVG)\<rparr>\<rparr>
                     else st);
              threshold = orNaN (eyeAvg (blink st1));
              closedNow = (js_eq (leftHeight metrics) (Fin 0) \<or> js_eq (rightHeight metrics) (Fin 0) \<or>
                           (js_gt (leftRatio metrics) threshold \<and> js_gt (rightRatio metrics) threshold));
              st2 = (if closedNow then st1\<lparr>blink := (blink st1)\<lparr>closedDetected := True\<rparr>\<rparr> else st1);
              openNow = (js_gt (leftHeight metrics) (Fin 0) \<and> js_gt (rightHeight metrics) (Fin 0) \<and>
                         js_lt (leftRatio metrics) threshold \<and> js_lt (rightRatio metrics) threshold);
              st3 = (if openNow then st2\<lparr>blink := (blink st2)\<lparr>openDetected := True\<rparr>\<rparr> else st2)
          in updateBlinkAverage (Some (ratio metrics)) st3))"

definition resetBlinkDetections :: "LivenessComputationState \<Rightarrow> bool \<Rightarrow> LivenessComputationState" where
  "resetBlinkDetections st resetAverage =
     (let st1 = st\<lparr>blink := (blink st)\<lparr>closedDetected := False, openDetected := False\<rparr>\<rparr>
      in if resetAverage then st1\<lparr>blink := (blink st1)\<lparr>eyeAvg := Some (Fin INITIAL_BLINK_AVG)\<rparr>\<rparr>
         else st1)"

definition updateMouthState :: "jsnum option \<Rightarrow> LivenessComputationState \<Rightarrow> LivenessComputationState" where
  "updateMouthState r st =
     (case r of None \<Rightarrow> st
      | Some v \<Rightarrow>
         if \<not> isFinite v then st
         else if js_gt v (Fin mouthThreshold)
           then st\<lparr>mouth := (mouth st)\<lparr>mouthOpenDetected := True\<rparr>\<rparr>
         else st\<lparr>mouth := (mouth st)\<lparr>mouthClosedDetected := True\<rparr>\<rparr>)"

definition resetMouthState :: "LivenessComputationState \<Rightarrow> LivenessComputationState" where
  "resetMouthState st = st\<lparr>mouth := (mouth st)\<lparr>mouthOpenDetected := False, mouthClosedDetected := False\<rparr>\<rparr>"

subsection \<open>The engine: sessions and frames\<close>

record StageStatus =
  total :: nat
  status_stageIndex :: nat
  currentStage :: "LivenessStageKey option"
  status_completed :: bool
  justCompletedStage :: "LivenessStageKey option"
  justCompletedIndex :: "nat option"

record ProcessFrameResult =
  detection :: "DetectionWithLandmarks option"
  metrics :: "LivenessMetrics option"
  stage :: StageStatus
  multiFaceDetected :: "bool option"

definition startSession :: LivenessComputationState where
  "startSession =
     (let st = createLivenessComputationState\<lparr>active := True\<rparr>;
          st1 = resetMouthState (resetBlinkDetections st True)
      in st1\<lparr>nodRange := resetRange (nodRange st1), shakeRange := resetRange (shakeRange st1)\<rparr>)"

definition stopSession :: "LivenessComputationState \<Rightarrow> LivenessComputationState" where
  "stopSession st = st\<lparr>active := False\<rparr>"

definition getCurrentStage :: "LivenessComputationState \<Rightarrow> LivenessStageKey option" where
  "getCurrentStage st =
     (if stageIndex st < length LIVENESS_STAGES then Some (LIVENESS_STAGES ! stageIndex st) else None)"

definition buildStageStatus ::
  "LivenessComputationState \<Rightarrow> (LivenessStageKey \<times> nat) option \<Rightarrow> StageStatus" where
  "buildStageStatus st extra =
     \<lparr>total = length LIVENESS_STAGES,
      status_stageIndex = min (stageIndex st) (length LIVENESS_STAGES - 1),
      currentStage = getCurrentStage st,
      status_completed = completed st,
      justCompletedStage = map_option fst extra,
      justCompletedIndex = map_option snd extra\<rparr>"

definition resetCompleted :: "LivenessStageKey \<Rightarrow> LivenessComputationState \<Rightarrow> LivenessComputationState" where
  "resetCompleted k st =
     (if k = Blink then resetBlinkDetections st False
      else if k = Mouth then resetMouthState st
      else if k = Nod then st\<lparr>nodRange := resetRange (nodRange st)\<rparr>
      else st\<lparr>shakeRange := resetRange (shakeRange st)\<rparr>)"

definition evaluateStage ::
  "LivenessMetrics \<Rightarrow> LivenessComputationState \<Rightarrow> StageStatus \<times> LivenessComputationState" where
  "evaluateStage m st =
     (case getCurrentStage st of
        None \<Rightarrow> (let st1 = st\<lparr>completed := True, active := False\<rparr> in (buildStageStatus st1 None, st1))
      | Some stg \<Rightarrow>
          if \<not> check stg m st then (buildStageStatus st None, st)
          else
            (let completedIndex = stageIndex st;
                 st1 = st\<lparr>stageIndex := stageIndex st + 1\<rparr>;
                 st2 = st1\<lparr>progress := real (stageIndex st1) / real (length LIVENESS_STAGES)\<rparr>;
                 st3 = resetCompleted stg st2;
                 st4 = (if stageIndex st3 \<ge> length LIVENESS_STAGES
                        then st3\<lparr>completed := True, active := False\<rparr> else st3)
             in (buildStageStatus st4 (Some (stg, completedIndex)), st4)))"

text \<open>
  What the two models returned for one frame: the detector's \<^verbatim>\<open>detectFromElement\<close> (after
  \<^verbatim>\<open>warmup\<close>) and the landmark estimator's \<^verbatim>\<open>estimate\<close>, each a value or a thrown error.
\<close>

record Estimate =
  est_landmarks :: "point list"
  est_pose :: "Pose option"

record Frame =
  detectResult :: "error + Detection list"
  estimateResult :: "error + Estimate option"

definition noFace :: "LivenessComputationState \<Rightarrow> bool option \<Rightarrow> ProcessFrameResult" where
  "noFace st multi =
     \<lparr>detection = None, metrics = None, stage = buildStageStatus st None, multiFaceDetected = multi\<rparr>"

definition acceptFrame ::
  "LivenessComputationState \<Rightarrow> Detection \<Rightarrow> Estimate \<Rightarrow> ProcessFrameResult \<times> LivenessComputationState" where
  "acceptFrame st primary est =
     (let det = \<lparr>bbox = bbox primary, score = score primary,
                 landmarks = est_landmarks est, pose = est_pose est\<rparr>;
          nodR = computeNodRatio det;
          shakeR = computeShakeRatio det;
          st1 = st\<lparr>nodRange := updateRangeState (nodRange st) nodR\<rparr>;
          st2 = st1\<lparr>shakeRange := updateRangeState (shakeRange st1) shakeR\<rparr>;
          blinkM = computeBlinkRatios det;
          st3 = updateBlinkState blinkM st2;
          mouthR = computeMouthRatio det;
          st4 = updateMouthState mouthR st3;
          deg = toPoseDegrees (pose det);
          m = \<lparr>nodRatio = nodR, nodSpread = getSpread (nodRange st2),
               shakeRatio = shakeR, shakeSpread = getSpread (shakeRange st2),
               m_blink = blinkM, mouthRatio = mouthR, m_pose = pose det, poseDegrees = deg,
               frontalScore = computePoseScore deg\<rparr>;
          st5 = st4\<lparr>lastMetrics := Some m\<rparr>;
          (status, st6) = evaluateStage m st5
      in (\<lparr>detection = Some det, metrics = Some m, stage = status, multiFaceDetected = None\<rparr>, st6))"

definition processFrame ::
  "LivenessComputationState \<Rightarrow> Frame \<Rightarrow> (error + ProcessFrameResult) \<times> LivenessComputationState" where
  "processFrame st fr =
     (if \<not> active st then (Inr (noFace st None), st)
      else case detectResult fr of
        Inl e \<Rightarrow> (Inl e, st)
      | Inr detections \<Rightarrow>
          if detections = [] then
            (let st1 = st\<lparr>lastMetrics := None\<rparr> in (Inr (noFace st1 None), st1))
          else if length detections > 1 then
            (let st1 = st\<lparr>lastMetrics := None\<rparr> in (Inr (noFace st1 (Some True)), st1))
          else
            (let primary = hd detections
             in case estimateResult fr of
                  Inl e \<Rightarrow> (Inl e, st)
                | Inr None \<Rightarrow> (let st1 = st\<lparr>lastMetrics := None\<rparr> in (Inr (noFace st1 None), st1))
                | Inr (Some est) \<Rightarrow>
                    (case acceptFrame st primary est of (res, st1) \<Rightarrow> (Inr res, st1))))"

text \<open>A session: the frames are processed one after the other, each on the state the
  previous one left.\<close>

fun processFrames :: "LivenessComputationState \<Rightarrow> Frame list \<Rightarrow> LivenessComputationState" where
  "processFrames st [] = st"
| "processFrames st (fr # frs) = processFrames (snd (processFrame st fr)) frs"

section \<open>Notions used in the statements\<close>

text \<open>
  The detection \<^verbatim>\<open>processFrame\<close> builds on a frame it accepts: exactly one face and a
  landmark estimate.
\<close>

definition frameDetection :: "Frame \<Rightarrow> DetectionWithLandmarks option" where
  "frameDetection fr =
     (case (detectResult fr, estimateResult fr) of
        (Inr [primary], Inr (Some est)) \<Rightarrow>
           Some \<lparr>bbox = bbox primary, score = score primary,
                 landmarks = est_landmarks est, pose = est_pose est\<rparr>
      | _ \<Rightarrow> None)"

text \<open>
  What \<^verbatim>\<open>processFrame\<close> hands to \<^verbatim>\<open>evaluateStage\<close> for an accepted frame: the state after the
  four trackers have taken the frame's measurements, the metrics of the frame, and the
  state with these metrics recorded. The predicate of the current stage is evaluated on
  these.
\<close>

definition gatherEvidence ::
  "LivenessComputationState \<Rightarrow> DetectionWithLandmarks \<Rightarrow> LivenessComputationState" where
  "gatherEvidence st det =
     updateMouthState (computeMouthRatio det)
       (updateBlinkState (computeBlinkRatios det)
          (st\<lparr>nodRange := updateRangeState (nodRange st) (computeNodRatio det),
               shakeRange := updateRangeState (shakeRange st) (computeShakeRatio det)\<rparr>))"

definition frameMetrics :: "LivenessComputationState \<Rightarrow> DetectionWithLandmarks \<Rightarrow> LivenessMetrics" where
  "frameMetrics st det =
     \<lparr>nodRatio = computeNodRatio det,
      nodSpread = getSpread (updateRangeState (nodRange st) (computeNodRatio det)),
      shakeRatio = computeShakeRatio det,
      shakeSpread = getSpread (updateRangeState (shakeRange st) (computeShakeRatio det)),
      m_blink = computeBlinkRatios det, mouthRatio = computeMouthRatio det,
      m_pose = pose det, poseDegrees = toPoseDegrees (pose det),
      frontalScore = computePoseScore (toPoseDegrees (pose det))\<rparr>"

definition frameState ::
  "LivenessComputationState \<Rightarrow> DetectionWithLandmarks \<Rightarrow> LivenessComputationState" where
  "frameState st det = (gatherEvidence st det)\<lparr>lastMetrics := Some (frameMetrics st det)\<rparr>"

definition stagePredicate :: "LivenessComputationState \<Rightarrow> Frame \<Rightarrow> bool" where
  "stagePredicate st fr =
     (case frameDetection fr of
        None \<Rightarrow> False
      | Some det \<Rightarrow>
          active st \<and> stageIndex st < length LIVENESS_STAGES \<and>
          check (LIVENESS_STAGES ! stageIndex st) (frameMetrics st det) (frameState st det))"

text \<open>The state after a stage has completed, as \<^verbatim>\<open>evaluateStage\<close> leaves it.\<close>

definition advance :: "LivenessComputationState \<Rightarrow> LivenessComputationState" where
  "advance st =
     (let k = LIVENESS_STAGES ! stageIndex st;
          st3 = resetCompleted k
                 (st\<lparr>stageIndex := stageIndex st + 1,
                      progress := real (stageIndex st + 1) / real (length LIVENESS_STAGES)\<rparr>)
      in if stageIndex st3 \<ge> length LIVENESS_STAGES
         then st3\<lparr>completed := True, active := False\<rparr> else st3)"

text \<open>The adaptive blink threshold lies in the band of \<^verbatim>\<open>BLINK_THRESHOLD_LIMITS\<close>.\<close>

definition eyeAvg_in_band :: "LivenessComputationState \<Rightarrow> bool" where
  "eyeAvg_in_band st =
     (case eyeAvg (blink st) of
        Some (Fin a) \<Rightarrow> BLINK_THRESHOLD_low \<le> a \<and> a \<le> BLINK_THRESHOLD_high
      | _ \<Rightarrow> False)"

text \<open>
  Blink observations as \<^verbatim>\<open>updateBlinkState\<close> classifies them: closed when either eye
  height is zero or both ratios exceed the current threshold, open when both heights are
  nonzero and both ratios are below it. The threshold in force on a frame is the
  \<^verbatim>\<open>eyeAvg\<close> of the state the frame arrives in (the initial value if that is not finite).
\<close>

definition blinkThreshold :: "LivenessComputationState \<Rightarrow> jsnum" where
  "blinkThreshold st =
     (if isFinite (orNaN (eyeAvg (blink st))) then orNaN (eyeAvg (blink st)) else Fin INITIAL_BLINK_AVG)"

definition blinkClosed :: "jsnum \<Rightarrow> BlinkMetrics \<Rightarrow> bool" where
  "blinkClosed threshold m =
     (js_eq (leftHeight m) (Fin 0) \<or> js_eq (rightHeight m) (Fin 0) \<or>
      (js_gt (leftRatio m) threshold \<and> js_gt (rightRatio m) threshold))"

definition blinkOpen :: "jsnum \<Rightarrow> BlinkMetrics \<Rightarrow> bool" where
  "blinkOpen threshold m =
     (js_gt (leftHeight m) (Fin 0) \<and> js_gt (rightHeight m) (Fin 0) \<and>
      js_lt (leftRatio m) threshold \<and> js_lt (rightRatio m) threshold)"

definition blinkClosedAt :: "LivenessComputationState \<Rightarrow> Frame \<Rightarrow> bool" where
  "blinkClosedAt st fr =
     (case frameDetection fr of None \<Rightarrow> False
      | Some det \<Rightarrow> (case computeBlinkRatios det of None \<Rightarrow> False
                     | Some m \<Rightarrow> blinkClosed (blinkThreshold st) m))"

definition blinkOpenAt :: "LivenessComputationState \<Rightarrow> Frame \<Rightarrow> bool" where
  "blinkOpenAt st fr =
     (case frameDetection fr of None \<Rightarrow> False
      | Some det \<Rightarrow> (case computeBlinkRatios det of None \<Rightarrow> False
                     | Some m \<Rightarrow> blinkOpen (blinkThreshold st) m))"

text \<open>A mouth observation is open when the finite ratio exceeds the threshold, closed
  otherwise.\<close>

definition mouthClosedAt :: "Frame \<Rightarrow> bool" where
  "mouthClosedAt fr =
     (case frameDetection fr of None \<Rightarrow> False
      | Some det \<Rightarrow> (case computeMouthRatio det of None \<Rightarrow> False
                     | Some v \<Rightarrow> isFinite v \<and> \<not> js_gt v (Fin mouthThreshold)))"

definition mouthOpenAt :: "Frame \<Rightarrow> bool" where
  "mouthOpenAt fr =
     (case frameDetection fr of None \<Rightarrow> False
      | Some det \<Rightarrow> (case computeMouthRatio det of None \<Rightarrow> False
                     | Some v \<Rightarrow> isFinite v \<and> js_gt v (Fin mouthThreshold)))"

text \<open>A stream of frames without a closed observation; for the eyes the threshold moves
  with the state.\<close>

fun neverBlinkClosed :: "LivenessComputationState \<Rightarrow> Frame list \<Rightarrow> bool" where
  "neverBlinkClosed st [] = True"
| "neverBlinkClosed st (fr # frs) =
     (\<not> blinkClosedAt st fr \<and> neverBlinkClosed (snd (processFrame st fr)) frs)"

fun neverMouthClosed :: "Frame list \<Rightarrow> bool" where
  "neverMouthClosed [] = True"
| "neverMouthClosed (fr # frs) = (\<not> mouthClosedAt fr \<and> neverMouthClosed frs)"

text \<open>A stage that has not yet seen its closed observation and has not been passed.\<close>

definition blinkPending :: "LivenessComputationState \<Rightarrow> bool" where
  "blinkPending st = (\<not> closedDetected (blink st) \<and> stageIndex st \<le> 2)"

definition mouthPending :: "LivenessComputationState \<Rightarrow> bool" where
  "mouthPending st = (\<not> mouthClosedDetected (mouth st) \<and> stageIndex st \<le> 3 \<and> \<not> completed st)"

subsection \<open>Sample frames\<close>

text \<open>
  One face in a 100 by 100 box with the 98 landmarks at the origin except the face frame
  (96, 97, 76, 82), the nose tip (54) and the right mouth corner (92). In the resting
  frame the eyes and the mouth are shut and the nose is at the centre; in the moved frame
  the nose is displaced and eyes and mouth are open; the steady frame has them open with
  the nose back at the centre.
\<close>

definition faceBox :: Detection where
  "faceBox = \<lparr>bbox = (Fin 0, Fin 0, Fin 100, Fin 100), score = 0.9\<rparr>"

definition restingLandmarks :: "point list" where
  "restingLandmarks =
     (replicate 98 (Fin 0, Fin 0))
       [97 := (Fin 100, Fin 0), 76 := (Fin 0, Fin 100), 82 := (Fin 100, Fin 100),
        54 := (Fin 50, Fin 50), 92 := (Fin 20, Fin 0)]"

definition movedLandmarks :: "point list" where
  "movedLandmarks =
     restingLandmarks
       [54 := (Fin 40, Fin 40), 62 := (Fin 0, Fin 5), 64 := (Fin 10, Fin 0),
        70 := (Fin 0, Fin 5), 72 := (Fin 10, Fin 0), 94 := (Fin 0, Fin 20)]"

definition steadyLandmarks :: "point list" where
  "steadyLandmarks = movedLandmarks [54 := (Fin 50, Fin 50)]"

definition asDetection :: "point list \<Rightarrow> DetectionWithLandmarks" where
  "asDetection ps = \<lparr>bbox = bbox faceBox, score = score faceBox, landmarks = ps, pose = None\<rparr>"

definition sampleFrame :: "point list \<Rightarrow> Frame" where
  "sampleFrame ps = \<lparr>detectResult = Inr [faceBox],
                     estimateResult = Inr (Some \<lparr>est_landmarks = ps, est_pose = None\<rparr>)\<rparr>"

definition restingFrame :: Frame where
  "restingFrame = sampleFrame restingLandmarks"

definition movedFrame :: Frame where
  "movedFrame = sampleFrame movedLandmarks"

definition steadyFrame :: Frame where
  "steadyFrame = sampleFrame steadyLandmarks"

definition twoFacesFrame :: Frame where
  "twoFacesFrame = \<lparr>detectResult = Inr [faceBox, faceBox\<lparr>score := 0.8\<rparr>],
                    estimateResult = Inr None\<rparr>"

section \<open>Best frame and quality score (\<^verbatim>\<open>src/components/FaceLiveness.tsx\<close>)\<close>

text \<open>
  The part of the component's state that holds the best frame and its scores: the React
  state variables and the three \<^verbatim>\<open>keyFrame\<close> refs. A \<^verbatim>\<open>number | null\<close> is a \<^typ>\<open>jsnum option\<close>,
  a data URL a string.
\<close>

record FaceLivenessState =
  isMobileHandoff :: bool
  keyFrameImage :: "string option"
  qualityScore :: "jsnum option"
  brightnessScore :: "jsnum option"
  brightnessStatus :: "string option"
  frontalFaceScore :: "jsnum option"
  clarityScore :: "jsnum option"
  uniformLightingScore :: "jsnum option"
  backgroundUniformityScore :: "jsnum option"
  pixelResolutionScore :: "jsnum option"
  keyFrameScore :: jsnum
  keyFrameOriginal :: "string option"
  keyFrameFull :: "string option"

text \<open>
  What the capture and scoring callbacks return for the frame at hand; they read the video
  element and the canvas, which are outside the model.
\<close>

record Captured =
  frame :: "string option"
  uploadFrame :: "string option"
  fullFrame :: "string option"
  brightness :: "(jsnum \<times> string) option"
  clarity :: "jsnum option"
  uniformLighting :: "jsnum option"
  backgroundUniformity :: "jsnum option"
  pixelResolution :: "jsnum option"

text \<open>Truthiness of a \<^verbatim>\<open>string | null\<close>: neither \<^verbatim>\<open>null\<close> nor empty.\<close>

definition truthy :: "string option \<Rightarrow> bool" where
  "truthy s = (case s of None \<Rightarrow> False | Some t \<Rightarrow> t \<noteq> [])"

definition setIfNumber :: "jsnum option \<Rightarrow> jsnum option \<Rightarrow> jsnum option" where
  "setIfNumber new old = (case new of None \<Rightarrow> old | Some v \<Rightarrow> Some v)"

text \<open>The effect that aggregates \<^verbatim>\<open>qualityScore\<close>; it runs whenever one of the six scores it
  lists has changed. Each addition, the division by the number of scores, the
  multiplication by 100 and the final division round their result to binary64.\<close>

definition qualityEffect :: "FaceLivenessState \<Rightarrow> FaceLivenessState" where
  "qualityEffect st =
     (let values = [brightnessScore st, frontalFaceScore st, clarityScore st,
                    uniformLightingScore st, backgroundUniformityScore st,
                    pixelResolutionScore st]
      in if list_ex (\<lambda>v. v = None) values then st
         else (let sum = foldl (\<lambda>acc v. toDouble (js_add acc (orNaN v))) (Fin 0) values;
                   avg = toDouble (js_div sum (Fin (real (length values))))
               in st\<lparr>qualityScore :=
                      Some (toDouble (js_div (js_round (toDouble (js_mul avg (Fin 100))))
                                            (Fin 100)))\<rparr>))"

text \<open>
  The first part of \<^verbatim>\<open>handleLivenessResult\<close>, up to the best-frame update; the rest of the
  callback drives the stage display and the evidence buffers and does not touch the
  fields above.
\<close>

definition handleLivenessResult ::
  "FaceLivenessState \<Rightarrow> ProcessFrameResult \<Rightarrow> Captured \<Rightarrow> FaceLivenessState" where
  "handleLivenessResult st res cap =
     (let frontal = (case metrics res of None \<Rightarrow> None | Some m \<Rightarrow> frontalScore m);
          st1 = (case frontal of None \<Rightarrow> st | Some v \<Rightarrow> st\<lparr>frontalFaceScore := Some v\<rparr>)
      in if \<not> isMobileHandoff st \<and> detection res \<noteq> None \<and> frontal \<noteq> None then
           (let poseScore = orNaN frontal
            in if js_gt poseScore (keyFrameScore st1) then
                 (let st2 = (if truthy (frame cap) \<and> truthy (uploadFrame cap) \<and>
                                truthy (fullFrame cap)
                             then st1\<lparr>keyFrameScore := poseScore,
                                      keyFrameOriginal := uploadFrame cap,
                                      keyFrameFull := fullFrame cap,
                                      keyFrameImage := fullFrame cap\<rparr>
                             else st1);
                      st3 = (case brightness cap of None \<Rightarrow> st2
                             | Some (v, status) \<Rightarrow>
                                 st2\<lparr>brightnessScore := Some v, brightnessStatus := Some status\<rparr>)
                  in st3\<lparr>clarityScore := setIfNumber (clarity cap) (clarityScore st3),
                         uniformLightingScore :=
                           setIfNumber (uniformLighting cap) (uniformLightingScore st3),
                         backgroundUniformityScore :=
                           setIfNumber (backgroundUniformity cap) (backgroundUniformityScore st3),
                         pixelResolutionScore :=
                           setIfNumber (pixelResolution cap) (pixelResolutionScore st3)\<rparr>)
               else st1)
         else st1)"

text \<open>The stored best frame with the scores computed from it.\<close>

definition bestFrame ::
  "FaceLivenessState \<Rightarrow>
   (jsnum \<times> string option \<times> string option \<times> string option) \<times>
   (jsnum option \<times> string option \<times> jsnum option \<times> jsnum option \<times> jsnum option \<times> jsnum option)" where
  "bestFrame st =
     ((keyFrameScore st, keyFrameOriginal st, keyFrameFull st, keyFrameImage st),
      (brightnessScore st, brightnessStatus st, clarityScore st, uniformLightingScore st,
       backgroundUniformityScore st, pixelResolutionScore st))"

text \<open>The candidate's frontal pose score, when the result carries one.\<close>

definition candidateScore :: "ProcessFrameResult \<Rightarrow> jsnum option" where
  "candidateScore res = (case metrics res of None \<Rightarrow> None | Some m \<Rightarrow> frontalScore m)"

text \<open>The aggregate as the specification words it: the arithmetic mean of the five component
  scores.\<close>

definition meanOfFive :: "FaceLivenessState \<Rightarrow> jsnum option" where
  "meanOfFive st =
     (case (brightnessScore st, clarityScore st, uniformLightingScore st,
            backgroundUniformityScore st, pixelResolutionScore st) of
        (Some (Fin b), Some (Fin c), Some (Fin u), Some (Fin g), Some (Fin p)) \<Rightarrow>
           Some (Fin ((b + c + u + g + p) / 5))
      | _ \<Rightarrow> None)"

subsection \<open>Sample states and results\<close>

definition initialView :: FaceLivenessState where
  "initialView =
     \<lparr>isMobileHandoff = False, keyFrameImage = None, qualityScore = None,
      brightnessScore = None, brightnessStatus = None, frontalFaceScore = None,
      clarityScore = None, uniformLightingScore = None, backgroundUniformityScore = None,
      pixelResolutionScore = None, keyFrameScore = NegInfinity, keyFrameOriginal = None,
      keyFrameFull = None\<rparr>"

definition scoredView :: "real \<Rightarrow> FaceLivenessState" where
  "scoredView f =
     initialView\<lparr>brightnessScore := Some (Fin 100), frontalFaceScore := Some (Fin f),
                 clarityScore := Some (Fin 100), uniformLightingScore := Some (Fin 100),
                 backgroundUniformityScore := Some (Fin 100),
                 pixelResolutionScore := Some (Fin 100)\<rparr>"

definition storedView :: FaceLivenessState where
  "storedView = (scoredView 70)\<lparr>keyFrameScore := Fin 70, keyFrameOriginal := Some ''crop-1'',
                                 keyFrameFull := Some ''full-1'', keyFrameImage := Some ''full-1''\<rparr>"

definition sampleCapture :: Captured where
  "sampleCapture =
     \<lparr>frame = Some ''key-2'', uploadFrame = Some ''crop-2'', fullFrame = Some ''full-2'',
      brightness = Some (Fin 80, ''normal''), clarity = Some (Fin 70),
      uniformLighting = Some (Fin 60), backgroundUniformity = Some (Fin 50),
      pixelResolution = Some (Fin 40)\<rparr>"

definition sampleResult :: "real \<Rightarrow> ProcessFrameResult" where
  "sampleResult f =
     \<lparr>detection = Some (asDetection movedLandmarks),
      metrics = Some \<lparr>nodRatio = None, nodSpread = None, shakeRatio = None, shakeSpread = None,
                      m_blink = None, mouthRatio = None, m_pose = None, poseDegrees = None,
                      frontalScore = Some (Fin f)\<rparr>,
      stage = buildStageStatus startSession None, multiFaceDetected = None\<rparr>"

text \<open>The view after the stored best frame at 70 has been followed by a candidate at 40,
  the aggregation effect having run before and after.\<close>

definition loweredView :: FaceLivenessState where
  "loweredView =
     qualityEffect (handleLivenessResult (qualityEffect storedView) (sampleResult 40) sampleCapture)"

text \<open>A view whose six scores are the binary64 numbers nearest to 39.24, 39.9, 10.35,
  63.43, 6.22 and 6.73; their mean times 100 lies just above 2764.5.\<close>

definition nearTieView :: FaceLivenessState where
  "nearTieView =
     initialView\<lparr>brightnessScore := Some (Fin (5522539043063071 / 140737488355328)),
                 frontalFaceScore := Some (Fin (5615425785377587 / 140737488355328)),
                 clarityScore := Some (Fin (5826532017910579 / 562949953421312)),
                 uniformLightingScore := Some (Fin (8926978886378455 / 140737488355328)),
                 backgroundUniformityScore := Some (Fin (7003097420561121 / 1125899906842624)),
                 pixelResolutionScore := Some (Fin (1894326593262715 / 281474976710656))\<rparr>"

section \<open>The face detector (\<^verbatim>\<open>SCRFDDetector\<close> in \<^verbatim>\<open>src/services/livenessEngine.ts\<close>)\<close>

text \<open>
  The inference session is external: of a loaded session the detector reads the input and
  output names and the input dimensions, and a run hands back one tensor per output name.
  The entries of the output tensors are taken to be finite, so a tensor is a list of
  reals; a read past the end of a typed array gives \<^verbatim>\<open>undefined\<close>, which arithmetic turns
  into \<^verbatim>\<open>NaN\<close>. A flat array of boxes is read in rows of four. A store into a
  \<^verbatim>\<open>Float32Array\<close> rounds to binary32. The cache of anchor centres is keyed by height, width
  and stride; the centres are computed afresh here, which is what the cache returns as long
  as the models loaded into one detector agree in their number of anchors per cell. The
  detector keypoints are left out.
\<close>

text \<open>The input metadata of a session: absent, present with a symbolic height or width, or
  present with numeric \<^verbatim>\<open>dimensions[2]\<close> (height) and \<^verbatim>\<open>dimensions[3]\<close> (width).\<close>

datatype InputDims = Missing | Dynamic | Static nat nat

record OrtSession =
  sessionInputNames :: "string list"
  sessionOutputNames :: "string list"
  sessionInputDims :: InputDims

record SCRFDDetector =
  session :: "OrtSession option"
  inputName :: "string option"
  outputNames :: "string list"
  inputSize :: "nat \<times> nat"
  useKps :: bool
  numAnchors :: nat
  featStrideFpn :: "nat list"
  fmc :: nat
  nmsThresh :: real

type_synonym box = "jsnum \<times> jsnum \<times> jsnum \<times> jsnum"

record Decoded =
  dec_scores :: "real list option"
  dec_boxes :: "box list option"

text \<open>What \<^verbatim>\<open>prepareInput\<close> and \<^verbatim>\<open>session.run\<close> give for one frame: the letterbox scale and the
  output tensors in the order of \<^verbatim>\<open>outputNames\<close>, or nothing when the run throws.\<close>

record DetectorRun =
  detScale :: real
  runResult :: "real list list option"

definition newDetector :: SCRFDDetector where
  "newDetector =
     \<lparr>session = None, inputName = None, outputNames = [], inputSize = (640, 640),
      useKps = False, numAnchors = 1, featStrideFpn = [8, 16, 32], fmc = 3, nmsThresh = 0.4\<rparr>"

definition isReady :: "SCRFDDetector \<Rightarrow> bool" where
  "isReady d = (session d \<noteq> None)"

definition initFromOutputs :: "SCRFDDetector \<Rightarrow> SCRFDDetector" where
  "initFromOutputs d =
     (if session d = None then d
      else let outCount = length (outputNames d)
           in if outCount = 6 then d\<lparr>fmc := 3, featStrideFpn := [8, 16, 32], numAnchors := 2\<rparr>
              else if outCount = 9
                then d\<lparr>fmc := 3, featStrideFpn := [8, 16, 32], numAnchors := 2, useKps := True\<rparr>
              else if outCount = 10
                then d\<lparr>fmc := 5, featStrideFpn := [8, 16, 32, 64, 128], numAnchors := 1\<rparr>
              else if outCount = 15
                then d\<lparr>fmc := 5, featStrideFpn := [8, 16, 32, 64, 128], numAnchors := 1,
                       useKps := True\<rparr>
              else d)"

text \<open>\<^verbatim>\<open>loadModel\<close> once the model bytes are fetched and the session is created; when either
  step throws, the detector is left as it was.\<close>

definition loadModel :: "OrtSession \<Rightarrow> SCRFDDetector \<Rightarrow> SCRFDDetector" where
  "loadModel s d =
     (let d1 = d\<lparr>session := Some s,
                 inputName := (case sessionInputNames s of [] \<Rightarrow> None | n # _ \<Rightarrow> Some n),
                 outputNames := sessionOutputNames s\<rparr>;
          d2 = (case sessionInputDims s of
                  Missing \<Rightarrow> d1\<lparr>inputSize := (640, 640)\<rparr>
                | Dynamic \<Rightarrow> d1
                | Static h w \<Rightarrow> d1\<lparr>inputSize := (w, h)\<rparr>)
      in initFromOutputs d2)"

subsection \<open>Decoding\<close>

text \<open>Reading a \<^verbatim>\<open>Float32Array\<close>; past its end the read is \<^verbatim>\<open>undefined\<close>, which arithmetic
  turns into \<^verbatim>\<open>NaN\<close>.\<close>

definition f32 :: "jsnum list \<Rightarrow> nat \<Rightarrow> jsnum" where
  "f32 xs i = (if i < length xs then xs ! i else NaN)"

definition netOut :: "real list list \<Rightarrow> nat \<Rightarrow> real list" where
  "netOut outs i = (if i < length outs then outs ! i else [])"

definition toFloat32 :: "real list \<Rightarrow> nat \<Rightarrow> real list" where
  "toFloat32 xs expectedLength =
     (if expectedLength = 0 then xs
      else if length xs = expectedLength then xs
      else if length xs > expectedLength then take expectedLength xs
      else xs)"

definition extractScores :: "real list \<Rightarrow> nat \<Rightarrow> real list" where
  "extractScores xs K =
     (if length xs = K then xs
      else if length xs = K * 2 then map (\<lambda>i. xs ! (i * 2 + 1)) [0..<K]
      else take K xs)"

text \<open>
  The anchor centres, the scaled distances and the decoded boxes live in
  \<^verbatim>\<open>Float32Array\<close>s: each value is computed in binary64 and rounded to binary32 when it is
  stored.
\<close>

definition getAnchorCenters :: "nat \<Rightarrow> nat \<Rightarrow> nat \<Rightarrow> nat \<Rightarrow> (jsnum \<times> jsnum) list" where
  "getAnchorCenters h w stride anchors =
     concat (map (\<lambda>y. concat (map (\<lambda>x. replicate anchors
                                         (fround (toDouble (js_mul (Fin (real x)) (Fin (real stride)))),
                                          fround (toDouble (js_mul (Fin (real y)) (Fin (real stride))))))
                                  [0..<w]))
                 [0..<h])"

definition distance2bbox :: "(jsnum \<times> jsnum) list \<Rightarrow> jsnum list \<Rightarrow> box list" where
  "distance2bbox points distance =
     map (\<lambda>i. (fround (toDouble (js_sub (fst (points ! i)) (f32 distance (i * 4)))),
               fround (toDouble (js_sub (snd (points ! i)) (f32 distance (i * 4 + 1)))),
               fround (toDouble (js_add (fst (points ! i)) (f32 distance (i * 4 + 2)))),
               fround (toDouble (js_add (snd (points ! i)) (f32 distance (i * 4 + 3))))))
         [0..<length points]"

text \<open>One pass of the loop of \<^verbatim>\<open>postprocess\<close>: the scores and boxes of the anchors of one
  stride whose score reaches the threshold.\<close>

definition decodeStride ::
  "SCRFDDetector \<Rightarrow> real list list \<Rightarrow> real \<Rightarrow> nat \<Rightarrow> real list \<times> box list" where
  "decodeStride d outs threshold idx =
     (let stride = featStrideFpn d ! idx;
          h = snd (inputSize d) div stride;
          w = fst (inputSize d) div stride;
          anchorCenters = getAnchorCenters h w stride (numAnchors d);
          K = h * w * numAnchors d;
          scores = extractScores (toFloat32 (netOut outs idx) 0) K;
          bboxPreds = map (\<lambda>v. fround (toDouble (js_mul (Fin v) (Fin (real stride)))))
                          (toFloat32 (netOut outs (idx + fmc d)) (K * 4));
          decodedBboxes = distance2bbox anchorCenters bboxPreds;
          pos = filter (\<lambda>i. i < length scores \<and> scores ! i \<ge> threshold) [0..<K]
      in (map (\<lambda>i. scores ! i) pos, map (\<lambda>i. decodedBboxes ! i) pos))"

definition concatFloat32 :: "'a list list \<Rightarrow> 'a list option" where
  "concatFloat32 xss = (if xss = [] then None else Some (concat xss))"

definition postprocess :: "SCRFDDetector \<Rightarrow> real list list \<Rightarrow> real \<Rightarrow> Decoded" where
  "postprocess d outs threshold =
     (let kept = filter (\<lambda>sb. fst sb \<noteq> []) (map (decodeStride d outs threshold) [0..<fmc d])
      in \<lparr>dec_scores = concatFloat32 (map fst kept), dec_boxes = concatFloat32 (map snd kept)\<rparr>)"

subsection \<open>Non-maximum suppression\<close>

definition iou :: "box \<Rightarrow> box \<Rightarrow> jsnum" where
  "iou boxA boxB =
     (case (boxA, boxB) of ((a0, a1, a2, a3), (b0, b1, b2, b3)) \<Rightarrow>
        (let x1 = js_max a0 b0; y1 = js_max a1 b1; x2 = js_min a2 b2; y2 = js_min a3 b3;
             w = js_max (Fin 0) (js_add (js_sub x2 x1) (Fin 1));
             h = js_max (Fin 0) (js_add (js_sub y2 y1) (Fin 1));
             inter = js_mul w h;
             areaA = js_mul (js_add (js_sub a2 a0) (Fin 1)) (js_add (js_sub a3 a1) (Fin 1));
             areaB = js_mul (js_add (js_sub b2 b0) (Fin 1)) (js_add (js_sub b3 b1) (Fin 1));
             union = js_sub (js_add areaA areaB) inter
         in if js_le union (Fin 0) then Fin 0 else js_div inter union))"

text \<open>The greedy loop: the head of the sorted list is kept and every remaining box that
  overlaps it by more than the threshold is spliced out.\<close>

fun nms_loop :: "real \<Rightarrow> Detection list \<Rightarrow> Detection list \<Rightarrow> Detection list" where
  "nms_loop thresh [] keep = keep"
| "nms_loop thresh (current # objects) keep =
     nms_loop thresh
       (filter (\<lambda>candidate. \<not> js_gt (iou (bbox current) (bbox candidate)) (Fin thresh)) objects)
       (keep @ [current])"

text \<open>\<^verbatim>\<open>Array.prototype.sort\<close> is stable; with the comparator \<^verbatim>\<open>b.score - a.score\<close> it sorts by
  descending score.\<close>

definition nms :: "real \<Rightarrow> Detection list \<Rightarrow> Detection list" where
  "nms thresh detections =
     (if detections = [] then detections
      else nms_loop thresh (sort_key (\<lambda>det. - score det) detections) [])"

subsection \<open>Detection\<close>

definition boxAt :: "box list \<Rightarrow> nat \<Rightarrow> box" where
  "boxAt boxes i = (if i < length boxes then boxes ! i else (NaN, NaN, NaN, NaN))"

text \<open>The four divisions by \<^verbatim>\<open>detScale\<close>, each rounded to binary64.\<close>

definition scaleBox :: "box \<Rightarrow> real \<Rightarrow> box" where
  "scaleBox b s =
     (case b of (x1, y1, x2, y2) \<Rightarrow>
        (toDouble (js_div x1 (Fin s)), toDouble (js_div y1 (Fin s)),
         toDouble (js_div x2 (Fin s)), toDouble (js_div y2 (Fin s))))"

definition buildDetections :: "SCRFDDetector \<Rightarrow> Decoded \<Rightarrow> real \<Rightarrow> Detection list" where
  "buildDetections d decoded scale =
     (case (dec_scores decoded, dec_boxes decoded) of
        (Some scores, Some boxes) \<Rightarrow>
          if scores = [] then []
          else nms (nmsThresh d)
                 (map (\<lambda>i. \<lparr>bbox = scaleBox (boxAt boxes i) scale, score = scores ! i\<rparr>)
                      [0..<length scores])
      | _ \<Rightarrow> [])"

definition detectFromElement ::
  "SCRFDDetector \<Rightarrow> DetectorRun \<Rightarrow> real \<Rightarrow> error + Detection list" where
  "detectFromElement d fr threshold =
     (if session d = None \<or> \<not> truthy (inputName d) then Inl ModelNotLoaded
      else case runResult fr of
             None \<Rightarrow> Inl InferenceFailure
           | Some outs \<Rightarrow> Inr (buildDetections d (postprocess d outs threshold) (detScale fr)))"

subsection \<open>Notions used in the statements about the detector\<close>

text \<open>The greedy loop without its accumulator.\<close>

fun greedy :: "real \<Rightarrow> Detection list \<Rightarrow> Detection list" where
  "greedy thresh [] = []"
| "greedy thresh (current # objects) =
     current # greedy thresh
       (filter (\<lambda>candidate. \<not> js_gt (iou (bbox current) (bbox candidate)) (Fin thresh)) objects)"

text \<open>No box of the list overlaps a later one by more than the threshold.\<close>

fun separated :: "real \<Rightarrow> Detection list \<Rightarrow> bool" where
  "separated thresh [] = True"
| "separated thresh (x # xs) =
     (list_all (\<lambda>c. \<not> js_gt (iou (bbox x) (bbox c)) (Fin thresh)) xs \<and> separated thresh xs)"

definition sampleBoxes :: "Detection list" where
  "sampleBoxes =
     [\<lparr>bbox = (Fin 0, Fin 0, Fin 9, Fin 9), score = 0.6\<rparr>,
      \<lparr>bbox = (Fin 1, Fin 1, Fin 10, Fin 10), score = 0.9\<rparr>,
      \<lparr>bbox = (Fin 50, Fin 50, Fin 59, Fin 59), score = 0.7\<rparr>]"

text \<open>The detector after successive successful calls of \<^verbatim>\<open>loadModel\<close>, starting from the
  constructor; a session fit for detection names its first input.\<close>

definition loads :: "OrtSession list \<Rightarrow> SCRFDDetector" where
  "loads ss = foldl (\<lambda>d s. loadModel s d) newDetector ss"

definition namedInput :: "OrtSession \<Rightarrow> bool" where
  "namedInput s = (case sessionInputNames s of [] \<Rightarrow> False | n # _ \<Rightarrow> n \<noteq> [])"

text \<open>Per stride: the number of anchors, the scores read from the score tensor, and the
  raw distances read from the box tensor.\<close>

definition strideAnchors :: "SCRFDDetector \<Rightarrow> nat \<Rightarrow> nat" where
  "strideAnchors d idx =
     (snd (inputSize d) div (featStrideFpn d ! idx)) * (fst (inputSize d) div (featStrideFpn d ! idx))
       * numAnchors d"

definition strideScores :: "SCRFDDetector \<Rightarrow> real list list \<Rightarrow> nat \<Rightarrow> real list" where
  "strideScores d outs idx = extractScores (toFloat32 (netOut outs idx) 0) (strideAnchors d idx)"

definition strideDistances :: "SCRFDDetector \<Rightarrow> real list list \<Rightarrow> nat \<Rightarrow> real list" where
  "strideDistances d outs idx = toFloat32 (netOut outs (idx + fmc d)) (strideAnchors d idx * 4)"

definition noScoreReaches :: "SCRFDDetector \<Rightarrow> real list list \<Rightarrow> real \<Rightarrow> bool" where
  "noScoreReaches d outs threshold =
     list_all (\<lambda>idx. list_all (\<lambda>s. s < threshold) (strideScores d outs idx)) [0..<fmc d]"

text \<open>
  Every anchor whose score reaches the threshold has its four distances in the box
  tensor, each of magnitude at most 65536 pixels once multiplied by the stride, with
  left + right and top + bottom at least one pixel once multiplied by the stride.
\<close>

definition ampleExtents :: "SCRFDDetector \<Rightarrow> real list list \<Rightarrow> real \<Rightarrow> bool" where
  "ampleExtents d outs threshold =
     list_all (\<lambda>idx.
        list_all (\<lambda>i.
           (i < length (strideScores d outs idx) \<and> strideScores d outs idx ! i \<ge> threshold) \<longrightarrow>
           (i * 4 + 3 < length (strideDistances d outs idx) \<and>
            list_all (\<lambda>k. \<bar>strideDistances d outs idx ! (i * 4 + k)\<bar> * real (featStrideFpn d ! idx)
                             \<le> 65536) [0..<4] \<and>
            1 \<le> (strideDistances d outs idx ! (i * 4) + strideDistances d outs idx ! (i * 4 + 2))
                   * real (featStrideFpn d ! idx) \<and>
            1 \<le> (strideDistances d outs idx ! (i * 4 + 1) + strideDistances d outs idx ! (i * 4 + 3))
                   * real (featStrideFpn d ! idx)))
          [0..<strideAnchors d idx])
       [0..<fmc d]"

text \<open>The input of the network is at most 65536 pixels a side, and the scale between the
  element and the input lies between 1/1024 and 1024.\<close>

definition moderateSize :: "SCRFDDetector \<Rightarrow> DetectorRun \<Rightarrow> bool" where
  "moderateSize d fr =
     (fst (inputSize d) \<le> 65536 \<and> snd (inputSize d) \<le> 65536 \<and>
      1 / 1024 \<le> detScale fr \<and> detScale fr \<le> 1024)"

definition nondegenerate :: "Detection \<Rightarrow> bool" where
  "nondegenerate det = (case bbox det of (x1, y1, x2, y2) \<Rightarrow> js_lt x1 x2 \<and> js_lt y1 y2)"

subsection \<open>A small detector\<close>

text \<open>A session with six outputs and an 8 by 8 input: one cell of two anchors at stride 8
  and none at strides 16 and 32.\<close>

definition tinySession :: OrtSession where
  "tinySession =
     \<lparr>sessionInputNames = [''input.1''],
      sessionOutputNames = [''score_8'', ''score_16'', ''score_32'', ''bbox_8'', ''bbox_16'', ''bbox_32''],
      sessionInputDims = Static 8 8\<rparr>"

definition tinyDetector :: SCRFDDetector where
  "tinyDetector = loadModel tinySession newDetector"

definition tinyRun :: "real list \<Rightarrow> real list \<Rightarrow> DetectorRun" where
  "tinyRun scores distances =
     \<lparr>detScale = 1, runResult = Some [scores, [], [], distances, [], []]\<rparr>"

text \<open>The same session with an input 16 wide and 8 high: two cells of two anchors at
  stride 8, centred at (0, 0) and (8, 0).\<close>

definition wideSession :: OrtSession where
  "wideSession = tinySession\<lparr>sessionInputDims := Static 8 16\<rparr>"

definition wideDetector :: SCRFDDetector where
  "wideDetector = loadModel wideSession newDetector"

section \<open>Verified properties\<close>

subsection \<open>Rounding\<close>

text \<open>
  Rounding moves a value by at most half a unit in the last place, and leaves a value that
  the format holds unchanged; in particular the integers below \<open>2 ^ 53\<close> (binary64) and
  \<open>2 ^ 24\<close> (binary32).
\<close>

lemma roundHalfEven_near: "\<bar>of_int (roundHalfEven y) - y\<bar> \<le> 1 / 2"
  unfolding roundHalfEven_def Let_def by (auto; linarith)

lemma roundHalfEven_int [simp]: "roundHalfEven (of_int n) = n"
  by (simp add: roundHalfEven_def)

lemma exponentOf_le:
  assumes "0 < x"
  shows "2 powi (exponentOf x) \<le> x"
proof (cases "1 \<le> x")
  case True
  then have pos: "0 < \<lfloor>x\<rfloor>" by linarith
  from bitlen_bounds [OF pos] have "(2::int) ^ nat (bitlen \<lfloor>x\<rfloor> - 1) \<le> \<lfloor>x\<rfloor>" by simp
  then have "(2::real) ^ nat (bitlen \<lfloor>x\<rfloor> - 1) \<le> of_int \<lfloor>x\<rfloor>"
    by (metis of_int_le_iff of_int_numeral of_int_power)
  also have "\<dots> \<le> x" by simp
  finally have "(2::real) ^ nat (bitlen \<lfloor>x\<rfloor> - 1) \<le> x" .
  moreover have "1 \<le> bitlen \<lfloor>x\<rfloor>" using pos by (simp add: bitlen_alt_def)
  ultimately show ?thesis
    using True by (simp add: exponentOf_def power_int_def)
next
  case False
  then have x1: "x < 1" by simp
  define m where "m = \<lceil>1 / x\<rceil> - 1"
  have "1 < 1 / x" using assms x1 by simp
  then have mpos: "0 < m" unfolding m_def by linarith
  have "of_int m < 1 / x" unfolding m_def by linarith
  have "1 / x \<le> of_int m + 1" unfolding m_def by simp
  moreover from bitlen_bounds [OF mpos] have "m < 2 ^ nat (bitlen m)" by simp
  then have "m + 1 \<le> 2 ^ nat (bitlen m)" by simp
  then have "of_int m + 1 \<le> (2::real) ^ nat (bitlen m)"
    by (metis of_int_1 of_int_add of_int_le_iff of_int_numeral of_int_power)
  ultimately have "1 / x \<le> 2 ^ nat (bitlen m)" by linarith
  then have "1 / 2 ^ nat (bitlen m) \<le> x"
    using assms by (simp add: field_simps)
  moreover have "1 \<le> bitlen m" using mpos by (simp add: bitlen_alt_def)
  ultimately show ?thesis
    using False by (simp add: exponentOf_def m_def power_int_def field_simps)
qed

lemma two_powi_le_imp: "(2::real) powi a \<le> 2 powi b \<Longrightarrow> a \<le> b"
  using power_int_strict_increasing [of b a "2::real"] by (cases "a \<le> b") auto

lemma two_powi_less_imp: "(2::real) powi a < 2 powi b \<Longrightarrow> a < b"
  using power_int_increasing [of b a "2::real"] by (cases "a < b") auto

lemma ieeeRound_near:
  assumes "\<bar>x\<bar> \<le> 2 ^ k" and "emin \<le> int k" and "1 \<le> p" and "int k \<le> - emin"
  shows "\<exists>r. ieeeRound p emin x = Fin r \<and> \<bar>r - x\<bar> \<le> 2 ^ k / 2 ^ p"
proof (cases "x = 0")
  case True
  then show ?thesis by (simp add: ieeeRound_def)
next
  case False
  define e where "e = max (exponentOf \<bar>x\<bar>) emin"
  define u :: real where "u = 2 powi (e - int p + 1)"
  define r where "r = of_int (roundHalfEven (x / u)) * u"
  have upos: "0 < u" by (simp add: u_def)
  have "2 powi (exponentOf \<bar>x\<bar>) \<le> \<bar>x\<bar>" using False by (intro exponentOf_le) simp
  also have "\<dots> \<le> 2 powi (int k)" using assms(1) by simp
  finally have "exponentOf \<bar>x\<bar> \<le> int k" by (rule two_powi_le_imp)
  then have ek: "e \<le> int k" using assms(2) by (simp add: e_def)
  have "u \<le> 2 powi (int k - int p + 1)"
    unfolding u_def using ek by (intro power_int_increasing) auto
  also have "\<dots> = 2 ^ k * 2 / 2 ^ p"
    by (simp add: power_int_diff power_int_add)
  finally have ule: "u \<le> 2 ^ k * 2 / 2 ^ p" .
  have "r - x = (of_int (roundHalfEven (x / u)) - x / u) * u"
    using upos by (simp add: r_def field_simps)
  then have "\<bar>r - x\<bar> = \<bar>of_int (roundHalfEven (x / u)) - x / u\<bar> * u"
    using upos by (simp add: abs_mult)
  also have "\<dots> \<le> 1 / 2 * u"
    using roundHalfEven_near [of "x / u"] upos by (intro mult_right_mono) auto
  also have "\<dots> \<le> 2 ^ k / 2 ^ p" using ule by simp
  finally have near: "\<bar>r - x\<bar> \<le> 2 ^ k / 2 ^ p" .
  have "(2::real) ^ k / 2 ^ p \<le> 2 ^ k / 2"
    using assms(3) by (intro divide_left_mono) (auto simp: self_le_power)
  then have "\<bar>r\<bar> \<le> 2 ^ k + 2 ^ k / 2" using near assms(1) by linarith
  also have "\<dots> < 2 ^ (k + 1)" by simp
  also have "\<dots> = 2 powi (int k + 1)" by (simp add: power_int_add)
  also have "\<dots> \<le> 2 powi (2 - emin)"
    using assms(4) by (intro power_int_increasing) auto
  finally have "\<not> 2 powi (2 - emin) \<le> \<bar>r\<bar>" by simp
  then have "ieeeRound p emin x = Fin r"
    using False by (simp add: ieeeRound_def Let_def e_def u_def r_def)
  with near show ?thesis by blast
qed

lemma ieeeRound_exact:
  assumes "x = of_int m * 2 powi j" and "\<bar>m\<bar> < 2 ^ p" and "emin - int p + 1 \<le> j"
    and "\<bar>x\<bar> < 2 powi (2 - emin)"
  shows "ieeeRound p emin x = Fin x"
proof (cases "x = 0")
  case True
  then show ?thesis by (simp add: ieeeRound_def)
next
  case False
  define e where "e = max (exponentOf \<bar>x\<bar>) emin"
  define u :: real where "u = 2 powi (e - int p + 1)"
  have "2 powi (exponentOf \<bar>x\<bar>) \<le> \<bar>x\<bar>" using False by (intro exponentOf_le) simp
  also have "\<bar>x\<bar> = of_int \<bar>m\<bar> * 2 powi j" by (simp add: assms(1) abs_mult)
  also have "\<dots> < 2 ^ p * 2 powi j"
  proof (intro mult_strict_right_mono)
    have "of_int \<bar>m\<bar> < (of_int (2 ^ p) :: real)" using assms(2) by (simp only: of_int_less_iff)
    then show "of_int \<bar>m\<bar> < (2::real) ^ p" by simp
  qed simp
  also have "\<dots> = 2 powi (int p + j)" by (simp add: power_int_add)
  finally have "exponentOf \<bar>x\<bar> < int p + j" by (rule two_powi_less_imp)
  then have ej: "e - int p + 1 \<le> j" using assms(3) by (simp add: e_def)
  define t where "t = nat (j - (e - int p + 1))"
  have "(2::real) ^ t = 2 powi (int t)" by simp
  also have "int t = j - (e - int p + 1)" using ej by (simp add: t_def)
  finally have "(2::real) powi (e - int p + 1) * 2 ^ t = 2 powi j"
    by (simp add: power_int_add [symmetric])
  then have "2 powi j = (2::real) powi (e - int p + 1) * 2 ^ t" by simp
  then have xu: "x / u = of_int (m * 2 ^ t)"
    by (simp add: assms(1) u_def)
  have "0 < u" by (simp add: u_def)
  then have "x / u * u = x" by simp
  then have "of_int (roundHalfEven (x / u)) * u = x"
    unfolding xu roundHalfEven_int .
  then show ?thesis
    using False assms(4) by (simp add: ieeeRound_def Let_def e_def u_def)
qed

lemma binary64_near:
  "\<bar>x\<bar> \<le> 2 ^ k \<Longrightarrow> k \<le> 1022 \<Longrightarrow> \<exists>r. binary64 x = Fin r \<and> \<bar>r - x\<bar> \<le> 2 ^ k / 2 ^ 53"
  unfolding binary64_def by (rule ieeeRound_near) simp_all

lemma binary32_near:
  "\<bar>x\<bar> \<le> 2 ^ k \<Longrightarrow> k \<le> 126 \<Longrightarrow> \<exists>r. binary32 x = Fin r \<and> \<bar>r - x\<bar> \<le> 2 ^ k / 2 ^ 24"
  unfolding binary32_def by (rule ieeeRound_near) simp_all

lemma binary64_int: "\<bar>n\<bar> < 2 ^ 53 \<Longrightarrow> binary64 (of_int n) = Fin (of_int n)"
  unfolding binary64_def
proof (rule ieeeRound_exact [where m = n and j = 0])
  assume a: "\<bar>n\<bar> < 2 ^ 53"
  show "\<bar>n\<bar> < 2 ^ 53" by (rule a)
  have "\<bar>of_int n :: real\<bar> = of_int \<bar>n\<bar>" by simp
  also have "\<dots> < of_int (2 ^ 53)" using a by (simp only: of_int_less_iff)
  also have "\<dots> \<le> 2 powi (2 - (- 1022))" by simp
  finally show "\<bar>of_int n :: real\<bar> < 2 powi (2 - (- 1022))" .
qed simp_all

lemma binary32_int: "\<bar>n\<bar> < 2 ^ 24 \<Longrightarrow> binary32 (of_int n) = Fin (of_int n)"
  unfolding binary32_def
proof (rule ieeeRound_exact [where m = n and j = 0])
  assume a: "\<bar>n\<bar> < 2 ^ 24"
  show "\<bar>n\<bar> < 2 ^ 24" by (rule a)
  have "\<bar>of_int n :: real\<bar> = of_int \<bar>n\<bar>" by simp
  also have "\<dots> < of_int (2 ^ 24)" using a by (simp only: of_int_less_iff)
  also have "\<dots> \<le> 2 powi (2 - (- 126))" by simp
  finally show "\<bar>of_int n :: real\<bar> < 2 powi (2 - (- 126))" .
qed simp_all

lemma binary64_numeral [simp]:
  "(numeral w :: int) < 2 ^ 53 \<Longrightarrow> binary64 (numeral w) = Fin (numeral w)"
  "(numeral w :: int) < 2 ^ 53 \<Longrightarrow> binary64 (- numeral w) = Fin (- numeral w)"
  "binary64 0 = Fin 0" "binary64 1 = Fin 1"
  using binary64_int [of "numeral w"] binary64_int [of "- numeral w"] binary64_int [of 0]
    binary64_int [of 1]
  by simp_all

lemma binary32_numeral [simp]:
  "(numeral w :: int) < 2 ^ 24 \<Longrightarrow> binary32 (numeral w) = Fin (numeral w)"
  "(numeral w :: int) < 2 ^ 24 \<Longrightarrow> binary32 (- numeral w) = Fin (- numeral w)"
  "binary32 0 = Fin 0" "binary32 1 = Fin 1"
  using binary32_int [of "numeral w"] binary32_int [of "- numeral w"] binary32_int [of 0]
    binary32_int [of 1]
  by simp_all

lemma toDouble_near:
  assumes "\<bar>x\<bar> \<le> 2 ^ k" and "k \<le> 1022"
  shows "\<exists>r. toDouble (Fin x) = Fin r \<and> \<bar>r - x\<bar> \<le> 2 ^ k / 2 ^ 53"
  using binary64_near [OF assms] by simp

lemma stored_near:
  assumes "\<bar>x\<bar> \<le> 2 ^ k" and "k \<le> 125"
  shows "\<exists>r. fround (toDouble (Fin x)) = Fin r \<and> \<bar>r - x\<bar> \<le> 2 ^ k / 2 ^ 22"
proof -
  from assms obtain a where a: "toDouble (Fin x) = Fin a" "\<bar>a - x\<bar> \<le> 2 ^ k / 2 ^ 53"
    using toDouble_near [of x k] by auto
  have "(2::real) ^ k / 2 ^ 53 \<le> 2 ^ k / 1"
    by (intro divide_left_mono) auto
  then have "\<bar>a\<bar> \<le> 2 ^ k + 2 ^ k" using a(2) assms(1) by linarith
  then have "\<bar>a\<bar> \<le> 2 ^ (k + 1)" by simp
  moreover have "k + 1 \<le> 126" using assms(2) by simp
  ultimately obtain r where r: "binary32 a = Fin r" "\<bar>r - a\<bar> \<le> 2 ^ (k + 1) / 2 ^ 24"
    using binary32_near [of a "k + 1"] by auto
  have "\<bar>r - x\<bar> \<le> 2 ^ (k + 1) / 2 ^ 24 + 2 ^ k / 2 ^ 53" using a(2) r(2) by linarith
  also have "\<dots> = 2 ^ k * (2 / 2 ^ 24 + 1 / 2 ^ 53)" by (simp add: algebra_simps)
  also have "\<dots> \<le> 2 ^ k * (1 / 2 ^ 22)" by (intro mult_left_mono) auto
  finally show ?thesis using a(1) r(1) by simp
qed

text \<open>The exponent is determined by the binade, so the rounding of a given number can be
  computed once its binade and the nearest multiple of the unit are given.\<close>

lemma exponentOf_gt:
  assumes "0 < x"
  shows "x < 2 powi (exponentOf x + 1)"
proof (cases "1 \<le> x")
  case True
  then have pos: "0 < \<lfloor>x\<rfloor>" by linarith
  from bitlen_bounds [OF pos] have "\<lfloor>x\<rfloor> + 1 \<le> 2 ^ nat (bitlen \<lfloor>x\<rfloor>)" by simp
  then have "of_int \<lfloor>x\<rfloor> + 1 \<le> (2::real) ^ nat (bitlen \<lfloor>x\<rfloor>)"
    by (metis of_int_1 of_int_add of_int_le_iff of_int_numeral of_int_power)
  moreover have "x < of_int \<lfloor>x\<rfloor> + 1" by linarith
  ultimately have "x < 2 ^ nat (bitlen \<lfloor>x\<rfloor>)" by linarith
  moreover have "0 \<le> bitlen \<lfloor>x\<rfloor>" by (simp add: bitlen_nonneg)
  ultimately show ?thesis using True by (simp add: exponentOf_def power_int_def)
next
  case False
  then have x1: "x < 1" by simp
  define m where "m = \<lceil>1 / x\<rceil> - 1"
  have "1 < 1 / x" using assms x1 by simp
  then have mpos: "0 < m" unfolding m_def by linarith
  have lt: "of_int m < 1 / x" unfolding m_def by linarith
  from bitlen_bounds [OF mpos] have "2 ^ nat (bitlen m - 1) \<le> m" by simp
  then have "(2::real) ^ nat (bitlen m - 1) \<le> of_int m"
    by (metis of_int_le_iff of_int_numeral of_int_power)
  then have "(2::real) ^ nat (bitlen m - 1) < 1 / x" using lt by linarith
  then have "x < 1 / 2 ^ nat (bitlen m - 1)" using assms by (simp add: field_simps)
  moreover have b1: "1 \<le> bitlen m" using mpos by (simp add: bitlen_alt_def)
  have "(2::real) powi (- bitlen m + 1) = 1 / 2 ^ nat (bitlen m - 1)"
  proof -
    have "- bitlen m + 1 = - int (nat (bitlen m - 1))" using b1 by simp
    then show ?thesis by (simp only: power_int_minus power_int_of_nat) (simp add: field_simps)
  qed
  ultimately show ?thesis using False by (simp add: exponentOf_def m_def)
qed

lemma exponentOf_eq:
  assumes "2 powi e \<le> x" and "x < 2 powi (e + 1)"
  shows "exponentOf x = e"
proof -
  have "0 < (2::real) powi e" by simp
  then have pos: "0 < x" using assms(1) by linarith
  have "2 powi (exponentOf x) < (2::real) powi (e + 1)"
    using exponentOf_le [OF pos] assms(2) by simp
  then have "exponentOf x < e + 1" by (rule two_powi_less_imp)
  moreover have "(2::real) powi e < 2 powi (exponentOf x + 1)"
    using exponentOf_gt [OF pos] assms(1) by simp
  then have "e < exponentOf x + 1" by (rule two_powi_less_imp)
  ultimately show ?thesis by simp
qed

lemma ieeeRound_normal:
  assumes "2 powi e \<le> \<bar>x\<bar>" and "\<bar>x\<bar> < 2 powi (e + 1)" and "emin \<le> e" and "e \<le> - emin"
    and "1 \<le> p"
  shows "ieeeRound p emin x =
           Fin (of_int (roundHalfEven (x / 2 powi (e - int p + 1))) * 2 powi (e - int p + 1))"
proof -
  define u :: real where "u = 2 powi (e - int p + 1)"
  define r where "r = of_int (roundHalfEven (x / u)) * u"
  have upos: "0 < u" by (simp add: u_def)
  have "0 < (2::real) powi e" by simp
  then have "0 < \<bar>x\<bar>" using assms(1) by linarith
  then have x0: "x \<noteq> 0" by simp
  have ex: "exponentOf \<bar>x\<bar> = e" using assms(1,2) by (rule exponentOf_eq)
  have "u \<le> 2 powi e" unfolding u_def using assms(5) by (intro power_int_increasing) auto
  have "r - x = (of_int (roundHalfEven (x / u)) - x / u) * u"
    using upos by (simp add: r_def field_simps)
  then have "\<bar>r - x\<bar> = \<bar>of_int (roundHalfEven (x / u)) - x / u\<bar> * u"
    using upos by (simp add: abs_mult)
  also have "\<dots> \<le> 1 / 2 * u"
    using roundHalfEven_near [of "x / u"] upos by (intro mult_right_mono) auto
  finally have "\<bar>r\<bar> \<le> \<bar>x\<bar> + u" using upos by linarith
  also have "\<dots> < 2 powi (e + 1) + 2 powi e" using assms(2) \<open>u \<le> 2 powi e\<close> by linarith
  also have "\<dots> \<le> 2 powi (e + 1) + 2 powi (e + 1)"
    by (simp add: power_int_increasing)
  also have "\<dots> = 2 powi (e + 2)" by (simp add: power_int_add)
  also have "\<dots> \<le> 2 powi (2 - emin)" using assms(4) by (intro power_int_increasing) auto
  finally have "\<not> 2 powi (2 - emin) \<le> \<bar>r\<bar>" by simp
  then show ?thesis
    using x0 assms(3) by (simp add: ieeeRound_def Let_def ex r_def u_def max_def)
qed

lemma roundHalfEven_unique:
  assumes "of_int n - 1 / 2 < y" and "y < of_int n + 1 / 2"
  shows "roundHalfEven y = n"
proof -
  have "\<lfloor>y\<rfloor> = n \<or> \<lfloor>y\<rfloor> = n - 1" using assms by linarith
  then show ?thesis
  proof
    assume f: "\<lfloor>y\<rfloor> = n"
    then have "y - of_int \<lfloor>y\<rfloor> < 1 / 2" using assms by simp
    then show ?thesis by (simp add: roundHalfEven_def Let_def f)
  next
    assume f: "\<lfloor>y\<rfloor> = n - 1"
    then have "1 / 2 < y - of_int \<lfloor>y\<rfloor>" using assms by simp
    then show ?thesis by (simp add: roundHalfEven_def Let_def f)
  qed
qed

lemma ieeeRound_value:
  assumes "2 powi e \<le> \<bar>x\<bar>" and "\<bar>x\<bar> < 2 powi (e + 1)" and "emin \<le> e" and "e \<le> - emin"
    and "1 \<le> p" and "u = 2 powi (e - int p + 1)"
    and "of_int n - 1 / 2 < x / u" and "x / u < of_int n + 1 / 2"
  shows "ieeeRound p emin x = Fin (of_int n * u)"
  using ieeeRound_normal [OF assms(1-5)] roundHalfEven_unique [OF assms(7,8)]
  by (simp add: assms(6))

subsection \<open>What each step leaves untouched\<close>

lemma processFrame_cases:
  "snd (processFrame st fr) = st \<or> snd (processFrame st fr) = st\<lparr>lastMetrics := None\<rparr> \<or>
   (active st \<and> (\<exists>p e. detectResult fr = Inr [p] \<and> estimateResult fr = Inr (Some e) \<and>
       snd (processFrame st fr) = snd (acceptFrame st p e)))"
  apply (simp add: processFrame_def Let_def split: sum.splits option.splits prod.splits)
  apply (auto simp: neq_Nil_conv)
  done


lemma updateBlinkAverage_fields [simp]:
  "stageIndex (updateBlinkAverage r st) = stageIndex st"
  "active (updateBlinkAverage r st) = active st"
  "completed (updateBlinkAverage r st) = completed st"
  "mouth (updateBlinkAverage r st) = mouth st"
  "nodRange (updateBlinkAverage r st) = nodRange st"
  "shakeRange (updateBlinkAverage r st) = shakeRange st"
  "closedDetected (blink (updateBlinkAverage r st)) = closedDetected (blink st)"
  "openDetected (blink (updateBlinkAverage r st)) = openDetected (blink st)"
  by (simp_all add: updateBlinkAverage_def split: option.splits)

lemma updateBlinkState_fields [simp]:
  "stageIndex (updateBlinkState bm st) = stageIndex st"
  "active (updateBlinkState bm st) = active st"
  "completed (updateBlinkState bm st) = completed st"
  "mouth (updateBlinkState bm st) = mouth st"
  "nodRange (updateBlinkState bm st) = nodRange st"
  "shakeRange (updateBlinkState bm st) = shakeRange st"
  by (simp_all add: updateBlinkState_def Let_def split: option.splits)

lemma updateMouthState_fields [simp]:
  "stageIndex (updateMouthState r st) = stageIndex st"
  "active (updateMouthState r st) = active st"
  "completed (updateMouthState r st) = completed st"
  "blink (updateMouthState r st) = blink st"
  "nodRange (updateMouthState r st) = nodRange st"
  "shakeRange (updateMouthState r st) = shakeRange st"
  by (simp_all add: updateMouthState_def split: option.splits)

lemma resetCompleted_fields [simp]:
  "stageIndex (resetCompleted k st) = stageIndex st"
  "active (resetCompleted k st) = active st"
  "completed (resetCompleted k st) = completed st"
  "eyeAvg (blink (resetCompleted k st)) = eyeAvg (blink st)"
  by (simp_all add: resetCompleted_def resetBlinkDetections_def resetMouthState_def)

lemma length_LIVENESS_STAGES [simp]: "length LIVENESS_STAGES = 4"
  by (simp add: LIVENESS_STAGES_def)

lemma evaluateStage_done:
  "4 \<le> stageIndex st \<Longrightarrow>
   evaluateStage m st = (buildStageStatus (st\<lparr>completed := True, active := False\<rparr>) None,
                         st\<lparr>completed := True, active := False\<rparr>)"
  by (simp add: evaluateStage_def getCurrentStage_def Let_def)

lemma evaluateStage_pending:
  "stageIndex st < 4 \<Longrightarrow> \<not> check (LIVENESS_STAGES ! stageIndex st) m st \<Longrightarrow>
   evaluateStage m st = (buildStageStatus st None, st)"
  by (simp add: evaluateStage_def getCurrentStage_def)

lemma evaluateStage_advance:
  "stageIndex st < 4 \<Longrightarrow> check (LIVENESS_STAGES ! stageIndex st) m st \<Longrightarrow>
   evaluateStage m st =
     (buildStageStatus (advance st) (Some (LIVENESS_STAGES ! stageIndex st, stageIndex st)),
      advance st)"
  by (simp add: evaluateStage_def getCurrentStage_def Let_def advance_def)

lemma stageIndex_advance [simp]: "stageIndex (advance st) = stageIndex st + 1"
  by (simp add: advance_def Let_def)

lemma evaluateStage_stageIndex:
  "stageIndex (snd (evaluateStage m st)) =
     (if stageIndex st < 4 \<and> check (LIVENESS_STAGES ! stageIndex st) m st
      then stageIndex st + 1 else stageIndex st)"
  using evaluateStage_done[of st m] evaluateStage_pending[of st m] evaluateStage_advance[of st m]
  by (cases "stageIndex st < 4") auto

lemma evaluateStage_justCompleted:
  "justCompletedIndex (fst (evaluateStage m st)) =
     (if stageIndex st < 4 \<and> check (LIVENESS_STAGES ! stageIndex st) m st
      then Some (stageIndex st) else None)"
  "justCompletedStage (fst (evaluateStage m st)) =
     (if stageIndex st < 4 \<and> check (LIVENESS_STAGES ! stageIndex st) m st
      then Some (LIVENESS_STAGES ! stageIndex st) else None)"
  using evaluateStage_done[of st m] evaluateStage_pending[of st m] evaluateStage_advance[of st m]
  by (cases "stageIndex st < 4"; auto simp: buildStageStatus_def)+

lemma acceptFrame_stageIndex:
  "stageIndex (snd (acceptFrame st p e)) = stageIndex st \<or>
   stageIndex (snd (acceptFrame st p e)) = stageIndex st + 1"
  by (simp add: acceptFrame_def Let_def split_beta evaluateStage_stageIndex)

lemma processFrame_stageIndex:
  "stageIndex (snd (processFrame st fr)) = stageIndex st \<or>
   stageIndex (snd (processFrame st fr)) = stageIndex st + 1"
  using processFrame_cases[of st fr] acceptFrame_stageIndex[of st] by fastforce

lemma processFrames_stageIndex_mono:
  "stageIndex st \<le> stageIndex (processFrames st frs)"
proof (induction frs arbitrary: st)
  case Nil
  show ?case by simp
next
  case (Cons fr frs)
  have "stageIndex st \<le> stageIndex (snd (processFrame st fr))"
    using processFrame_stageIndex[of st fr] by auto
  also have "\<dots> \<le> stageIndex (processFrames (snd (processFrame st fr)) frs)"
    by (rule Cons.IH)
  finally show ?case by simp
qed


text \<open>An accepted frame is judged by \<^verbatim>\<open>evaluateStage\<close> on the metrics and the state that
  \<open>frameMetrics\<close> and \<open>frameState\<close> describe; any other frame leaves the stage pointer
  alone and reports no completion.\<close>

lemma acceptFrame_eq:
  "acceptFrame st p e =
     (let det = \<lparr>bbox = bbox p, score = score p, landmarks = est_landmarks e, pose = est_pose e\<rparr>;
          m = frameMetrics st det;
          r = evaluateStage m (frameState st det)
      in (\<lparr>detection = Some det, metrics = Some m, stage = fst r, multiFaceDetected = None\<rparr>, snd r))"
  by (simp add: acceptFrame_def Let_def split_beta frameMetrics_def frameState_def gatherEvidence_def)

lemma processFrame_accepted:
  assumes "active st" and "frameDetection fr = Some det"
  shows "processFrame st fr =
           (Inr \<lparr>detection = Some det, metrics = Some (frameMetrics st det),
                 stage = fst (evaluateStage (frameMetrics st det) (frameState st det)),
                 multiFaceDetected = None\<rparr>,
            snd (evaluateStage (frameMetrics st det) (frameState st det)))"
proof -
  obtain p e where fr: "detectResult fr = Inr [p]" "estimateResult fr = Inr (Some e)"
    and det: "det = \<lparr>bbox = bbox p, score = score p, landmarks = est_landmarks e, pose = est_pose e\<rparr>"
    using assms(2)
    by (auto simp: frameDetection_def split: sum.splits list.splits option.splits)
  show ?thesis
    using assms(1) fr by (simp add: processFrame_def acceptFrame_eq det Let_def)
qed

lemma processFrame_not_accepted:
  assumes "\<not> active st \<or> frameDetection fr = None"
  shows "stageIndex (snd (processFrame st fr)) = stageIndex st"
    and "case fst (processFrame st fr) of Inl err \<Rightarrow> True
         | Inr res \<Rightarrow> justCompletedIndex (stage res) = None \<and> justCompletedStage (stage res) = None"
  using assms
  by (auto simp: processFrame_def frameDetection_def noFace_def buildStageStatus_def Let_def
      split: sum.splits option.splits list.splits)

lemma stageIndex_frameState [simp]: "stageIndex (frameState st det) = stageIndex st"
  by (simp add: frameState_def gatherEvidence_def)

lemma processFrame_step:
  "stageIndex (snd (processFrame st fr)) =
     (if stagePredicate st fr then stageIndex st + 1 else stageIndex st)"
  "(case fst (processFrame st fr) of Inl err \<Rightarrow> True
    | Inr res \<Rightarrow>
        justCompletedIndex (stage res) = (if stagePredicate st fr then Some (stageIndex st) else None) \<and>
        justCompletedStage (stage res) =
          (if stagePredicate st fr then Some (LIVENESS_STAGES ! stageIndex st) else None))"
proof -
  show "stageIndex (snd (processFrame st fr)) =
     (if stagePredicate st fr then stageIndex st + 1 else stageIndex st)"
  proof (cases "active st \<and> frameDetection fr \<noteq> None")
    case True
    then obtain det where d: "frameDetection fr = Some det" by auto
    show ?thesis
      using True d processFrame_accepted [of st fr det]
      by (simp add: stagePredicate_def evaluateStage_stageIndex)
  next
    case False
    then show ?thesis
      using processFrame_not_accepted(1) [of st fr]
      by (auto simp: stagePredicate_def split: option.splits)
  qed
  show "(case fst (processFrame st fr) of Inl err \<Rightarrow> True
    | Inr res \<Rightarrow>
        justCompletedIndex (stage res) = (if stagePredicate st fr then Some (stageIndex st) else None) \<and>
        justCompletedStage (stage res) =
          (if stagePredicate st fr then Some (LIVENESS_STAGES ! stageIndex st) else None))"
  proof (cases "active st \<and> frameDetection fr \<noteq> None")
    case True
    then obtain det where d: "frameDetection fr = Some det" by auto
    show ?thesis
      using True d processFrame_accepted [of st fr det]
      by (simp add: stagePredicate_def evaluateStage_justCompleted)
  next
    case False
    then have "\<not> stagePredicate st fr"
      by (auto simp: stagePredicate_def split: option.splits)
    then show ?thesis
      using processFrame_not_accepted(2) [of st fr] False
      by (auto split: sum.splits)
  qed
qed

subsection \<open>The blink threshold\<close>

lemmas blink_consts = INITIAL_BLINK_AVG_def BLINK_THRESHOLD_low_def BLINK_THRESHOLD_high_def
  BLINK_AVG_current_def BLINK_AVG_previous_def

lemma band_updateBlinkAverage:
  "eyeAvg_in_band st \<Longrightarrow> eyeAvg_in_band (updateBlinkAverage r st)"
  by (auto simp: eyeAvg_in_band_def updateBlinkAverage_def js_gt_def blink_consts
      split: option.splits jsnum.splits)

lemma band_updateBlinkState:
  assumes b: "eyeAvg_in_band st"
  shows "eyeAvg_in_band (updateBlinkState bm st)"
proof (cases bm)
  case None
  then show ?thesis using b by (simp add: updateBlinkState_def)
next
  case (Some m)
  have fin: "isFinite (orNaN (eyeAvg (blink st)))"
    using b by (auto simp: eyeAvg_in_band_def split: option.splits jsnum.splits)
  have flags: "eyeAvg_in_band (s\<lparr>blink := (blink s)\<lparr>closedDetected := c\<rparr>\<rparr>) = eyeAvg_in_band s"
    "eyeAvg_in_band (s\<lparr>blink := (blink s)\<lparr>openDetected := c\<rparr>\<rparr>) = eyeAvg_in_band s" for s c
    by (simp_all add: eyeAvg_in_band_def)
  show ?thesis unfolding updateBlinkState_def Some
    using b fin by (simp add: Let_def flags band_updateBlinkAverage)
qed

lemma eyeAvg_evaluateStage [simp]:
  "eyeAvg (blink (snd (evaluateStage m st))) = eyeAvg (blink st)"
  by (simp add: evaluateStage_def Let_def split: option.splits)

lemma band_acceptFrame:
  "eyeAvg_in_band st \<Longrightarrow> eyeAvg_in_band (snd (acceptFrame st p e))"
proof -
  assume b: "eyeAvg_in_band st"
  have 1: "eyeAvg_in_band (st\<lparr>nodRange := a, shakeRange := c\<rparr>)" for a c
    using b by (simp add: eyeAvg_in_band_def)
  have 2: "eyeAvg_in_band (snd (evaluateStage m (s\<lparr>lastMetrics := l\<rparr>))) = eyeAvg_in_band s" for m s l
    by (simp add: eyeAvg_in_band_def)
  have 3: "eyeAvg_in_band (updateMouthState r s) = eyeAvg_in_band s" for r s
    by (simp add: eyeAvg_in_band_def)
  show ?thesis
    unfolding acceptFrame_def Let_def
    by (simp add: split_beta 2 3 band_updateBlinkState 1)
qed

lemma band_processFrame:
  "eyeAvg_in_band st \<Longrightarrow> eyeAvg_in_band (snd (processFrame st fr))"
proof -
  assume b: "eyeAvg_in_band st"
  have 1: "eyeAvg_in_band (st\<lparr>lastMetrics := l\<rparr>)" for l
    using b by (simp add: eyeAvg_in_band_def)
  show ?thesis
    using b 1 band_acceptFrame[OF b]
    by (simp add: processFrame_def Let_def split_beta split: sum.splits option.splits)
qed

lemma band_processFrames:
  "eyeAvg_in_band st \<Longrightarrow> eyeAvg_in_band (processFrames st frs)"
  by (induction frs arbitrary: st) (simp_all add: band_processFrame)

lemma band_startSession: "eyeAvg_in_band startSession"
  by (simp add: eyeAvg_in_band_def startSession_def createLivenessComputationState_def
      resetBlinkDetections_def resetMouthState_def Let_def blink_consts)


text \<open>
  The moving average itself: with a finite threshold in place, a finite ratio changes it
  only when the ratio lies in the band, and then to the weighted mean.
\<close>

lemma updateBlinkAverage_finite:
  "eyeAvg (blink st) = Some (Fin a) \<Longrightarrow>
   eyeAvg (blink (updateBlinkAverage (Some (Fin v)) st)) =
     Some (Fin (if 5 \<le> v \<and> v \<le> 20 then v * 0.1 + a * 0.9 else a))"
  by (auto simp: updateBlinkAverage_def js_gt_def blink_consts)

text \<open>
  C10. Throughout every session the adaptive blink threshold \<^verbatim>\<open>eyeAvg\<close> is a finite number
  in the interval [5, 20]: \<^verbatim>\<open>startSession\<close> seeds it to 10, and whatever frames are then
  processed, it stays in the band. The moving average moves a finite threshold \<open>a\<close> only for
  a ratio \<open>v\<close> in the band, and then to \<open>0.1 v + 0.9 a\<close>.
\<close>

theorem C10_eyeAvg_within_band:
  "eyeAvg (blink startSession) = Some (Fin 10) \<and>
   (\<exists>a. eyeAvg (blink (processFrames startSession frs)) = Some (Fin a) \<and> 5 \<le> a \<and> a \<le> 20) \<and>
   eyeAvg (blink (updateBlinkAverage (Some (Fin v))
                    (st\<lparr>blink := (blink st)\<lparr>eyeAvg := Some (Fin a)\<rparr>\<rparr>))) =
     Some (Fin (if 5 \<le> v \<and> v \<le> 20 then v * 0.1 + a * 0.9 else a))"
proof -
  have "eyeAvg_in_band (processFrames startSession frs)"
    by (rule band_processFrames [OF band_startSession])
  moreover have "eyeAvg (blink startSession) = Some (Fin 10)"
    by (simp add: startSession_def createLivenessComputationState_def
        resetBlinkDetections_def resetMouthState_def Let_def blink_consts)
  moreover have "eyeAvg (blink (updateBlinkAverage (Some (Fin v))
                    (st\<lparr>blink := (blink st)\<lparr>eyeAvg := Some (Fin a)\<rparr>\<rparr>))) =
     Some (Fin (if 5 \<le> v \<and> v \<le> 20 then v * 0.1 + a * 0.9 else a))"
    by (rule updateBlinkAverage_finite) simp
  ultimately show ?thesis
    by (auto simp: eyeAvg_in_band_def blink_consts split: option.splits jsnum.splits)
qed

subsection \<open>Evaluating the sample frames\<close>

lemmas js_defs = js_sub_def js_gt_def js_ge_def js_le_def signed_inf_def js_sq_def
lemmas cfg_defs = nodPitch_def shakeYaw_def mouthThreshold_def INITIAL_BLINK_AVG_def
  BLINK_THRESHOLD_low_def BLINK_THRESHOLD_high_def BLINK_AVG_current_def BLINK_AVG_previous_def
lemmas geometry_defs = computeNodRatio_def computeShakeRatio_def computeBlinkRatios_def
  computeMouthRatio_def getFaceCenterAndNose_def toCanvasPoint_def landmark_def
  toPoseDegrees_def computePoseScore_def
lemmas machine_defs = processFrame_def acceptFrame_def evaluateStage_def getCurrentStage_def
  buildStageStatus_def resetCompleted_def resetBlinkDetections_def resetMouthState_def
  resetRange_def updateRangeState_def getSpread_def updateBlinkState_def updateBlinkAverage_def
  updateMouthState_def noFace_def LIVENESS_STAGES_def emptyRange_def
  startSession_def createLivenessComputationState_def

lemma resting_obs:
  "computeNodRatio (asDetection restingLandmarks) = Some (Fin 0)"
  "computeShakeRatio (asDetection restingLandmarks) = Some (Fin 0)"
  "computeBlinkRatios (asDetection restingLandmarks) =
     Some \<lparr>leftHeight = Fin 0, rightHeight = Fin 0, leftRatio = Infinity, rightRatio = Infinity, ratio = Infinity\<rparr>"
  "computeMouthRatio (asDetection restingLandmarks) = Some (Fin 0)"
  by (simp_all add: asDetection_def geometry_defs js_defs restingLandmarks_def faceBox_def Let_def)

lemma moved_obs:
  "computeNodRatio (asDetection movedLandmarks) = Some (Fin (1/10))"
  "computeShakeRatio (asDetection movedLandmarks) = Some (Fin (1/10))"
  "computeBlinkRatios (asDetection movedLandmarks) =
     Some \<lparr>leftHeight = Fin 5, rightHeight = Fin 5, leftRatio = Fin 2, rightRatio = Fin 2, ratio = Fin 2\<rparr>"
  "computeMouthRatio (asDetection movedLandmarks) = Some (Fin 1)"
  by (simp_all add: asDetection_def geometry_defs js_defs restingLandmarks_def movedLandmarks_def faceBox_def Let_def)

lemma steady_obs:
  "computeNodRatio (asDetection steadyLandmarks) = Some (Fin 0)"
  "computeShakeRatio (asDetection steadyLandmarks) = Some (Fin 0)"
  "computeBlinkRatios (asDetection steadyLandmarks) =
     Some \<lparr>leftHeight = Fin 5, rightHeight = Fin 5, leftRatio = Fin 2, rightRatio = Fin 2, ratio = Fin 2\<rparr>"
  "computeMouthRatio (asDetection steadyLandmarks) = Some (Fin 1)"
  by (simp_all add: asDetection_def geometry_defs js_defs restingLandmarks_def movedLandmarks_def
      steadyLandmarks_def faceBox_def Let_def)

lemmas frame_defs = restingFrame_def movedFrame_def steadyFrame_def sampleFrame_def asDetection_def

lemma frameDetection_sample: "frameDetection (sampleFrame ps) = Some (asDetection ps)"
  by (simp add: frameDetection_def sampleFrame_def asDetection_def)

subsection \<open>Stage order\<close>

lemma sample_run_index:
  "stageIndex (processFrames startSession [restingFrame]) = 0"
  "stageIndex (processFrames startSession [restingFrame, movedFrame]) = 1"
  using resting_obs moved_obs
  by (simp_all add: machine_defs js_defs cfg_defs frame_defs Let_def)

text \<open>
  C4. The stage pointer moves only forward and only one step at a time. \<^verbatim>\<open>evaluateStage\<close>
  advances \<^verbatim>\<open>stageIndex\<close> by exactly one when the predicate of the current stage holds and
  leaves it unchanged otherwise; the stage it reports as just completed is the one at the
  old index of the list nod, shake, blink, mouth. The same holds of a processed frame:
  \<^verbatim>\<open>processFrame\<close> raises the index by exactly one when the session is active, the frame
  shows one face with landmarks, and the predicate of the current stage holds of the
  frame's metrics and of the state after the trackers have taken the frame; on every other
  frame the index is unchanged and no stage is reported as completed. So the index after a
  sequence of frames extended by one frame is the index before, plus one exactly when the
  predicate held on that frame, and it never decreases. For an accepted frame the result
  of \<^verbatim>\<open>processFrame\<close> is that of \<^verbatim>\<open>evaluateStage\<close> on these metrics and this state.
\<close>

theorem C4_stage_order:
  "stageIndex (snd (evaluateStage m st)) =
     (if stageIndex st < 4 \<and> check (LIVENESS_STAGES ! stageIndex st) m st
      then stageIndex st + 1 else stageIndex st) \<and>
   justCompletedIndex (fst (evaluateStage m st)) =
     (if stageIndex st < 4 \<and> check (LIVENESS_STAGES ! stageIndex st) m st
      then Some (stageIndex st) else None) \<and>
   justCompletedStage (fst (evaluateStage m st)) =
     (if stageIndex st < 4 \<and> check (LIVENESS_STAGES ! stageIndex st) m st
      then Some (LIVENESS_STAGES ! stageIndex st) else None) \<and>
   LIVENESS_STAGES = [Nod, Shake, Blink, Mouth] \<and>
   (stageIndex (snd (processFrame st fr)) = stageIndex st \<or>
    stageIndex (snd (processFrame st fr)) = stageIndex st + 1) \<and>
   stageIndex st \<le> stageIndex (processFrames st frs) \<and>
   stageIndex (snd (processFrame st fr)) =
     (if stagePredicate st fr then stageIndex st + 1 else stageIndex st) \<and>
   (case fst (processFrame st fr) of
      Inl err \<Rightarrow> True
    | Inr res \<Rightarrow>
        justCompletedIndex (stage res) =
          (if stagePredicate st fr then Some (stageIndex st) else None) \<and>
        justCompletedStage (stage res) =
          (if stagePredicate st fr then Some (LIVENESS_STAGES ! stageIndex st) else None)) \<and>
   stageIndex (processFrames st (frs @ [fr])) =
     (if stagePredicate (processFrames st frs) fr then stageIndex (processFrames st frs) + 1
      else stageIndex (processFrames st frs)) \<and>
   (active st \<and> frameDetection fr = Some det \<longrightarrow>
      processFrame st fr =
        (Inr \<lparr>detection = Some det, metrics = Some (frameMetrics st det),
              stage = fst (evaluateStage (frameMetrics st det) (frameState st det)),
              multiFaceDetected = None\<rparr>,
         snd (evaluateStage (frameMetrics st det) (frameState st det))))"
proof -
  have snoc: "processFrames s (xs @ [x]) = snd (processFrame (processFrames s xs) x)" for s xs x
    by (induction xs arbitrary: s) simp_all
  show ?thesis
    using evaluateStage_stageIndex [of m st] evaluateStage_justCompleted [of m st]
      processFrame_stageIndex [of st fr] processFrames_stageIndex_mono [of st frs]
      processFrame_step [of st fr] processFrame_step(1) [of "processFrames st frs" fr]
      processFrame_accepted [of st fr det]
    by (simp add: LIVENESS_STAGES_def snoc)
qed

theorem C4_stage_order_witness:
  "active startSession \<and> frameDetection restingFrame = Some (asDetection restingLandmarks) \<and>
   processFrame startSession restingFrame =
     (Inr \<lparr>detection = Some (asDetection restingLandmarks),
           metrics = Some (frameMetrics startSession (asDetection restingLandmarks)),
           stage = fst (evaluateStage (frameMetrics startSession (asDetection restingLandmarks))
                          (frameState startSession (asDetection restingLandmarks))),
           multiFaceDetected = None\<rparr>,
      snd (evaluateStage (frameMetrics startSession (asDetection restingLandmarks))
             (frameState startSession (asDetection restingLandmarks)))) \<and>
   \<not> stagePredicate startSession restingFrame \<and>
   stageIndex (processFrames startSession [restingFrame]) = 0 \<and>
   stagePredicate (processFrames startSession [restingFrame]) movedFrame \<and>
   stageIndex (processFrames startSession [restingFrame, movedFrame]) = 1"
proof -
  have h1: "active startSession" by (simp add: machine_defs Let_def)
  have h2: "frameDetection restingFrame = Some (asDetection restingLandmarks)"
    by (simp add: restingFrame_def frameDetection_sample)
  have h3: "stageIndex startSession = 0" by (simp add: machine_defs Let_def)
  have a: "\<not> stagePredicate startSession restingFrame"
    using C4_stage_order [where st = startSession and fr = restingFrame and frs = "[]"] sample_run_index(1) h3 by (simp split: if_splits)
  have b: "stagePredicate (processFrames startSession [restingFrame]) movedFrame"
    using C4_stage_order [where st = startSession and fr = movedFrame and frs = "[restingFrame]"] sample_run_index
    by (simp split: if_splits)
  show ?thesis
    using C4_stage_order [where st = startSession and fr = restingFrame and frs = "[]"
        and det = "asDetection restingLandmarks"]
      h1 h2 a b sample_run_index
    by simp
qed

subsection \<open>Several faces\<close>

text \<open>
  C5. On a frame of an active session for which the detector returns more than one
  detection, \<^verbatim>\<open>processFrame\<close> reports \<^verbatim>\<open>multiFaceDetected = true\<close> with no detection and no
  metrics, completes no stage, and leaves the state as it was except for clearing
  \<^verbatim>\<open>lastMetrics\<close>: stage index, completion flag, nod and shake ranges, blink and mouth flags
  and the blink threshold are those from before the frame.
\<close>

theorem C5_multiple_faces:
  assumes "active st" and "detectResult fr = Inr ds" and "1 < length ds"
  shows "(\<exists>res. fst (processFrame st fr) = Inr res \<and>
               multiFaceDetected res = Some True \<and> detection res = None \<and> metrics res = None \<and>
               justCompletedIndex (stage res) = None) \<and>
         snd (processFrame st fr) = st\<lparr>lastMetrics := None\<rparr> \<and>
         stageIndex (snd (processFrame st fr)) = stageIndex st \<and>
         completed (snd (processFrame st fr)) = completed st \<and>
         nodRange (snd (processFrame st fr)) = nodRange st \<and>
         shakeRange (snd (processFrame st fr)) = shakeRange st \<and>
         blink (snd (processFrame st fr)) = blink st \<and>
         mouth (snd (processFrame st fr)) = mouth st"
  using assms by (auto simp: processFrame_def noFace_def buildStageStatus_def Let_def)

theorem C5_multiple_faces_witness:
  "active startSession \<and>
   detectResult twoFacesFrame = Inr [faceBox, faceBox\<lparr>score := 0.8\<rparr>] \<and>
   1 < length [faceBox, faceBox\<lparr>score := 0.8\<rparr>] \<and>
   snd (processFrame startSession twoFacesFrame) = startSession\<lparr>lastMetrics := None\<rparr> \<and>
   stageIndex (snd (processFrame startSession twoFacesFrame)) = 0"
proof -
  have h1: "active startSession"
    by (simp add: machine_defs Let_def)
  have h2: "detectResult twoFacesFrame = Inr [faceBox, faceBox\<lparr>score := 0.8\<rparr>]"
    by (simp add: twoFacesFrame_def)
  have h3: "1 < length [faceBox, faceBox\<lparr>score := 0.8\<rparr>]"
    by simp
  have "stageIndex startSession = 0"
    by (simp add: machine_defs Let_def)
  with C5_multiple_faces [OF h1 h2 h3] h1 h2 h3 show ?thesis
    by simp
qed

subsection \<open>Blink and mouth need a closed observation\<close>

lemma blinkOpen_not_blinkClosed: "blinkOpen t m \<Longrightarrow> \<not> blinkClosed t m"
  by (cases "leftHeight m"; cases "rightHeight m"; cases "leftRatio m"; cases t)
     (auto simp: blinkOpen_def blinkClosed_def js_gt_def)

lemma closedDetected_updateBlinkState:
  "closedDetected (blink (updateBlinkState bm st)) =
     (closedDetected (blink st) \<or> (case bm of None \<Rightarrow> False | Some m \<Rightarrow> blinkClosed (blinkThreshold st) m))"
  by (cases bm) (auto simp: updateBlinkState_def Let_def blinkClosed_def blinkThreshold_def)

lemma frameDetection_accept:
  "detectResult fr = Inr [p] \<Longrightarrow> estimateResult fr = Inr (Some e) \<Longrightarrow>
   frameDetection fr = Some \<lparr>bbox = bbox p, score = score p, landmarks = est_landmarks e, pose = est_pose e\<rparr>"
  by (simp add: frameDetection_def)

lemma closedDetected_evaluateStage:
  "closedDetected (blink (snd (evaluateStage m st))) \<Longrightarrow> closedDetected (blink st)"
  using evaluateStage_done[of st m] evaluateStage_pending[of st m] evaluateStage_advance[of st m]
  by (cases "stageIndex st < 4"; cases "check (LIVENESS_STAGES ! stageIndex st) m st")
     (auto simp: advance_def Let_def resetCompleted_def resetBlinkDetections_def resetMouthState_def
       split: if_splits)

lemma mouthClosed_evaluateStage:
  "mouthClosedDetected (mouth (snd (evaluateStage m st))) \<Longrightarrow> mouthClosedDetected (mouth st)"
  using evaluateStage_done[of st m] evaluateStage_pending[of st m] evaluateStage_advance[of st m]
  by (cases "stageIndex st < 4"; cases "check (LIVENESS_STAGES ! stageIndex st) m st")
     (auto simp: advance_def Let_def resetCompleted_def resetBlinkDetections_def resetMouthState_def
       split: if_splits)

lemma blinkThreshold_cong: "blink st = blink st' \<Longrightarrow> blinkThreshold st = blinkThreshold st'"
  by (simp add: blinkThreshold_def)

lemma blinkPending_acceptFrame:
  assumes "blinkPending st"
    and "\<not> (case computeBlinkRatios \<lparr>bbox = bbox p, score = score p, landmarks = est_landmarks e, pose = est_pose e\<rparr>
            of None \<Rightarrow> False | Some m \<Rightarrow> blinkClosed (blinkThreshold st) m)"
  shows "blinkPending (snd (acceptFrame st p e))"
proof -
  define det where "det = \<lparr>bbox = bbox p, score = score p, landmarks = est_landmarks e, pose = est_pose e\<rparr>"
  define st2 where "st2 = st\<lparr>nodRange := updateRangeState (nodRange st) (computeNodRatio det),
                             shakeRange := updateRangeState (shakeRange st) (computeShakeRatio det)\<rparr>"
  define st4 where "st4 = updateMouthState (computeMouthRatio det) (updateBlinkState (computeBlinkRatios det) st2)"
  obtain m where eq: "snd (acceptFrame st p e) = snd (evaluateStage m (st4\<lparr>lastMetrics := Some m\<rparr>))"
    by (simp add: acceptFrame_def Let_def split_beta st4_def st2_def det_def)
  have thr: "blinkThreshold st2 = blinkThreshold st"
    by (rule blinkThreshold_cong) (simp add: st2_def)
  have nc: "\<not> closedDetected (blink st4)"
  proof -
    have "blink st2 = blink st" by (simp add: st2_def)
    then show ?thesis
      using assms thr unfolding st4_def det_def [symmetric]
      by (auto simp: closedDetected_updateBlinkState blinkPending_def split: option.splits)
  qed
  have idx: "stageIndex st4 \<le> 2"
    using assms(1) by (simp add: st4_def st2_def blinkPending_def)
  let ?s = "st4\<lparr>lastMetrics := Some m\<rparr>"
  have "\<not> closedDetected (blink (snd (evaluateStage m ?s)))"
    using closedDetected_evaluateStage[of m ?s] nc by auto
  moreover have "stageIndex (snd (evaluateStage m ?s)) \<le> 2"
  proof (cases "stageIndex st4 = 2")
    case True
    then have "\<not> check (LIVENESS_STAGES ! stageIndex ?s) m ?s"
      using nc by (simp add: LIVENESS_STAGES_def)
    then show ?thesis using True by (simp add: evaluateStage_stageIndex)
  next
    case False
    then show ?thesis using idx by (simp add: evaluateStage_stageIndex)
  qed
  ultimately show ?thesis by (simp add: eq blinkPending_def)
qed

lemma blinkPending_processFrame:
  assumes "blinkPending st" and "\<not> blinkClosedAt st fr"
  shows "blinkPending (snd (processFrame st fr))"
proof -
  consider "snd (processFrame st fr) = st" | "snd (processFrame st fr) = st\<lparr>lastMetrics := None\<rparr>"
    | p e where "detectResult fr = Inr [p]" "estimateResult fr = Inr (Some e)"
        "snd (processFrame st fr) = snd (acceptFrame st p e)"
    using processFrame_cases[of st fr] by blast
  then show ?thesis
  proof cases
    case 1
    then show ?thesis using assms by simp
  next
    case 2
    then show ?thesis using assms by (simp add: blinkPending_def)
  next
    case 3
    then show ?thesis
      using assms blinkPending_acceptFrame[of st p e]
      by (simp add: blinkClosedAt_def frameDetection_accept)
  qed
qed

lemma blinkPending_processFrames:
  "blinkPending st \<Longrightarrow> neverBlinkClosed st frs \<Longrightarrow> blinkPending (processFrames st frs)"
  by (induction frs arbitrary: st) (simp_all add: blinkPending_processFrame)

lemma mouthClosed_updateMouthState:
  "mouthClosedDetected (mouth (updateMouthState r st)) =
     (mouthClosedDetected (mouth st) \<or>
      (case r of None \<Rightarrow> False | Some v \<Rightarrow> isFinite v \<and> \<not> js_gt v (Fin mouthThreshold)))"
  by (cases r) (auto simp: updateMouthState_def)

lemma completed_evaluateStage:
  "stageIndex st \<le> 3 \<Longrightarrow> \<not> completed st \<Longrightarrow> \<not> mouthClosedDetected (mouth st) \<Longrightarrow>
   \<not> completed (snd (evaluateStage m st)) \<and> stageIndex (snd (evaluateStage m st)) \<le> 3"
proof -
  assume a: "stageIndex st \<le> 3" "\<not> completed st" "\<not> mouthClosedDetected (mouth st)"
  show ?thesis
  proof (cases "check (LIVENESS_STAGES ! stageIndex st) m st")
    case False
    then show ?thesis using a evaluateStage_pending[of st m] by simp
  next
    case True
    then have lt: "stageIndex st < 3"
      using a by (cases "stageIndex st = 3") (auto simp: LIVENESS_STAGES_def)
    then show ?thesis
      using a True evaluateStage_advance[of st m]
      by (auto simp: advance_def Let_def resetCompleted_def resetBlinkDetections_def resetMouthState_def)
  qed
qed

lemma mouthPending_acceptFrame:
  assumes "mouthPending st"
    and "\<not> (case computeMouthRatio \<lparr>bbox = bbox p, score = score p, landmarks = est_landmarks e, pose = est_pose e\<rparr>
            of None \<Rightarrow> False | Some v \<Rightarrow> isFinite v \<and> \<not> js_gt v (Fin mouthThreshold))"
  shows "mouthPending (snd (acceptFrame st p e))"
proof -
  define det where "det = \<lparr>bbox = bbox p, score = score p, landmarks = est_landmarks e, pose = est_pose e\<rparr>"
  define st2 where "st2 = st\<lparr>nodRange := updateRangeState (nodRange st) (computeNodRatio det),
                             shakeRange := updateRangeState (shakeRange st) (computeShakeRatio det)\<rparr>"
  define st4 where "st4 = updateMouthState (computeMouthRatio det) (updateBlinkState (computeBlinkRatios det) st2)"
  obtain m where eq: "snd (acceptFrame st p e) = snd (evaluateStage m (st4\<lparr>lastMetrics := Some m\<rparr>))"
    by (simp add: acceptFrame_def Let_def split_beta st4_def st2_def det_def)
  let ?s = "st4\<lparr>lastMetrics := Some m\<rparr>"
  have "\<not> mouthClosedDetected (mouth ?s)" "stageIndex ?s \<le> 3" "\<not> completed ?s"
    using assms by (simp_all add: st4_def mouthClosed_updateMouthState det_def mouthPending_def st2_def)
  then have "\<not> completed (snd (evaluateStage m ?s)) \<and> stageIndex (snd (evaluateStage m ?s)) \<le> 3"
    and "\<not> mouthClosedDetected (mouth (snd (evaluateStage m ?s)))"
    using completed_evaluateStage[of ?s m] mouthClosed_evaluateStage[of m ?s] by blast+
  then show ?thesis by (simp add: eq mouthPending_def)
qed

lemma mouthPending_processFrame:
  assumes "mouthPending st" and "\<not> mouthClosedAt fr"
  shows "mouthPending (snd (processFrame st fr))"
proof -
  consider "snd (processFrame st fr) = st" | "snd (processFrame st fr) = st\<lparr>lastMetrics := None\<rparr>"
    | p e where "detectResult fr = Inr [p]" "estimateResult fr = Inr (Some e)"
        "snd (processFrame st fr) = snd (acceptFrame st p e)"
    using processFrame_cases[of st fr] by blast
  then show ?thesis
  proof cases
    case 1
    then show ?thesis using assms by simp
  next
    case 2
    then show ?thesis using assms by (simp add: mouthPending_def)
  next
    case 3
    then show ?thesis
      using assms mouthPending_acceptFrame[of st p e]
      by (simp add: mouthClosedAt_def frameDetection_accept)
  qed
qed

lemma mouthPending_processFrames:
  "mouthPending st \<Longrightarrow> neverMouthClosed frs \<Longrightarrow> mouthPending (processFrames st frs)"
  by (induction frs arbitrary: st) (simp_all add: mouthPending_processFrame)

lemma pending_startSession: "blinkPending startSession" "mouthPending startSession"
  by (simp_all add: blinkPending_def mouthPending_def startSession_def
      createLivenessComputationState_def resetBlinkDetections_def resetMouthState_def Let_def)

text \<open>
  C8. In a session whose frames never carry a closed-eye observation (in particular when
  every observation is open), the blink predicate is false after every frame and the stage
  pointer never passes the blink stage; in a session whose frames never carry a
  closed-mouth observation, the mouth predicate stays false, the pointer never passes the
  mouth stage and the session does not complete.
\<close>

theorem C8_both_extremes:
  "(neverBlinkClosed startSession frs \<longrightarrow>
      \<not> check Blink m (processFrames startSession frs) \<and>
      stageIndex (processFrames startSession frs) \<le> 2) \<and>
   (neverMouthClosed frs \<longrightarrow>
      \<not> check Mouth m (processFrames startSession frs) \<and>
      stageIndex (processFrames startSession frs) \<le> 3 \<and>
      \<not> completed (processFrames startSession frs))"
  using blinkPending_processFrames [OF pending_startSession(1), of frs]
    mouthPending_processFrames [OF pending_startSession(2), of frs]
  by (auto simp: blinkPending_def mouthPending_def)

theorem C8_both_extremes_witness:
  "neverBlinkClosed startSession [movedFrame, steadyFrame, movedFrame, movedFrame, movedFrame] \<and>
   neverMouthClosed [movedFrame, steadyFrame, movedFrame, movedFrame, movedFrame] \<and>
   stageIndex (processFrames startSession
                 [movedFrame, steadyFrame, movedFrame, movedFrame, movedFrame]) \<le> 2 \<and>
   \<not> completed (processFrames startSession
                   [movedFrame, steadyFrame, movedFrame, movedFrame, movedFrame])"
proof -
  have fd: "frameDetection movedFrame = Some (asDetection movedLandmarks)"
    "frameDetection steadyFrame = Some (asDetection steadyLandmarks)"
    by (simp_all add: movedFrame_def steadyFrame_def frameDetection_sample)
  have nb: "\<not> blinkClosedAt st movedFrame" "\<not> blinkClosedAt st steadyFrame"
    if "eyeAvg (blink st) = Some (Fin 10)" for st
    using that by (simp_all add: blinkClosedAt_def fd moved_obs steady_obs blinkClosed_def
        blinkThreshold_def js_defs)
  have keep: "eyeAvg (blink (snd (processFrame st fr))) = Some (Fin 10)"
    if "eyeAvg (blink st) = Some (Fin 10)" "fr = movedFrame \<or> fr = steadyFrame" for st fr
  proof -
    have "eyeAvg (blink (updateBlinkState
             (Some \<lparr>leftHeight = Fin 5, rightHeight = Fin 5, leftRatio = Fin 2,
                     rightRatio = Fin 2, ratio = Fin 2\<rparr>) s)) = Some (Fin 10)"
      if "eyeAvg (blink s) = Some (Fin 10)" for s
      using that by (simp add: updateBlinkState_def updateBlinkAverage_def Let_def js_defs cfg_defs)
    then show ?thesis
      using that moved_obs steady_obs
      by (auto simp: processFrame_def acceptFrame_def frame_defs Let_def split_beta)
  qed
  have s0: "eyeAvg (blink startSession) = Some (Fin 10)"
    by (simp add: machine_defs cfg_defs Let_def)
  have h1: "neverBlinkClosed startSession
              [movedFrame, steadyFrame, movedFrame, movedFrame, movedFrame]"
    using s0 by (simp add: nb keep)
  have h2: "neverMouthClosed [movedFrame, steadyFrame, movedFrame, movedFrame, movedFrame]"
    by (simp add: mouthClosedAt_def fd moved_obs steady_obs js_defs cfg_defs)
  show ?thesis
    using C8_both_extremes
      [of "[movedFrame, steadyFrame, movedFrame, movedFrame, movedFrame]"] h1 h2
    by blast
qed

subsection \<open>What a stage finds when it becomes current\<close>

lemma stage_cases:
  "i < 4 \<Longrightarrow> (i = 0 \<and> LIVENESS_STAGES ! i = Nod) \<or> (i = 1 \<and> LIVENESS_STAGES ! i = Shake) \<or>
     (i = 2 \<and> LIVENESS_STAGES ! i = Blink) \<or> (i = 3 \<and> LIVENESS_STAGES ! i = Mouth)"
  by (auto simp: LIVENESS_STAGES_def less_Suc_eq numeral_eq_Suc)

lemma advance_running:
  "stageIndex st < 4 \<Longrightarrow> k = LIVENESS_STAGES ! stageIndex st \<Longrightarrow>
   nodRange (advance st) = (if k = Nod then emptyRange else nodRange st) \<and>
   shakeRange (advance st) = (if k = Shake then emptyRange else shakeRange st) \<and>
   blink (advance st) =
     (if k = Blink then (blink st)\<lparr>closedDetected := False, openDetected := False\<rparr> else blink st) \<and>
   mouth (advance st) =
     (if k = Mouth then (mouth st)\<lparr>mouthOpenDetected := False, mouthClosedDetected := False\<rparr>
      else mouth st)"
  using stage_cases[of "stageIndex st"]
  by (auto simp: advance_def Let_def resetCompleted_def resetBlinkDetections_def resetMouthState_def
      resetRange_def emptyRange_def)


lemma openDetected_updateBlinkState:
  "openDetected (blink (updateBlinkState bm st)) =
     (openDetected (blink st) \<or> (case bm of None \<Rightarrow> False | Some m \<Rightarrow> blinkOpen (blinkThreshold st) m))"
  by (cases bm) (auto simp: updateBlinkState_def Let_def blinkOpen_def blinkThreshold_def)

lemma mouthOpen_updateMouthState:
  "mouthOpenDetected (mouth (updateMouthState r st)) =
     (mouthOpenDetected (mouth st) \<or>
      (case r of None \<Rightarrow> False | Some v \<Rightarrow> isFinite v \<and> js_gt v (Fin mouthThreshold)))"
  by (cases r) (auto simp: updateMouthState_def)

text \<open>
  C1, as the code has it. Every accepted frame updates the running state of all four
  stages, whichever stage is current, and the completion of a stage resets only that
  stage's own state: the nod range when nod completes, the shake range when shake
  completes, the blink flags when blink completes, the mouth flags when mouth completes.
  The state of the other stages is left as accumulated.
\<close>

theorem C1_running_state:
  assumes "active st" and "stageIndex st < 4" and "frameDetection fr = Some det"
    and "k = LIVENESS_STAGES ! stageIndex st"
    and "done = (stageIndex (snd (processFrame st fr)) = stageIndex st + 1)"
  shows "nodRange (snd (processFrame st fr)) =
           (if done \<and> k = Nod then emptyRange
            else updateRangeState (nodRange st) (computeNodRatio det)) \<and>
         shakeRange (snd (processFrame st fr)) =
           (if done \<and> k = Shake then emptyRange
            else updateRangeState (shakeRange st) (computeShakeRatio det)) \<and>
         closedDetected (blink (snd (processFrame st fr))) =
           (\<not> (done \<and> k = Blink) \<and> (closedDetected (blink st) \<or> blinkClosedAt st fr)) \<and>
         openDetected (blink (snd (processFrame st fr))) =
           (\<not> (done \<and> k = Blink) \<and> (openDetected (blink st) \<or> blinkOpenAt st fr)) \<and>
         mouthClosedDetected (mouth (snd (processFrame st fr))) =
           (\<not> (done \<and> k = Mouth) \<and> (mouthClosedDetected (mouth st) \<or> mouthClosedAt fr)) \<and>
         mouthOpenDetected (mouth (snd (processFrame st fr))) =
           (\<not> (done \<and> k = Mouth) \<and> (mouthOpenDetected (mouth st) \<or> mouthOpenAt fr))"
proof -
  obtain p e where fr: "detectResult fr = Inr [p]" "estimateResult fr = Inr (Some e)"
    and det: "det = \<lparr>bbox = bbox p, score = score p, landmarks = est_landmarks e, pose = est_pose e\<rparr>"
    using assms(3)
    by (auto simp: frameDetection_def split: sum.splits list.splits option.splits)
  define st2 where "st2 = st\<lparr>nodRange := updateRangeState (nodRange st) (computeNodRatio det),
                             shakeRange := updateRangeState (shakeRange st) (computeShakeRatio det)\<rparr>"
  define st4 where "st4 = updateMouthState (computeMouthRatio det) (updateBlinkState (computeBlinkRatios det) st2)"
  obtain m where "snd (acceptFrame st p e) = snd (evaluateStage m (st4\<lparr>lastMetrics := Some m\<rparr>))"
    by (simp add: acceptFrame_def Let_def split_beta st4_def st2_def det)
  then have eq: "snd (processFrame st fr) = snd (evaluateStage m (st4\<lparr>lastMetrics := Some m\<rparr>))"
    using assms(1) fr by (simp add: processFrame_def split_beta)
  let ?s = "st4\<lparr>lastMetrics := Some m\<rparr>"
  have idx: "stageIndex ?s = stageIndex st" by (simp add: st4_def st2_def)
  have b2: "blink st2 = blink st" "mouth st2 = mouth st" by (simp_all add: st2_def)
  have thr: "blinkThreshold st2 = blinkThreshold st"
    by (rule blinkThreshold_cong) (simp add: st2_def)
  have flds: "nodRange ?s = updateRangeState (nodRange st) (computeNodRatio det)"
    "shakeRange ?s = updateRangeState (shakeRange st) (computeShakeRatio det)"
    by (simp_all add: st4_def st2_def)
  have fl1: "closedDetected (blink ?s) = (closedDetected (blink st) \<or> blinkClosedAt st fr)"
    using assms(3) by (simp add: st4_def closedDetected_updateBlinkState b2 thr blinkClosedAt_def
        cong: option.case_cong)
  have fl2: "openDetected (blink ?s) = (openDetected (blink st) \<or> blinkOpenAt st fr)"
    using assms(3) by (simp add: st4_def openDetected_updateBlinkState b2 thr blinkOpenAt_def
        cong: option.case_cong)
  have fl3: "mouthClosedDetected (mouth ?s) = (mouthClosedDetected (mouth st) \<or> mouthClosedAt fr)"
    using assms(3) by (simp add: st4_def mouthClosed_updateMouthState b2 mouthClosedAt_def)
  have fl4: "mouthOpenDetected (mouth ?s) = (mouthOpenDetected (mouth st) \<or> mouthOpenAt fr)"
    using assms(3) by (simp add: st4_def mouthOpen_updateMouthState b2 mouthOpenAt_def)
  show ?thesis
  proof (cases "check (LIVENESS_STAGES ! stageIndex ?s) m ?s")
    case True
    then have adv: "snd (evaluateStage m ?s) = advance ?s"
      using evaluateStage_advance[of ?s m] assms(2) idx by simp
    then have d: "done" using assms(5) eq idx by simp
    have "stageIndex ?s < 4" "k = LIVENESS_STAGES ! stageIndex ?s"
      using assms(2,4) idx by simp_all
    from advance_running[OF this] show ?thesis
      unfolding eq adv using d flds fl1 fl2 fl3 fl4 by auto
  next
    case False
    then have stay: "snd (evaluateStage m ?s) = ?s"
      using evaluateStage_pending[of ?s m] assms(2) idx by simp
    then have "\<not> done" using assms(5) eq idx by simp
    then show ?thesis unfolding eq stay using flds fl1 fl2 fl3 fl4 by simp
  qed
qed

theorem C1_running_state_witness:
  "active startSession \<and> stageIndex startSession < 4 \<and>
   frameDetection restingFrame = Some (asDetection restingLandmarks) \<and>
   Nod = LIVENESS_STAGES ! stageIndex startSession \<and>
   False = (stageIndex (snd (processFrame startSession restingFrame)) = stageIndex startSession + 1) \<and>
   shakeRange (snd (processFrame startSession restingFrame)) =
     \<lparr>range_min = Some (Fin 0), range_max = Some (Fin 0)\<rparr> \<and>
   closedDetected (blink (snd (processFrame startSession restingFrame))) \<and>
   mouthClosedDetected (mouth (snd (processFrame startSession restingFrame)))"
proof -
  have h1: "active startSession" and h2: "stageIndex startSession < 4"
    and h4: "Nod = LIVENESS_STAGES ! stageIndex startSession"
    by (simp_all add: machine_defs Let_def)
  have h3: "frameDetection restingFrame = Some (asDetection restingLandmarks)"
    by (simp add: restingFrame_def frameDetection_sample)
  have h5: "False = (stageIndex (snd (processFrame startSession restingFrame)) =
                     stageIndex startSession + 1)"
    using resting_obs by (simp add: machine_defs js_defs cfg_defs frame_defs Let_def)
  have e: "computeShakeRatio (asDetection restingLandmarks) = Some (Fin 0)"
    "blinkClosedAt startSession restingFrame" "mouthClosedAt restingFrame"
    "shakeRange startSession = emptyRange"
    using resting_obs
    by (simp_all add: blinkClosedAt_def mouthClosedAt_def restingFrame_def frameDetection_sample
        blinkClosed_def machine_defs js_defs cfg_defs Let_def)
  from C1_running_state [OF h1 h2 h3 h4 h5] e h1 h2 h3 h4 h5 show ?thesis
    by (simp add: updateRangeState_def emptyRange_def)
qed

text \<open>
  C1, as stated, fails. The resting frame followed by the moved frame completes the nod
  stage, so the shake stage becomes current; at that moment the shake range is not reset
  but already spans the movement seen during the nod stage. Repeating the moved frame, with
  no further movement, completes shake; when blink becomes current both blink flags are
  already set, and when mouth becomes current both mouth flags are, so each of the two
  completes on the next frame.
\<close>

theorem C1_counterexample:
  "stageIndex (processFrames startSession [restingFrame]) = 0 \<and>
   stageIndex (processFrames startSession [restingFrame, movedFrame]) = 1 \<and>
   shakeRange (processFrames startSession [restingFrame, movedFrame]) \<noteq> emptyRange \<and>
   getSpread (shakeRange (processFrames startSession [restingFrame, movedFrame])) =
     Some (Fin (1 / 10)) \<and>
   stageIndex (processFrames startSession [restingFrame, movedFrame, movedFrame]) = 2 \<and>
   closedDetected (blink (processFrames startSession [restingFrame, movedFrame, movedFrame])) \<and>
   openDetected (blink (processFrames startSession [restingFrame, movedFrame, movedFrame])) \<and>
   stageIndex (processFrames startSession [restingFrame, movedFrame, movedFrame, movedFrame]) = 3 \<and>
   mouthClosedDetected
     (mouth (processFrames startSession [restingFrame, movedFrame, movedFrame, movedFrame])) \<and>
   mouthOpenDetected
     (mouth (processFrames startSession [restingFrame, movedFrame, movedFrame, movedFrame])) \<and>
   completed (processFrames startSession
                [restingFrame, movedFrame, movedFrame, movedFrame, movedFrame])"
  using resting_obs moved_obs
  by (simp add: machine_defs js_defs cfg_defs frame_defs Let_def)

section \<open>Best frame and quality score: properties\<close>

subsection \<open>The aggregate\<close>

text \<open>The sum of six scores between 0 and 100 stays below \<open>2 ^ 10\<close>, so each rounding of the
  effect moves its result by at most \<open>2 ^ 10 / 2 ^ 53\<close>.\<close>

lemma add_rounded:
  assumes "\<bar>s - t\<bar> \<le> 1" and "\<bar>t\<bar> \<le> 500" and "0 \<le> v" and "v \<le> 100"
  shows "\<exists>r. toDouble (Fin (s + v)) = Fin r \<and> \<bar>r - (s + v)\<bar> \<le> 2 ^ 10 / 2 ^ 53"
proof -
  have "\<bar>s + v\<bar> \<le> 2 ^ 10" using assms by simp
  then show ?thesis by (intro toDouble_near) simp_all
qed

lemma qualityEffect_all:
  assumes sc: "brightnessScore st = Some (Fin b)" "frontalFaceScore st = Some (Fin f)"
    "clarityScore st = Some (Fin c)" "uniformLightingScore st = Some (Fin u)"
    "backgroundUniformityScore st = Some (Fin g)" "pixelResolutionScore st = Some (Fin p)"
    and rg: "0 \<le> b" "b \<le> 100" "0 \<le> f" "f \<le> 100" "0 \<le> c" "c \<le> 100"
      "0 \<le> u" "u \<le> 100" "0 \<le> g" "g \<le> 100" "0 \<le> p" "p \<le> 100"
  shows "\<exists>n q. qualityEffect st = st\<lparr>qualityScore := Some (Fin q)\<rparr> \<and>
           toDouble (Fin (of_int n / 100)) = Fin q \<and>
           \<bar>of_int n / 100 - (b + f + c + u + g + p) / 6\<bar> \<le> 1 / 200 + 1 / 10 ^ 11 \<and>
           \<bar>q - (b + f + c + u + g + p) / 6\<bar> \<le> 501 / 100000"
proof -
  define e :: real where "e = 2 ^ 10 / 2 ^ 53"
  have e: "0 \<le> e" "e \<le> 1 / 1000000000000" by (simp_all add: e_def)
  have "\<bar>b\<bar> \<le> 2 ^ 10" using rg by simp
  from toDouble_near [OF this] obtain s1 where
    s1: "toDouble (Fin b) = Fin s1" and "\<bar>s1 - b\<bar> \<le> e"
    unfolding e_def by auto
  then have d1: "\<bar>s1 - b\<bar> \<le> e" by simp
  have "\<bar>s1 - b\<bar> \<le> 1" "\<bar>b\<bar> \<le> 500" using d1 e rg by linarith+
  from add_rounded [OF this rg(3,4)] obtain s2 where
    s2: "toDouble (Fin (s1 + f)) = Fin s2" and "\<bar>s2 - (s1 + f)\<bar> \<le> e"
    unfolding e_def by blast
  then have d2: "\<bar>s2 - (b + f)\<bar> \<le> 2 * e" using d1 by linarith
  have "\<bar>s2 - (b + f)\<bar> \<le> 1" "\<bar>b + f\<bar> \<le> 500" using d2 e rg by linarith+
  from add_rounded [OF this rg(5,6)] obtain s3 where
    s3: "toDouble (Fin (s2 + c)) = Fin s3" and "\<bar>s3 - (s2 + c)\<bar> \<le> e"
    unfolding e_def by blast
  then have d3: "\<bar>s3 - (b + f + c)\<bar> \<le> 3 * e" using d2 by linarith
  have "\<bar>s3 - (b + f + c)\<bar> \<le> 1" "\<bar>b + f + c\<bar> \<le> 500" using d3 e rg by linarith+
  from add_rounded [OF this rg(7,8)] obtain s4 where
    s4: "toDouble (Fin (s3 + u)) = Fin s4" and "\<bar>s4 - (s3 + u)\<bar> \<le> e"
    unfolding e_def by blast
  then have d4: "\<bar>s4 - (b + f + c + u)\<bar> \<le> 4 * e" using d3 by linarith
  have "\<bar>s4 - (b + f + c + u)\<bar> \<le> 1" "\<bar>b + f + c + u\<bar> \<le> 500"
    using d4 e rg by linarith+
  from add_rounded [OF this rg(9,10)] obtain s5 where
    s5: "toDouble (Fin (s4 + g)) = Fin s5" and "\<bar>s5 - (s4 + g)\<bar> \<le> e"
    unfolding e_def by blast
  then have d5: "\<bar>s5 - (b + f + c + u + g)\<bar> \<le> 5 * e" using d4 by linarith
  have "\<bar>s5 - (b + f + c + u + g)\<bar> \<le> 1" "\<bar>b + f + c + u + g\<bar> \<le> 500"
    using d5 e rg by linarith+
  from add_rounded [OF this rg(11,12)] obtain s6 where
    s6: "toDouble (Fin (s5 + p)) = Fin s6" and "\<bar>s6 - (s5 + p)\<bar> \<le> e"
    unfolding e_def by blast
  then have d6': "\<bar>s6 - (b + f + c + u + g + p)\<bar> \<le> 6 * e" using d5 by linarith
  define S where "S = b + f + c + u + g + p"
  have S: "0 \<le> S" "S \<le> 600" using rg by (simp_all add: S_def)
  have d6: "\<bar>s6 - S\<bar> \<le> 6 * e" using d6' by (simp add: S_def)
  have "\<bar>s6 / 6\<bar> \<le> 1024" using d6 S e by linarith
  then have "\<bar>s6 / 6\<bar> \<le> 2 ^ 10" by simp
  from toDouble_near [OF this] obtain a where
    a: "toDouble (Fin (s6 / 6)) = Fin a" and "\<bar>a - s6 / 6\<bar> \<le> e"
    unfolding e_def by auto
  then have da: "\<bar>a - S / 6\<bar> \<le> 2 * e" using d6 by linarith
  have "\<bar>a\<bar> \<le> 101" using da S e by linarith
  then have "\<bar>a * 100\<bar> \<le> 2 ^ 17" by (simp add: abs_mult)
  from toDouble_near [OF this] obtain t where
    t: "toDouble (Fin (a * 100)) = Fin t" and "\<bar>t - a * 100\<bar> \<le> 2 ^ 17 / 2 ^ 53"
    by auto
  then have "\<bar>t - S / 6 * 100\<bar> \<le> 200 * e + 2 ^ 17 / 2 ^ 53" using da by linarith
  moreover have "(2::real) ^ 17 / 2 ^ 53 \<le> 1 / 10000000000" by simp
  ultimately have dt: "\<bar>t - S / 6 * 100\<bar> \<le> 1 / 1000000000" using e by linarith
  define n where "n = \<lfloor>t + 1 / 2\<rfloor>"
  have dn: "\<bar>of_int n - t\<bar> \<le> 1 / 2" unfolding n_def by linarith
  have "\<bar>of_int n - S / 6 * 100\<bar> \<le> 1 / 2 + 1 / 1000000000" using dn dt by linarith
  then have nb': "\<bar>of_int n / 100 - S / 6\<bar> \<le> 1 / 200 + 1 / 100000000000" by linarith
  then have nb: "\<bar>of_int n / 100 - S / 6\<bar> \<le> 1 / 200 + 1 / 10 ^ 11" by simp
  have "\<bar>real_of_int n / 100\<bar> \<le> 1024" using nb' S by linarith
  then have "\<bar>real_of_int n / 100\<bar> \<le> 2 ^ 10" by simp
  from toDouble_near [OF this] obtain q where
    q: "toDouble (Fin (of_int n / 100)) = Fin q" and "\<bar>q - of_int n / 100\<bar> \<le> e"
    unfolding e_def by auto
  then have qb: "\<bar>q - S / 6\<bar> \<le> 501 / 100000" using nb' e by linarith
  have "qualityEffect st = st\<lparr>qualityScore := Some (Fin q)\<rparr>"
    using sc s1 s2 s3 s4 s5 s6 a t q
    by (simp add: qualityEffect_def Let_def n_def del: toDouble.simps)
  then show ?thesis using q nb qb unfolding S_def by blast
qed

lemma qualityEffect_missing:
  assumes "brightnessScore st = None \<or> frontalFaceScore st = None \<or> clarityScore st = None \<or>
     uniformLightingScore st = None \<or> backgroundUniformityScore st = None \<or>
     pixelResolutionScore st = None"
  shows "qualityEffect st = st"
  using assms by (auto simp add: qualityEffect_def Let_def)

lemma qualityEffect_sample:
  "qualityScore (qualityEffect (scoredView 40)) = Some (Fin 90)"
  "qualityScore (qualityEffect (scoredView 70)) = Some (Fin 95)"
  by (simp_all add: qualityEffect_def scoredView_def initialView_def Let_def)

text \<open>
  C2, as the code has it. The aggregate is taken over six scores, the five component
  scores and the frontal face score. Once all six are present, each between 0 and 100,
  \<^verbatim>\<open>qualityScore\<close> is the binary64 number nearest to \<open>n / 100\<close> for an integer \<open>n\<close>, where
  \<open>n / 100\<close> lies within 0.005 (and a rounding error below \<open>10 ^ - 11\<close>) of the arithmetic mean
  of the six: the mean rounded to two decimals, up to the binary64 rounding of the sum, of
  the division by six and of the multiplication by 100, which near a tie can move the
  second decimal by one. While any of the six is null the effect computes nothing and
  leaves the stored value as it is.
\<close>

theorem C2_quality_aggregate:
  "(brightnessScore st = Some (Fin b) \<and> frontalFaceScore st = Some (Fin f) \<and>
    clarityScore st = Some (Fin c) \<and> uniformLightingScore st = Some (Fin u) \<and>
    backgroundUniformityScore st = Some (Fin g) \<and> pixelResolutionScore st = Some (Fin p) \<and>
    list_all (\<lambda>v. 0 \<le> v \<and> v \<le> 100) [b, f, c, u, g, p] \<longrightarrow>
    (\<exists>n q. qualityEffect st = st\<lparr>qualityScore := Some (Fin q)\<rparr> \<and>
           toDouble (Fin (of_int n / 100)) = Fin q \<and>
           \<bar>of_int n / 100 - (b + f + c + u + g + p) / 6\<bar> \<le> 1 / 200 + 1 / 10 ^ 11 \<and>
           \<bar>q - (b + f + c + u + g + p) / 6\<bar> \<le> 501 / 100000)) \<and>
   (brightnessScore st = None \<or> frontalFaceScore st = None \<or> clarityScore st = None \<or>
    uniformLightingScore st = None \<or> backgroundUniformityScore st = None \<or>
    pixelResolutionScore st = None \<longrightarrow>
    qualityEffect st = st)"
  using qualityEffect_all [of st b f c u g p] qualityEffect_missing [of st] by simp

theorem C2_quality_aggregate_witness:
  "brightnessScore (scoredView 40) = Some (Fin 100) \<and>
   frontalFaceScore (scoredView 40) = Some (Fin 40) \<and>
   clarityScore (scoredView 40) = Some (Fin 100) \<and>
   uniformLightingScore (scoredView 40) = Some (Fin 100) \<and>
   backgroundUniformityScore (scoredView 40) = Some (Fin 100) \<and>
   pixelResolutionScore (scoredView 40) = Some (Fin 100) \<and>
   list_all (\<lambda>v. 0 \<le> v \<and> v \<le> 100) [100, 40, 100, 100, 100, 100 :: real] \<and>
   (case qualityScore (qualityEffect (scoredView 40)) of
      Some (Fin q) \<Rightarrow> \<bar>q - 90\<bar> \<le> 501 / 100000
    | _ \<Rightarrow> False) \<and>
   frontalFaceScore ((scoredView 40)\<lparr>frontalFaceScore := None\<rparr>) = None \<and>
   qualityEffect ((scoredView 40)\<lparr>frontalFaceScore := None\<rparr>) =
     (scoredView 40)\<lparr>frontalFaceScore := None\<rparr>"
proof -
  have h: "brightnessScore (scoredView 40) = Some (Fin 100)"
    "frontalFaceScore (scoredView 40) = Some (Fin 40)"
    "clarityScore (scoredView 40) = Some (Fin 100)"
    "uniformLightingScore (scoredView 40) = Some (Fin 100)"
    "backgroundUniformityScore (scoredView 40) = Some (Fin 100)"
    "pixelResolutionScore (scoredView 40) = Some (Fin 100)"
    by (simp_all add: scoredView_def initialView_def)
  have r: "list_all (\<lambda>v. 0 \<le> v \<and> v \<le> 100) [100, 40, 100, 100, 100, 100 :: real]"
    by simp
  have n: "frontalFaceScore ((scoredView 40)\<lparr>frontalFaceScore := None\<rparr>) = None"
    by simp
  from C2_quality_aggregate [of "scoredView 40" 100 40 100 100 100 100] h r
  obtain q where "qualityEffect (scoredView 40) = (scoredView 40)\<lparr>qualityScore := Some (Fin q)\<rparr>"
    and "\<bar>q - (100 + 40 + 100 + 100 + 100 + 100) / 6\<bar> \<le> 501 / 100000"
    by blast
  then have a: "case qualityScore (qualityEffect (scoredView 40)) of
      Some (Fin q) \<Rightarrow> \<bar>q - 90\<bar> \<le> 501 / 100000 | _ \<Rightarrow> False"
    by simp
  have b: "qualityEffect ((scoredView 40)\<lparr>frontalFaceScore := None\<rparr>) =
     (scoredView 40)\<lparr>frontalFaceScore := None\<rparr>"
    using C2_quality_aggregate [of "(scoredView 40)\<lparr>frontalFaceScore := None\<rparr>"] n by simp
  show ?thesis using h r a n b by simp
qed

text \<open>
  Near a tie the rounding shows: for the six scores nearest to 39.24, 39.9, 10.35, 63.43,
  6.22 and 6.73 the effect yields the number nearest to 27.64, while their mean rounded to
  two decimals is 27.65.
\<close>

lemma quality_near_tie:
  "qualityScore (qualityEffect nearTieView) = Some (toDouble (Fin (2764 / 100)))"
  "\<lfloor>(5522539043063071 / 140737488355328 + 5615425785377587 / 140737488355328 +
     5826532017910579 / 562949953421312 + 8926978886378455 / 140737488355328 +
     7003097420561121 / 1125899906842624 + 1894326593262715 / 281474976710656) / 6 * 100
     + 1 / 2 :: real\<rfloor> = 2765"
proof -
  have r0: "binary64 (5522539043063071 / 140737488355328) = Fin (5522539043063071 / 140737488355328)"
    unfolding binary64_def
    using ieeeRound_value [of 5 "5522539043063071 / 140737488355328" "- 1022" 53 "1 / 140737488355328" 5522539043063071]
    by simp
  have r1: "binary64 (5522539043063071 / 140737488355328 + 5615425785377587 / 140737488355328) = Fin (5568982414220329 / 70368744177664)"
    unfolding binary64_def
    using ieeeRound_value [of 6 "5522539043063071 / 140737488355328 + 5615425785377587 / 140737488355328" "- 1022" 53 "1 / 70368744177664" 5568982414220329]
    by simp
  have r2: "binary64 (5568982414220329 / 70368744177664 + 5826532017910579 / 562949953421312) = Fin (6297298916459151 / 70368744177664)"
    unfolding binary64_def
    using ieeeRound_value [of 6 "5568982414220329 / 70368744177664 + 5826532017910579 / 562949953421312" "- 1022" 53 "1 / 70368744177664" 6297298916459151]
    by simp
  have r3: "binary64 (6297298916459151 / 70368744177664 + 8926978886378455 / 140737488355328) = Fin (5380394179824189 / 35184372088832)"
    unfolding binary64_def
    using ieeeRound_value [of 7 "6297298916459151 / 70368744177664 + 8926978886378455 / 140737488355328" "- 1022" 53 "1 / 35184372088832" 5380394179824189]
    by simp
  have r4: "binary64 (5380394179824189 / 35184372088832 + 7003097420561121 / 1125899906842624) = Fin (1399810243554181 / 8796093022208)"
    unfolding binary64_def
    using ieeeRound_value [of 7 "5380394179824189 / 35184372088832 + 7003097420561121 / 1125899906842624" "- 1022" 53 "1 / 35184372088832" 5599240974216724]
    by simp
  have r5: "binary64 (1399810243554181 / 8796093022208 + 1894326593262715 / 281474976710656) = Fin (5836031798374563 / 35184372088832)"
    unfolding binary64_def
    using ieeeRound_value [of 7 "1399810243554181 / 8796093022208 + 1894326593262715 / 281474976710656" "- 1022" 53 "1 / 35184372088832" 5836031798374563]
    by simp
  have r6: "binary64 (5836031798374563 / 35184372088832 / 6) = Fin (1945343932791521 / 70368744177664)"
    unfolding binary64_def
    using ieeeRound_value [of 4 "5836031798374563 / 35184372088832 / 6" "- 1022" 53 "1 / 281474976710656" 7781375731166084]
    by simp
  have r7: "binary64 (1945343932791521 / 70368744177664 * 100) = Fin (6079199789973503 / 2199023255552)"
    unfolding binary64_def
    using ieeeRound_value [of 11 "1945343932791521 / 70368744177664 * 100" "- 1022" 53 "1 / 2199023255552" 6079199789973503]
    by simp
  have r8: "binary64 (2764 / 100) = Fin (1944992089070633 / 70368744177664)"
    unfolding binary64_def
    using ieeeRound_value [of 4 "2764 / 100" "- 1022" 53 "1 / 281474976710656" 7779968356282532]
    by simp
  show "qualityScore (qualityEffect nearTieView) = Some (toDouble (Fin (2764 / 100)))"
    using r0 r1 r2 r3 r4 r5 r6 r7 r8
    by (simp add: qualityEffect_def nearTieView_def initialView_def Let_def)
  show "\<lfloor>(5522539043063071 / 140737488355328 + 5615425785377587 / 140737488355328 +
     5826532017910579 / 562949953421312 + 8926978886378455 / 140737488355328 +
     7003097420561121 / 1125899906842624 + 1894326593262715 / 281474976710656) / 6 * 100
     + 1 / 2 :: real\<rfloor> = 2765"
    by simp
qed

text \<open>
  C2, as stated, fails: with the five component scores at 100 and the frontal face score
  at 40 the mean of the five is 100 but the aggregate is 90; and with the five present but
  the frontal face score still null the aggregate is not computed at all.
\<close>

theorem C2_counterexample:
  "meanOfFive (scoredView 40) = Some (Fin 100) \<and>
   qualityScore (qualityEffect (scoredView 40)) = Some (Fin 90) \<and>
   qualityScore (qualityEffect (scoredView 40)) \<noteq> meanOfFive (scoredView 40) \<and>
   meanOfFive ((scoredView 40)\<lparr>frontalFaceScore := None\<rparr>) = Some (Fin 100) \<and>
   qualityScore (qualityEffect ((scoredView 40)\<lparr>frontalFaceScore := None\<rparr>)) = None"
  by (simp add: meanOfFive_def qualityEffect_def scoredView_def initialView_def Let_def)

subsection \<open>The best frame\<close>

lemma js_gt_irrefl: "\<not> js_gt v v"
  by (cases v) (simp_all add: js_gt_def)

lemma handle_unchanged:
  "\<not> (\<exists>v. candidateScore res = Some v \<and> js_gt v (keyFrameScore st)) \<Longrightarrow>
   bestFrame (handleLivenessResult st res cap) = bestFrame st"
  by (auto simp: handleLivenessResult_def candidateScore_def bestFrame_def Let_def
      split: option.splits)

lemma frontalFaceScore_follows:
  "candidateScore res = Some v \<Longrightarrow> frontalFaceScore (handleLivenessResult st res cap) = Some v"
  by (auto simp: handleLivenessResult_def candidateScore_def Let_def setIfNumber_def
      split: option.splits)

lemmas view_defs = handleLivenessResult_def bestFrame_def storedView_def scoredView_def
  initialView_def sampleResult_def sampleCapture_def truthy_def setIfNumber_def js_gt_def
  qualityEffect_def candidateScore_def Let_def

lemma loweredView_eq:
  "loweredView = storedView\<lparr>frontalFaceScore := Some (Fin 40), qualityScore := Some (Fin 90)\<rparr>"
  by (simp add: loweredView_def view_defs)

lemma handle_not_improving:
  "candidateScore res = Some v \<Longrightarrow> \<not> js_gt v (keyFrameScore st) \<Longrightarrow>
   handleLivenessResult st res cap = st\<lparr>frontalFaceScore := Some v\<rparr>"
  by (auto simp: handleLivenessResult_def candidateScore_def Let_def split: option.splits)

lemma handle_no_score:
  "candidateScore res = None \<Longrightarrow> handleLivenessResult st res cap = st"
  by (auto simp: handleLivenessResult_def candidateScore_def Let_def split: option.splits)

lemma handle_qualityScore:
  "qualityScore (handleLivenessResult st res cap) = qualityScore st"
  by (auto simp: handleLivenessResult_def Let_def split: option.splits)

text \<open>
  C7, as the code has it. \<^verbatim>\<open>handleLivenessResult\<close> changes the stored best frame (the recorded
  score and the three images) or the scores computed from it (brightness and its status,
  clarity, uniform lighting, background uniformity, pixel resolution) only when the
  candidate's frontal score is strictly greater than the recorded best score; a candidate
  whose frontal score equals the recorded one changes none of them. The frontal face score
  is outside this gate: it follows every result that carries a frontal score, so a
  candidate that is not strictly better changes the frontal face score and nothing else,
  and a result without a frontal score changes nothing. The callback itself never writes
  \<^verbatim>\<open>qualityScore\<close>; the effect of C2 recomputes it from the six scores afterwards.
\<close>

theorem C7_best_frame_replacement:
  "(bestFrame (handleLivenessResult st res cap) \<noteq> bestFrame st \<longrightarrow>
      (\<exists>v. candidateScore res = Some v \<and> js_gt v (keyFrameScore st))) \<and>
   (candidateScore res = Some (keyFrameScore st) \<longrightarrow>
      bestFrame (handleLivenessResult st res cap) = bestFrame st) \<and>
   (candidateScore res = Some v \<longrightarrow>
      frontalFaceScore (handleLivenessResult st res cap) = Some v) \<and>
   (candidateScore res = Some v \<and> \<not> js_gt v (keyFrameScore st) \<longrightarrow>
      handleLivenessResult st res cap = st\<lparr>frontalFaceScore := Some v\<rparr>) \<and>
   (candidateScore res = None \<longrightarrow> handleLivenessResult st res cap = st) \<and>
   qualityScore (handleLivenessResult st res cap) = qualityScore st"
  using handle_unchanged [of res st cap] js_gt_irrefl [of "keyFrameScore st"]
    frontalFaceScore_follows [of res v st cap] handle_not_improving [of res v st cap]
    handle_no_score [of res st cap] handle_qualityScore [of st res cap]
  by auto

theorem C7_best_frame_replacement_witness:
  "bestFrame (handleLivenessResult storedView (sampleResult 95) sampleCapture) \<noteq> bestFrame storedView \<and>
   candidateScore (sampleResult 95) = Some (Fin 95) \<and> js_gt (Fin 95) (keyFrameScore storedView) \<and>
   frontalFaceScore (handleLivenessResult storedView (sampleResult 95) sampleCapture) = Some (Fin 95) \<and>
   candidateScore (sampleResult 70) = Some (keyFrameScore storedView) \<and>
   bestFrame (handleLivenessResult storedView (sampleResult 70) sampleCapture) = bestFrame storedView \<and>
   candidateScore (sampleResult 40) = Some (Fin 40) \<and> \<not> js_gt (Fin 40) (keyFrameScore storedView) \<and>
   handleLivenessResult storedView (sampleResult 40) sampleCapture =
     storedView\<lparr>frontalFaceScore := Some (Fin 40)\<rparr> \<and>
   candidateScore (noFace startSession None) = None \<and>
   handleLivenessResult storedView (noFace startSession None) sampleCapture = storedView"
proof -
  have h1: "bestFrame (handleLivenessResult storedView (sampleResult 95) sampleCapture)
              \<noteq> bestFrame storedView"
    by (simp add: handleLivenessResult_def bestFrame_def storedView_def scoredView_def
        initialView_def sampleResult_def sampleCapture_def truthy_def setIfNumber_def
        js_gt_def Let_def)
  have h2: "candidateScore (sampleResult 70) = Some (keyFrameScore storedView)"
    "candidateScore (sampleResult 95) = Some (Fin 95)"
    "candidateScore (sampleResult 40) = Some (Fin 40)"
    "candidateScore (noFace startSession None) = None"
    by (simp_all add: candidateScore_def sampleResult_def storedView_def noFace_def)
  have h3: "\<not> js_gt (Fin 40) (keyFrameScore storedView)"
    "js_gt (Fin 95) (keyFrameScore storedView)"
    by (simp_all add: js_gt_def storedView_def)
  show ?thesis
    using C7_best_frame_replacement [of storedView "sampleResult 95" sampleCapture "Fin 95"]
      C7_best_frame_replacement [of storedView "sampleResult 70" sampleCapture "Fin 70"]
      C7_best_frame_replacement [of storedView "sampleResult 40" sampleCapture "Fin 40"]
      C7_best_frame_replacement [of storedView "noFace startSession None" sampleCapture "Fin 0"]
      h1 h2 h3
    by simp
qed

text \<open>
  C7, as stated, fails for the scores that are not stored with the best frame. The best
  frame was recorded at a frontal score of 70 and the aggregate stands at 95. A candidate
  at 40 does not replace the best frame, yet the frontal face score becomes 40 and the
  aggregate 90; a further candidate at 70, equal to the recorded best, again replaces
  nothing, and moves the aggregate back to 95.
\<close>

theorem C7_counterexample:
  "qualityScore (qualityEffect storedView) = Some (Fin 95) \<and>
   candidateScore (sampleResult 40) = Some (Fin 40) \<and>
   \<not> js_gt (Fin 40) (keyFrameScore (qualityEffect storedView)) \<and>
   bestFrame (handleLivenessResult (qualityEffect storedView) (sampleResult 40) sampleCapture)
     = bestFrame (qualityEffect storedView) \<and>
   frontalFaceScore (loweredView) = Some (Fin 40) \<and>
   qualityScore loweredView = Some (Fin 90) \<and>
   candidateScore (sampleResult 70) = Some (keyFrameScore loweredView) \<and>
   bestFrame (handleLivenessResult loweredView (sampleResult 70) sampleCapture)
     = bestFrame loweredView \<and>
   qualityScore (qualityEffect (handleLivenessResult loweredView (sampleResult 70) sampleCapture))
     = Some (Fin 95)"
  by (simp add: loweredView_eq) (simp add: view_defs)

section \<open>The face detector: properties\<close>

subsection \<open>Non-maximum suppression\<close>

lemma nms_loop_greedy: "nms_loop t xs keep = keep @ greedy t xs"
  by (induction t xs keep rule: nms_loop.induct) simp_all

lemma set_greedy: "set (greedy t xs) \<subseteq> set xs"
  by (induction t xs rule: greedy.induct) auto

lemma separated_greedy: "separated t (greedy t xs)"
proof (induction t xs rule: greedy.induct)
  case (1 t)
  show ?case by simp
next
  case (2 t current objects)
  let ?rest = "filter (\<lambda>c. \<not> js_gt (iou (bbox current) (bbox c)) (Fin t)) objects"
  have "set (greedy t ?rest) \<subseteq> set ?rest" by (rule set_greedy)
  then have "list_all (\<lambda>c. \<not> js_gt (iou (bbox current) (bbox c)) (Fin t)) (greedy t ?rest)"
    by (auto simp: list_all_iff)
  with 2 show ?case by simp
qed

lemma sorted_wrt_greedy: "sorted_wrt P xs \<Longrightarrow> sorted_wrt P (greedy t xs)"
proof (induction t xs rule: greedy.induct)
  case (1 t)
  show ?case by simp
next
  case (2 t current objects)
  let ?rest = "filter (\<lambda>c. \<not> js_gt (iou (bbox current) (bbox c)) (Fin t)) objects"
  have "sorted_wrt P ?rest" using 2(2) by (simp add: sorted_wrt_filter)
  then have "sorted_wrt P (greedy t ?rest)" by (rule 2(1))
  moreover have "\<forall>y \<in> set (greedy t ?rest). P current y"
    using set_greedy[of t ?rest] 2(2) by auto
  ultimately show ?case by simp
qed

lemma greedy_separated: "separated t xs \<Longrightarrow> greedy t xs = xs"
proof (induction xs)
  case Nil
  show ?case by simp
next
  case (Cons x xs)
  then have "filter (\<lambda>c. \<not> js_gt (iou (bbox x) (bbox c)) (Fin t)) xs = xs"
    by (simp add: list_all_iff)
  with Cons show ?case by simp
qed

lemma separated_nth:
  "separated t xs \<Longrightarrow> i < j \<Longrightarrow> j < length xs \<Longrightarrow>
   \<not> js_gt (iou (bbox (xs ! i)) (bbox (xs ! j))) (Fin t)"
proof (induction xs arbitrary: i j)
  case Nil
  then show ?case by simp
next
  case (Cons x xs)
  show ?case
  proof (cases i)
    case 0
    then obtain j' where j: "j = Suc j'" "j' < length xs"
      using Cons.prems by (cases j) auto
    then have "xs ! j' \<in> set xs" by simp
    then show ?thesis using Cons.prems(1) 0 j by (auto simp: list_all_iff)
  next
    case (Suc i')
    then obtain j' where j: "j = Suc j'" "i' < j'" "j' < length xs"
      using Cons.prems by (cases j) auto
    then show ?thesis using Cons.IH[of i' j'] Cons.prems(1) Suc by simp
  qed
qed

lemma js_max_commute: "js_max a b = js_max b a"
  by (cases a; cases b) auto

lemma js_min_commute: "js_min a b = js_min b a"
  by (cases a; cases b) auto

lemma js_add_commute: "js_add a b = js_add b a"
  by (cases a; cases b) auto

lemma js_mul_commute: "js_mul a b = js_mul b a"
  by (cases a; cases b) (auto simp: signed_inf_def)

lemma iou_commute: "iou a b = iou b a"
proof -
  obtain a0 a1 a2 a3 b0 b1 b2 b3 where ab: "a = (a0, a1, a2, a3)" "b = (b0, b1, b2, b3)"
    by (cases a, cases b) auto
  show ?thesis
    unfolding ab iou_def Let_def prod.case
    by (simp only: js_max_commute [of a0 b0] js_max_commute [of a1 b1]
        js_min_commute [of a2 b2] js_min_commute [of a3 b3]
        js_add_commute [of "js_mul (js_add (js_sub a2 a0) (Fin 1)) (js_add (js_sub a3 a1) (Fin 1))"])
qed

lemma nms_greedy: "nms t ds = greedy t (sort_key (\<lambda>det. - score det) ds)"
  by (simp add: nms_def nms_loop_greedy)

lemma sorted_nms: "sorted (map (\<lambda>det. - score det) (nms t ds))"
proof -
  have "sorted_wrt (\<lambda>a b. - score a \<le> - score b) (sort_key (\<lambda>det. - score det) ds)"
    using sorted_sort_key [of "\<lambda>det. - score det" ds] by (simp add: sorted_map)
  then show ?thesis
    unfolding nms_greedy sorted_map by (rule sorted_wrt_greedy)
qed

lemma nms_idem: "nms t (nms t ds) = nms t ds"
proof -
  have "sort_key (\<lambda>det. - score det) (nms t ds) = nms t ds"
    using sorted_nms by (rule sort_key_id_if_sorted)
  then have "nms t (nms t ds) = greedy t (nms t ds)"
    by (simp add: nms_greedy)
  also have "\<dots> = nms t ds"
    by (rule greedy_separated) (simp add: nms_greedy separated_greedy)
  finally show ?thesis .
qed

lemma set_nms: "set (nms t ds) \<subseteq> set ds"
  using set_greedy [of t "sort_key (\<lambda>det. - score det) ds"] by (simp add: nms_greedy)

text \<open>
  C6. Greedy NMS is idempotent: running it on its own output returns that output, as a
  list and hence as a set, because no two of the kept detections have an IoU (with the
  inclusive +1 width and height) above the threshold. The detector's threshold is 0.4.
\<close>

theorem C6_nms_idempotent:
  "nms t (nms t ds) = nms t ds \<and>
   (\<forall>i j. i < length (nms t ds) \<and> j < length (nms t ds) \<and> i \<noteq> j \<longrightarrow>
      \<not> js_gt (iou (bbox (nms t ds ! i)) (bbox (nms t ds ! j))) (Fin t)) \<and>
   nmsThresh newDetector = 0.4 \<and> nmsThresh (loadModel s d) = nmsThresh d"
proof -
  have sep: "separated t (nms t ds)"
    by (simp add: nms_greedy separated_greedy)
  have "\<not> js_gt (iou (bbox (nms t ds ! i)) (bbox (nms t ds ! j))) (Fin t)"
    if "i < length (nms t ds)" "j < length (nms t ds)" "i \<noteq> j" for i j
  proof (cases "i < j")
    case True
    then show ?thesis using separated_nth [OF sep] that by simp
  next
    case False
    then have "j < i" using that by simp
    then show ?thesis
      using separated_nth [OF sep, of j i] that iou_commute by simp
  qed
  moreover have "nmsThresh (loadModel s d) = nmsThresh d"
    by (simp add: loadModel_def initFromOutputs_def Let_def split: InputDims.splits)
  ultimately show ?thesis
    by (simp add: nms_idem newDetector_def)
qed

lemma nms_sampleBoxes:
  "nms 0.4 sampleBoxes =
     [\<lparr>bbox = (Fin 1, Fin 1, Fin 10, Fin 10), score = 0.9\<rparr>,
      \<lparr>bbox = (Fin 50, Fin 50, Fin 59, Fin 59), score = 0.7\<rparr>]"
  by (simp add: nms_def sampleBoxes_def iou_def js_defs Let_def)

theorem C6_nms_idempotent_witness:
  "(0::nat) < length (nms 0.4 sampleBoxes) \<and> (1::nat) < length (nms 0.4 sampleBoxes) \<and>
   (0::nat) \<noteq> 1 \<and>
   \<not> js_gt (iou (bbox (nms 0.4 sampleBoxes ! 0)) (bbox (nms 0.4 sampleBoxes ! 1))) (Fin 0.4) \<and>
   nms 0.4 (nms 0.4 sampleBoxes) = nms 0.4 sampleBoxes \<and>
   length (nms 0.4 sampleBoxes) < length sampleBoxes"
proof -
  have h: "(0::nat) < length (nms 0.4 sampleBoxes)" "(1::nat) < length (nms 0.4 sampleBoxes)"
    "length (nms 0.4 sampleBoxes) < length sampleBoxes"
    unfolding nms_sampleBoxes by (simp_all add: sampleBoxes_def)
  show ?thesis
    using C6_nms_idempotent [of "0.4" sampleBoxes] h by simp
qed

subsection \<open>Loading and the empty result\<close>

lemma loads_snoc: "loads (ss @ [s]) = loadModel s (loads ss)"
  by (simp add: loads_def)

lemma loadModel_session:
  "session (loadModel s d) = Some s"
  "truthy (inputName (loadModel s d)) = namedInput s"
  by (simp_all add: loadModel_def initFromOutputs_def Let_def truthy_def namedInput_def
      split: InputDims.splits list.splits)

lemma loads_ready:
  "list_all namedInput ss \<Longrightarrow>
   (session (loads ss) = None \<or> \<not> truthy (inputName (loads ss))) = (ss = [])"
proof (cases ss rule: rev_cases)
  case Nil
  then show ?thesis by (simp add: loads_def newDetector_def)
next
  case (snoc ss' s)
  assume "list_all namedInput ss"
  then show ?thesis using snoc by (simp add: loads_snoc loadModel_session)
qed

lemma decodeStride_unfold:
  "decodeStride d outs threshold idx =
     (let scores = strideScores d outs idx;
          decodedBboxes =
            distance2bbox
              (getAnchorCenters (snd (inputSize d) div (featStrideFpn d ! idx))
                 (fst (inputSize d) div (featStrideFpn d ! idx)) (featStrideFpn d ! idx) (numAnchors d))
              (map (\<lambda>v. fround (toDouble (js_mul (Fin v) (Fin (real (featStrideFpn d ! idx))))))
                   (strideDistances d outs idx));
          pos = filter (\<lambda>i. i < length scores \<and> scores ! i \<ge> threshold) [0..<strideAnchors d idx]
      in (map (\<lambda>i. scores ! i) pos, map (\<lambda>i. decodedBboxes ! i) pos))"
  by (simp add: decodeStride_def strideScores_def strideDistances_def strideAnchors_def Let_def)

lemma decodeStride_empty:
  "list_all (\<lambda>s. s < threshold) (strideScores d outs idx) \<Longrightarrow>
   fst (decodeStride d outs threshold idx) = []"
  by (fastforce simp: decodeStride_unfold Let_def list_all_iff filter_empty_conv
      dest: nth_mem)

lemma postprocess_empty:
  assumes "noScoreReaches d outs threshold"
  shows "dec_scores (postprocess d outs threshold) = None"
proof -
  have "filter (\<lambda>sb. fst sb \<noteq> []) (map (decodeStride d outs threshold) [0..<fmc d]) = []"
    using assms by (auto simp: noScoreReaches_def list_all_iff filter_empty_conv decodeStride_empty)
  then show ?thesis by (simp add: postprocess_def concatFloat32_def)
qed

text \<open>
  C9. \<^verbatim>\<open>detectFromElement\<close> fails with the model-not-loaded error exactly when the session
  or the input name is missing. For a detector as the constructor and successful
  \<^verbatim>\<open>loadModel\<close> calls leave it (the sessions naming their first input), that is exactly
  when no model has been loaded yet. With a model loaded and the run delivering its
  tensors, a frame on which no decoded score reaches the threshold returns the empty
  sequence, not an error.
\<close>

theorem C9_model_not_loaded:
  "(detectFromElement d fr threshold = Inl ModelNotLoaded \<longleftrightarrow>
      session d = None \<or> \<not> truthy (inputName d)) \<and>
   (list_all namedInput ss \<longrightarrow>
      (detectFromElement (loads ss) fr threshold = Inl ModelNotLoaded \<longleftrightarrow> ss = []) \<and>
      (isReady (loads ss) \<longleftrightarrow> ss \<noteq> [])) \<and>
   (list_all namedInput ss \<and> ss \<noteq> [] \<and> runResult fr = Some outs \<and>
    noScoreReaches (loads ss) outs threshold \<longrightarrow>
      detectFromElement (loads ss) fr threshold = Inr [])"
proof -
  have 1: "detectFromElement d fr threshold = Inl ModelNotLoaded \<longleftrightarrow>
           session d = None \<or> \<not> truthy (inputName d)" for d
    by (auto simp: detectFromElement_def split: option.splits)
  have 2: "isReady (loads ss) \<longleftrightarrow> ss \<noteq> []"
    by (cases ss rule: rev_cases)
       (simp_all add: isReady_def loads_snoc loadModel_session, simp add: loads_def newDetector_def)
  have 3: "detectFromElement (loads ss) fr threshold = Inr []"
    if "list_all namedInput ss" "ss \<noteq> []" "runResult fr = Some outs"
      "noScoreReaches (loads ss) outs threshold"
    using that loads_ready [of ss] postprocess_empty [of "loads ss" outs threshold]
    by (simp add: detectFromElement_def buildDetections_def)
  show ?thesis
    using 1 2 3 loads_ready [of ss] by auto
qed

lemma tinyDetector_eq:
  "tinyDetector =
     \<lparr>session = Some tinySession, inputName = Some ''input.1'',
      outputNames = [''score_8'', ''score_16'', ''score_32'', ''bbox_8'', ''bbox_16'', ''bbox_32''],
      inputSize = (8, 8), useKps = False, numAnchors = 2, featStrideFpn = [8, 16, 32], fmc = 3,
      nmsThresh = 0.4\<rparr>"
  by (simp add: tinyDetector_def loadModel_def initFromOutputs_def newDetector_def tinySession_def
      Let_def)

lemma loads_tiny: "loads [tinySession] = tinyDetector"
  by (simp add: loads_def tinyDetector_def)

lemma upt_small: "[0..<2] = [0, 1]" "[0..<3] = [0, 1, 2]"
  by (simp_all add: upt_rec)

lemmas detector_defs = detectFromElement_def postprocess_def decodeStride_def buildDetections_def
  concatFloat32_def distance2bbox_def getAnchorCenters_def extractScores_def toFloat32_def
  netOut_def f32_def boxAt_def scaleBox_def truthy_def nms_def iou_def tinyRun_def

theorem C9_model_not_loaded_witness:
  "list_all namedInput [tinySession] \<and> [tinySession] \<noteq> [] \<and>
   runResult (tinyRun [0.2, 0.3] [1, 1, 1, 1, 1, 1, 1, 1]) =
     Some [[0.2, 0.3], [], [], [1, 1, 1, 1, 1, 1, 1, 1], [], []] \<and>
   noScoreReaches (loads [tinySession])
     [[0.2, 0.3], [], [], [1, 1, 1, 1, 1, 1, 1, 1], [], []] 0.5 \<and>
   detectFromElement (loads [tinySession]) (tinyRun [0.2, 0.3] [1, 1, 1, 1, 1, 1, 1, 1]) 0.5 = Inr [] \<and>
   list_all namedInput [] \<and>
   detectFromElement (loads []) (tinyRun [0.2, 0.3] [1, 1, 1, 1, 1, 1, 1, 1]) 0.5 = Inl ModelNotLoaded"
proof -
  have h1: "list_all namedInput [tinySession]" "list_all namedInput []"
    by (simp_all add: namedInput_def tinySession_def)
  have h2: "runResult (tinyRun [0.2, 0.3] [1, 1, 1, 1, 1, 1, 1, 1]) =
              Some [[0.2, 0.3], [], [], [1, 1, 1, 1, 1, 1, 1, 1], [], []]"
    by (simp add: tinyRun_def)
  have h3: "noScoreReaches (loads [tinySession])
              [[0.2, 0.3], [], [], [1, 1, 1, 1, 1, 1, 1, 1], [], []] 0.5"
    unfolding loads_tiny tinyDetector_eq
    by (simp add: noScoreReaches_def strideScores_def strideAnchors_def extractScores_def
        toFloat32_def netOut_def upt_small)
  show ?thesis
    using C9_model_not_loaded
      [of _ "tinyRun [0.2, 0.3] [1, 1, 1, 1, 1, 1, 1, 1]" "0.5" "[tinySession]"
          "[[0.2, 0.3], [], [], [1, 1, 1, 1, 1, 1, 1, 1], [], []]"]
      C9_model_not_loaded [of _ "tinyRun [0.2, 0.3] [1, 1, 1, 1, 1, 1, 1, 1]" "0.5" "[]"]
      h1 h2 h3
    by simp
qed

subsection \<open>Degenerate boxes\<close>

lemma set_buildDetections:
  assumes "det \<in> set (buildDetections d dec s)"
  shows "\<exists>scores boxes i. dec_scores dec = Some scores \<and> dec_boxes dec = Some boxes \<and>
           i < length scores \<and> bbox det = scaleBox (boxAt boxes i) s"
proof -
  have "\<exists>scores boxes. dec_scores dec = Some scores \<and> dec_boxes dec = Some boxes \<and> scores \<noteq> []"
    using assms
    by (cases "dec_scores dec"; cases "dec_boxes dec")
       (auto simp: buildDetections_def split: if_splits)
  then obtain scores boxes where sb: "dec_scores dec = Some scores" "dec_boxes dec = Some boxes"
    and "scores \<noteq> []"
    by blast
  then have "det \<in> set (nms (nmsThresh d)
                           (map (\<lambda>i. \<lparr>bbox = scaleBox (boxAt boxes i) s, score = scores ! i\<rparr>)
                                [0..<length scores]))"
    using assms sb by (simp add: buildDetections_def)
  then have "det \<in> set (map (\<lambda>i. \<lparr>bbox = scaleBox (boxAt boxes i) s, score = scores ! i\<rparr>)
                          [0..<length scores])"
    using set_nms by blast
  then show ?thesis using sb by auto
qed

lemma length_decodeStride:
  "length (snd (decodeStride d outs threshold idx)) = length (fst (decodeStride d outs threshold idx))"
  by (simp add: decodeStride_unfold Let_def)

lemma length_concat_pairs:
  "\<forall>p \<in> set ps. length (snd p) = length (fst p) \<Longrightarrow>
   length (concat (map snd ps)) = length (concat (map fst ps))"
  by (induction ps) simp_all

lemma postprocess_boxes:
  assumes "dec_scores (postprocess d outs threshold) = Some scores"
    and "dec_boxes (postprocess d outs threshold) = Some boxes"
  shows "length boxes = length scores"
    and "\<forall>b \<in> set boxes. \<exists>idx < fmc d. b \<in> set (snd (decodeStride d outs threshold idx))"
proof -
  define kept where
    "kept = filter (\<lambda>sb. fst sb \<noteq> []) (map (decodeStride d outs threshold) [0..<fmc d])"
  have sc: "scores = concat (map fst kept)" and bx: "boxes = concat (map snd kept)"
    using assms
    by (auto simp: postprocess_def concatFloat32_def kept_def Let_def split: if_splits)
  have "length (snd p) = length (fst p)" if "p \<in> set kept" for p
  proof -
    from that obtain idx where "p = decodeStride d outs threshold idx"
      by (auto simp: kept_def)
    then show ?thesis by (simp add: length_decodeStride)
  qed
  then have "\<forall>p \<in> set kept. length (snd p) = length (fst p)" by blast
  then show "length boxes = length scores"
    unfolding sc bx by (rule length_concat_pairs)
  show "\<forall>b \<in> set boxes. \<exists>idx < fmc d. b \<in> set (snd (decodeStride d outs threshold idx))"
  proof
    fix b assume "b \<in> set boxes"
    then obtain p where p: "p \<in> set kept" "b \<in> set (snd p)"
      unfolding bx by auto
    then obtain idx where "idx < fmc d" "p = decodeStride d outs threshold idx"
      by (auto simp: kept_def)
    then show "\<exists>idx < fmc d. b \<in> set (snd (decodeStride d outs threshold idx))"
      using p(2) by blast
  qed
qed

lemma length_getAnchorCenters: "length (getAnchorCenters h w stride a) = h * w * a"
proof -
  have row: "length (concat (map (\<lambda>x. replicate a (f x)) xs)) = length xs * a"
    for f :: "nat \<Rightarrow> jsnum \<times> jsnum" and xs
    by (induction xs) simp_all
  have "length (concat (map (\<lambda>y. concat (map (\<lambda>x. replicate a (g x y)) [0..<w])) ys))
          = length ys * (w * a)" for g :: "nat \<Rightarrow> nat \<Rightarrow> jsnum \<times> jsnum" and ys
    by (induction ys) (simp_all add: row)
  then show ?thesis by (simp add: getAnchorCenters_def)
qed

text \<open>An anchor centre is a multiple of the stride inside the input, which both formats
  hold exactly.\<close>

lemma stored_nat:
  assumes "n \<le> 65536"
  shows "fround (toDouble (Fin (real n))) = Fin (real n)"
proof -
  have "\<bar>int n\<bar> < 2 ^ 53" "\<bar>int n\<bar> < 2 ^ 24" using assms by simp_all
  then have "binary64 (of_int (int n)) = Fin (of_int (int n))"
    "binary32 (of_int (int n)) = Fin (of_int (int n))"
    using binary64_int [of "int n"] binary32_int [of "int n"] by blast+
  then show ?thesis by simp
qed

lemma set_getAnchorCenters:
  assumes "c \<in> set (getAnchorCenters h w stride a)"
    and "w * stride \<le> 65536" and "h * stride \<le> 65536"
  shows "\<exists>px py. c = (Fin px, Fin py) \<and> 0 \<le> px \<and> px \<le> 65536 \<and> 0 \<le> py \<and> py \<le> 65536"
proof -
  from assms(1) obtain x y where xy: "x < w" "y < h"
    and c: "c = (fround (toDouble (js_mul (Fin (real x)) (Fin (real stride)))),
                 fround (toDouble (js_mul (Fin (real y)) (Fin (real stride)))))"
    by (auto simp: getAnchorCenters_def)
  have "x * stride \<le> w * stride" "y * stride \<le> h * stride"
    using xy mult_le_mono1 [of x w stride] mult_le_mono1 [of y h stride] by simp_all
  then have b: "x * stride \<le> 65536" "y * stride \<le> 65536" using assms(2,3) by linarith+
  have "js_mul (Fin (real x)) (Fin (real stride)) = Fin (real (x * stride))"
    "js_mul (Fin (real y)) (Fin (real stride)) = Fin (real (y * stride))"
    by simp_all
  then have "c = (Fin (real (x * stride)), Fin (real (y * stride)))"
    unfolding c using stored_nat [OF b(1)] stored_nat [OF b(2)] by simp
  moreover have "real (x * stride) \<le> 65536" "real (y * stride) \<le> 65536"
    using b by (simp_all only: of_nat_le_iff [of _ 65536, where ?'a = real, simplified])
  ultimately show ?thesis by auto
qed

text \<open>One axis of a decoded box: the two stored distances, and the two stored corners,
  keep an extent of at least half a pixel.\<close>

lemma extent_kept:
  assumes "0 \<le> px" and "px \<le> 65536" and "\<bar>l\<bar> \<le> 65536" and "\<bar>r\<bar> \<le> 65536"
    and "1 \<le> l + r"
  shows "\<exists>L R x1 x2. fround (toDouble (Fin l)) = Fin L \<and> fround (toDouble (Fin r)) = Fin R \<and>
           fround (toDouble (Fin (px - L))) = Fin x1 \<and>
           fround (toDouble (Fin (px + R))) = Fin x2 \<and>
           x1 + 1 / 2 \<le> x2 \<and> \<bar>x1\<bar> \<le> 262144 \<and> \<bar>x2\<bar> \<le> 262144"
proof -
  have "\<bar>l\<bar> \<le> 2 ^ 16" "\<bar>r\<bar> \<le> 2 ^ 16" using assms by simp_all
  then obtain L R where L: "fround (toDouble (Fin l)) = Fin L" "\<bar>L - l\<bar> \<le> 2 ^ 16 / 2 ^ 22"
    and R: "fround (toDouble (Fin r)) = Fin R" "\<bar>R - r\<bar> \<le> 2 ^ 16 / 2 ^ 22"
    using stored_near [of l 16] stored_near [of r 16] by auto
  have dL: "\<bar>L - l\<bar> \<le> 1 / 64" and dR: "\<bar>R - r\<bar> \<le> 1 / 64" using L(2) R(2) by simp_all
  have "\<bar>px - L\<bar> \<le> 262144" "\<bar>px + R\<bar> \<le> 262144" using assms dL dR by linarith+
  then have "\<bar>px - L\<bar> \<le> 2 ^ 18" "\<bar>px + R\<bar> \<le> 2 ^ 18" by simp_all
  then obtain x1 x2 where x1: "fround (toDouble (Fin (px - L))) = Fin x1"
    "\<bar>x1 - (px - L)\<bar> \<le> 2 ^ 18 / 2 ^ 22"
    and x2: "fround (toDouble (Fin (px + R))) = Fin x2" "\<bar>x2 - (px + R)\<bar> \<le> 2 ^ 18 / 2 ^ 22"
    using stored_near [of "px - L" 18] stored_near [of "px + R" 18] by auto
  have d1: "\<bar>x1 - (px - L)\<bar> \<le> 1 / 16" and d2: "\<bar>x2 - (px + R)\<bar> \<le> 1 / 16"
    using x1(2) x2(2) by simp_all
  have "x1 + 1 / 2 \<le> x2" "\<bar>x1\<bar> \<le> 262144" "\<bar>x2\<bar> \<le> 262144"
    using assms dL dR d1 d2 by linarith+
  then show ?thesis using L(1) R(1) x1(1) x2(1) by blast
qed

text \<open>The division by the scale keeps the order of the two corners.\<close>

lemma scale_kept:
  assumes "x1 + 1 / 2 \<le> x2" and "\<bar>x1\<bar> \<le> 262144" and "\<bar>x2\<bar> \<le> 262144"
    and "1 / 1024 \<le> s" and "s \<le> 1024"
  shows "\<exists>y1 y2. toDouble (js_div (Fin x1) (Fin s)) = Fin y1 \<and>
           toDouble (js_div (Fin x2) (Fin s)) = Fin y2 \<and> y1 < y2"
proof -
  have sp: "0 < s" using assms(4) by simp
  have bound: "\<bar>x / s\<bar> \<le> 2 ^ 28" if "\<bar>x\<bar> \<le> 262144" for x
  proof -
    have "\<bar>x\<bar> / s \<le> 262144 / (1 / 1024)"
      using that assms(4) by (intro frac_le) simp_all
    then show ?thesis using sp by simp
  qed
  obtain y1 where y1: "toDouble (Fin (x1 / s)) = Fin y1" "\<bar>y1 - x1 / s\<bar> \<le> 2 ^ 28 / 2 ^ 53"
    using toDouble_near [OF bound [OF assms(2)]] by auto
  obtain y2 where y2: "toDouble (Fin (x2 / s)) = Fin y2" "\<bar>y2 - x2 / s\<bar> \<le> 2 ^ 28 / 2 ^ 53"
    using toDouble_near [OF bound [OF assms(3)]] by auto
  have e1: "\<bar>y1 - x1 / s\<bar> \<le> 1 / 33554432" and e2: "\<bar>y2 - x2 / s\<bar> \<le> 1 / 33554432"
    using y1(2) y2(2) by simp_all
  have "1 / 2 / 1024 \<le> (x2 - x1) / s"
    using assms(1,5) sp by (intro frac_le) simp_all
  then have "1 / 2048 \<le> x2 / s - x1 / s" by (simp add: diff_divide_distrib)
  then have "y1 < y2" using e1 e2 by linarith
  moreover have "js_div (Fin x1) (Fin s) = Fin (x1 / s)" "js_div (Fin x2) (Fin s) = Fin (x2 / s)"
    using sp by simp_all
  ultimately show ?thesis using y1(1) y2(1) by (simp del: toDouble.simps)
qed

lemma decoded_box_ample:
  assumes "ampleExtents d outs threshold" and "idx < fmc d"
    and "fst (inputSize d) \<le> 65536" and "snd (inputSize d) \<le> 65536"
    and "b \<in> set (snd (decodeStride d outs threshold idx))"
  shows "\<exists>x1 y1 x2 y2. b = (Fin x1, Fin y1, Fin x2, Fin y2) \<and>
           x1 + 1 / 2 \<le> x2 \<and> y1 + 1 / 2 \<le> y2 \<and>
           \<bar>x1\<bar> \<le> 262144 \<and> \<bar>x2\<bar> \<le> 262144 \<and> \<bar>y1\<bar> \<le> 262144 \<and> \<bar>y2\<bar> \<le> 262144"
proof -
  define stride where "stride = featStrideFpn d ! idx"
  define K where "K = strideAnchors d idx"
  define scores where "scores = strideScores d outs idx"
  define dist where "dist = strideDistances d outs idx"
  define h where "h = snd (inputSize d) div stride"
  define w where "w = fst (inputSize d) div stride"
  define centers where "centers = getAnchorCenters h w stride (numAnchors d)"
  define preds where
    "preds = map (\<lambda>v. fround (toDouble (js_mul (Fin v) (Fin (real stride))))) dist"
  obtain i where i: "i < K" "i < length scores" "scores ! i \<ge> threshold"
    and b: "b = distance2bbox centers preds ! i"
    using assms(5)
    by (auto simp: decodeStride_unfold Let_def K_def scores_def dist_def centers_def preds_def
        stride_def h_def w_def)
  have lenc: "length centers = K"
    by (simp add: centers_def length_getAnchorCenters K_def strideAnchors_def stride_def
        h_def w_def)
  have "w * stride \<le> fst (inputSize d)" "h * stride \<le> snd (inputSize d)"
    by (simp_all add: w_def h_def)
  then have "w * stride \<le> 65536" "h * stride \<le> 65536" using assms(3,4) by simp_all
  moreover have "centers ! i \<in> set centers" using i(1) lenc by simp
  ultimately obtain px py where c: "centers ! i = (Fin px, Fin py)"
    and p: "0 \<le> px" "px \<le> 65536" "0 \<le> py" "py \<le> 65536"
    using set_getAnchorCenters [of "centers ! i" h w stride "numAnchors d"]
    unfolding centers_def by blast
  have ext: "i * 4 + 3 < length dist"
    "\<forall>k < 4. \<bar>dist ! (i * 4 + k)\<bar> * real stride \<le> 65536"
    "1 \<le> (dist ! (i * 4) + dist ! (i * 4 + 2)) * real stride"
    "1 \<le> (dist ! (i * 4 + 1) + dist ! (i * 4 + 3)) * real stride"
    using assms(1,2) i
    by (auto simp: ampleExtents_def list_all_iff K_def scores_def dist_def stride_def)
  have ab: "\<bar>dist ! (i * 4 + k) * real stride\<bar> \<le> 65536" if "k < 4" for k
    using ext(2) that by (simp add: abs_mult)
  have rd: "f32 preds (i * 4 + k) = fround (toDouble (Fin (dist ! (i * 4 + k) * real stride)))"
    if "k < 4" for k
    using ext(1) that by (simp add: f32_def preds_def del: toDouble.simps fround.simps)
  have sumx: "1 \<le> dist ! (i * 4 + 0) * real stride + dist ! (i * 4 + 2) * real stride"
    and sumy: "1 \<le> dist ! (i * 4 + 1) * real stride + dist ! (i * 4 + 3) * real stride"
    using ext(3,4) by (simp_all add: algebra_simps)
  obtain L R x1 x2 where X:
    "fround (toDouble (Fin (dist ! (i * 4 + 0) * real stride))) = Fin L"
    "fround (toDouble (Fin (dist ! (i * 4 + 2) * real stride))) = Fin R"
    "fround (toDouble (Fin (px - L))) = Fin x1" "fround (toDouble (Fin (px + R))) = Fin x2"
    "x1 + 1 / 2 \<le> x2" "\<bar>x1\<bar> \<le> 262144" "\<bar>x2\<bar> \<le> 262144"
    using extent_kept [OF p(1,2) ab [of 0] ab [of 2] sumx] by auto
  obtain T B y1 y2 where Y:
    "fround (toDouble (Fin (dist ! (i * 4 + 1) * real stride))) = Fin T"
    "fround (toDouble (Fin (dist ! (i * 4 + 3) * real stride))) = Fin B"
    "fround (toDouble (Fin (py - T))) = Fin y1" "fround (toDouble (Fin (py + B))) = Fin y2"
    "y1 + 1 / 2 \<le> y2" "\<bar>y1\<bar> \<le> 262144" "\<bar>y2\<bar> \<le> 262144"
    using extent_kept [OF p(3,4) ab [of 1] ab [of 3] sumy] by auto
  have f: "f32 preds (i * 4) = Fin L" "f32 preds (i * 4 + 1) = Fin T"
    "f32 preds (i * 4 + 2) = Fin R" "f32 preds (i * 4 + 3) = Fin B"
    using rd [of 0] rd [of 1] rd [of 2] rd [of 3] X(1,2) Y(1,2) by simp_all
  have "distance2bbox centers preds ! i =
          (fround (toDouble (js_sub (Fin px) (Fin L))), fround (toDouble (js_sub (Fin py) (Fin T))),
           fround (toDouble (js_add (Fin px) (Fin R))), fround (toDouble (js_add (Fin py) (Fin B))))"
    using i(1) lenc c f by (simp add: distance2bbox_def del: toDouble.simps fround.simps)
  then have "b = (Fin x1, Fin y1, Fin x2, Fin y2)"
    using X(3,4) Y(3,4) by (simp add: b js_sub_def del: toDouble.simps fround.simps)
  then show ?thesis using X(5,6,7) Y(5,6,7) by blast
qed

text \<open>
  C3, as the code has it. The detector has no filter for degenerate boxes: what it returns
  are the NMS survivors of every decoded anchor whose score reaches the threshold, each
  corner rounded to binary32 when it is stored and each quotient by the scale rounded to
  binary64. A returned detection satisfies \<open>x1 < x2\<close> and \<open>y1 < y2\<close> provided the input is
  at most 65536 pixels a side, the scale lies between 1/1024 and 1024, and every such
  anchor has stride-scaled distances of magnitude at most 65536 with left + right and
  top + bottom at least one pixel.
\<close>

theorem C3_boxes_nondegenerate:
  assumes "runResult fr = Some outs" and "moderateSize d fr"
    and "ampleExtents d outs threshold"
    and "detectFromElement d fr threshold = Inr dets" and "det \<in> set dets"
  shows "nondegenerate det"
proof -
  have sz: "fst (inputSize d) \<le> 65536" "snd (inputSize d) \<le> 65536"
    and sc: "1 / 1024 \<le> detScale fr" "detScale fr \<le> 1024"
    using assms(2) by (simp_all add: moderateSize_def)
  have "dets = buildDetections d (postprocess d outs threshold) (detScale fr)"
    using assms(1,4) by (auto simp: detectFromElement_def split: if_splits)
  then obtain scores boxes i where sb: "dec_scores (postprocess d outs threshold) = Some scores"
    "dec_boxes (postprocess d outs threshold) = Some boxes" "i < length scores"
    and bb: "bbox det = scaleBox (boxAt boxes i) (detScale fr)"
    using assms(5) set_buildDetections by blast
  have "i < length boxes" using postprocess_boxes(1) [OF sb(1,2)] sb(3) by simp
  then have "boxAt boxes i \<in> set boxes" by (simp add: boxAt_def)
  then obtain idx where "idx < fmc d" "boxAt boxes i \<in> set (snd (decodeStride d outs threshold idx))"
    using postprocess_boxes(2) [OF sb(1,2)] by blast
  then obtain x1 y1 x2 y2 where bx: "boxAt boxes i = (Fin x1, Fin y1, Fin x2, Fin y2)"
    and o: "x1 + 1 / 2 \<le> x2" "y1 + 1 / 2 \<le> y2"
    and m: "\<bar>x1\<bar> \<le> 262144" "\<bar>x2\<bar> \<le> 262144" "\<bar>y1\<bar> \<le> 262144" "\<bar>y2\<bar> \<le> 262144"
    using decoded_box_ample [OF assms(3) _ sz] by blast
  obtain u1 u2 where u: "toDouble (js_div (Fin x1) (Fin (detScale fr))) = Fin u1"
    "toDouble (js_div (Fin x2) (Fin (detScale fr))) = Fin u2" "u1 < u2"
    using scale_kept [OF o(1) m(1,2) sc] by blast
  obtain v1 v2 where v: "toDouble (js_div (Fin y1) (Fin (detScale fr))) = Fin v1"
    "toDouble (js_div (Fin y2) (Fin (detScale fr))) = Fin v2" "v1 < v2"
    using scale_kept [OF o(2) m(3,4) sc] by blast
  show ?thesis
    using u v by (simp add: nondegenerate_def bb bx scaleBox_def del: toDouble.simps js_div.simps)
qed

lemma detect_tiny_good:
  "detectFromElement tinyDetector (tinyRun [0.9, 0.1] [1, 1, 1, 1, 0, 0, 0, 0]) 0.5 =
     Inr [\<lparr>bbox = (Fin (- 8), Fin (- 8), Fin 8, Fin 8), score = 0.9\<rparr>]"
  unfolding tinyDetector_eq
  by (simp add: detector_defs js_defs upt_small Let_def)

theorem C3_boxes_nondegenerate_witness:
  "runResult (tinyRun [0.9, 0.1] [1, 1, 1, 1, 0, 0, 0, 0]) =
     Some [[0.9, 0.1], [], [], [1, 1, 1, 1, 0, 0, 0, 0], [], []] \<and>
   moderateSize tinyDetector (tinyRun [0.9, 0.1] [1, 1, 1, 1, 0, 0, 0, 0]) \<and>
   ampleExtents tinyDetector [[0.9, 0.1], [], [], [1, 1, 1, 1, 0, 0, 0, 0], [], []] 0.5 \<and>
   detectFromElement tinyDetector (tinyRun [0.9, 0.1] [1, 1, 1, 1, 0, 0, 0, 0]) 0.5 =
     Inr [\<lparr>bbox = (Fin (- 8), Fin (- 8), Fin 8, Fin 8), score = 0.9\<rparr>] \<and>
   \<lparr>bbox = (Fin (- 8), Fin (- 8), Fin 8, Fin 8), score = 0.9\<rparr>
     \<in> set [\<lparr>bbox = (Fin (- 8), Fin (- 8), Fin 8, Fin 8), score = 0.9\<rparr>] \<and>
   nondegenerate \<lparr>bbox = (Fin (- 8), Fin (- 8), Fin 8, Fin 8), score = 0.9\<rparr>"
proof -
  have h1: "runResult (tinyRun [0.9, 0.1] [1, 1, 1, 1, 0, 0, 0, 0]) =
              Some [[0.9, 0.1], [], [], [1, 1, 1, 1, 0, 0, 0, 0], [], []]"
    by (simp add: tinyRun_def)
  have h2: "moderateSize tinyDetector (tinyRun [0.9, 0.1] [1, 1, 1, 1, 0, 0, 0, 0])"
    unfolding tinyDetector_eq by (simp add: moderateSize_def tinyRun_def)
  have h3: "ampleExtents tinyDetector
              [[0.9, 0.1], [], [], [1, 1, 1, 1, 0, 0, 0, 0], [], []] 0.5"
    unfolding tinyDetector_eq
    by (simp add: ampleExtents_def strideScores_def strideDistances_def strideAnchors_def
        extractScores_def toFloat32_def netOut_def upt_small upt_rec)
  have h5: "\<lparr>bbox = (Fin (- 8), Fin (- 8), Fin 8, Fin 8), score = 0.9\<rparr>
              \<in> set [\<lparr>bbox = (Fin (- 8), Fin (- 8), Fin 8, Fin 8), score = 0.9\<rparr>]"
    by simp
  from C3_boxes_nondegenerate [OF h1 h2 h3 detect_tiny_good h5] h1 h2 h3 detect_tiny_good h5
  show ?thesis by simp
qed

lemma wideDetector_eq:
  "wideDetector =
     \<lparr>session = Some wideSession, inputName = Some ''input.1'',
      outputNames = [''score_8'', ''score_16'', ''score_32'', ''bbox_8'', ''bbox_16'', ''bbox_32''],
      inputSize = (16, 8), useKps = False, numAnchors = 2, featStrideFpn = [8, 16, 32], fmc = 3,
      nmsThresh = 0.4\<rparr>"
  by (simp add: wideDetector_def wideSession_def loadModel_def initFromOutputs_def newDetector_def
      tinySession_def Let_def)

lemma near_eight:
  "binary64 (1 / 134217728) = Fin (1 / 134217728)"
  "binary32 (1 / 134217728) = Fin (1 / 134217728)"
  "binary64 (1073741823 / 134217728) = Fin (1073741823 / 134217728)"
  "binary64 (1073741825 / 134217728) = Fin (1073741825 / 134217728)"
  "binary32 (1073741823 / 134217728) = Fin 8"
  "binary32 (1073741825 / 134217728) = Fin 8"
proof -
  show "binary64 (1 / 134217728) = Fin (1 / 134217728)"
    unfolding binary64_def by (rule ieeeRound_exact [where m = 1 and j = "- 27"]) simp_all
  show "binary32 (1 / 134217728) = Fin (1 / 134217728)"
    unfolding binary32_def by (rule ieeeRound_exact [where m = 1 and j = "- 27"]) simp_all
  show "binary64 (1073741823 / 134217728) = Fin (1073741823 / 134217728)"
    unfolding binary64_def
    by (rule ieeeRound_exact [where m = 1073741823 and j = "- 27"]) simp_all
  show "binary64 (1073741825 / 134217728) = Fin (1073741825 / 134217728)"
    unfolding binary64_def
    by (rule ieeeRound_exact [where m = 1073741825 and j = "- 27"]) simp_all
  show "binary32 (1073741823 / 134217728) = Fin 8"
    unfolding binary32_def
    using ieeeRound_value [of 2 "1073741823 / 134217728" "- 126" 24 "1 / 2097152" 16777216]
    by simp
  show "binary32 (1073741825 / 134217728) = Fin 8"
    unfolding binary32_def
    using ieeeRound_value [of 3 "1073741825 / 134217728" "- 126" 24 "1 / 1048576" 8388608]
    by simp
qed

lemma upt_four: "[0..<4] = [0, 1, 2, 3]"
  by (simp add: upt_rec)

lemma replicate_two: "replicate 2 x = [x, x]"
  by (simp add: numeral_2_eq_2)

lemma detect_wide:
  "detectFromElement wideDetector
     (tinyRun [0.1, 0.1, 0.9, 0.1]
        [0, 0, 0, 0, 0, 0, 0, 0, 1 / 2 ^ 30, 1, 1 / 2 ^ 30, 1, 0, 0, 0, 0]) 0.5 =
     Inr [\<lparr>bbox = (Fin 8, Fin (- 8), Fin 8, Fin 8), score = 0.9\<rparr>]"
  unfolding wideDetector_eq
  by (simp add: detector_defs js_defs upt_small upt_four replicate_two near_eight Let_def)

text \<open>
  C3, as stated, fails. On the small detector, an anchor scored 0.9 with all four
  distances zero and an anchor scored 0.8 with all four distances negative both reach the
  caller: the first box has zero width and height, the second has \<open>x1 > x2\<close> and
  \<open>y1 > y2\<close>. A positive extent can be lost as well: on the wider detector, the anchor
  centred at (8, 0) with distances \<open>2 ^ - 30\<close> to the left and to the right (\<open>2 ^ - 27\<close> once
  multiplied by the stride) has both its x corners stored as 8, and reaches the caller
  with zero width.
\<close>

theorem C3_counterexample:
  "detectFromElement tinyDetector (tinyRun [0.9, 0.8] [0, 0, 0, 0, - 1, - 1, - 1, - 1]) 0.5 =
     Inr [\<lparr>bbox = (Fin 0, Fin 0, Fin 0, Fin 0), score = 0.9\<rparr>,
          \<lparr>bbox = (Fin 8, Fin 8, Fin (- 8), Fin (- 8)), score = 0.8\<rparr>] \<and>
   \<not> nondegenerate \<lparr>bbox = (Fin 0, Fin 0, Fin 0, Fin 0), score = 0.9\<rparr> \<and>
   \<not> nondegenerate \<lparr>bbox = (Fin 8, Fin 8, Fin (- 8), Fin (- 8)), score = 0.8\<rparr> \<and>
   detectFromElement wideDetector
     (tinyRun [0.1, 0.1, 0.9, 0.1]
        [0, 0, 0, 0, 0, 0, 0, 0, 1 / 2 ^ 30, 1, 1 / 2 ^ 30, 1, 0, 0, 0, 0]) 0.5 =
     Inr [\<lparr>bbox = (Fin 8, Fin (- 8), Fin 8, Fin 8), score = 0.9\<rparr>] \<and>
   \<not> nondegenerate \<lparr>bbox = (Fin 8, Fin (- 8), Fin 8, Fin 8), score = 0.9\<rparr>"
proof -
  have "detectFromElement tinyDetector (tinyRun [0.9, 0.8] [0, 0, 0, 0, - 1, - 1, - 1, - 1]) 0.5 =
     Inr [\<lparr>bbox = (Fin 0, Fin 0, Fin 0, Fin 0), score = 0.9\<rparr>,
          \<lparr>bbox = (Fin 8, Fin 8, Fin (- 8), Fin (- 8)), score = 0.8\<rparr>]"
    unfolding tinyDetector_eq
    by (simp add: detector_defs js_defs upt_small Let_def)
  then show ?thesis
    using detect_wide by (simp add: nondegenerate_def)
qed

end
